(* ===== verification/Prelude.thy ===== *)
theory Prelude
  imports Main "HOL-Library.Word" "HOL-Library.List_Lexorder" "HOL-Library.Char_ord"
    "HOL-Library.Multiset" "HOL-Library.Sublist"
begin

text \<open>
  Shared vocabulary of the development: how Go's pointers, maps, fixed-width conversions and
  error results are written, the collections of facts the component theories extend, and the
  list and map lemmas more than one component uses.
\<close>

named_theorems go_defs \<open>unfolding rules of small Go helper functions\<close>
named_theorems hub_laws \<open>consequences of the documented behaviour of the cluster API\<close>

subsection \<open>Types shared by every component\<close>

text \<open>
  A Go pointer to a value is an \<open>option\<close>, \<open>nil\<close> is \<open>None\<close>.  A Go map is a partial function; a
  map literal that is only read as a selector is an association list.  A point in time is the
  number of nanoseconds since Go's zero time, so \<open>Time.IsZero\<close> is equality with \<open>0\<close>.
\<close>

type_synonym str_map = "string \<rightharpoonup> string"
type_synonym selector = "(string \<times> string) list"
type_synonym time = int

text \<open>Reading a missing key of a Go \<open>map[string]string\<close> gives the empty string.\<close>

definition map_get :: "str_map \<Rightarrow> string \<Rightarrow> string" where
  "map_get m k = (case m k of None \<Rightarrow> [] | Some v \<Rightarrow> v)"

lemma map_get_upd [simp]: "map_get (m(k \<mapsto> v)) k' = (if k' = k then v else map_get m k')"
  by (simp add: map_get_def)

lemma map_get_empty [simp]: "map_get Map.empty k = []"
  by (simp add: map_get_def)

lemma map_get_SomeI: "m k = Some v \<Longrightarrow> map_get m k = v"
  by (simp add: map_get_def)

text \<open>A Go function that returns, or panics with a message.\<close>

datatype 'a outcome = Returns 'a | Panics string

subsection \<open>Fixed-width integer conversions\<close>

text \<open>
  Go's \<open>int\<close> is 64 bits wide on the supported platforms.  The code narrows it with \<open>int32(x)\<close>
  and \<open>uint32(x)\<close>, which keep the low 32 bits; the wrap-around is written out here and tied to
  the machine words of the library below.
\<close>

definition in_int64 :: "int \<Rightarrow> bool" where
  "in_int64 n \<longleftrightarrow> - (2 ^ 63) \<le> n \<and> n < 2 ^ 63"

definition to_int64 :: "int \<Rightarrow> int" where
  "to_int64 n = (n + 2 ^ 63) mod 2 ^ 64 - 2 ^ 63"

definition to_int32 :: "int \<Rightarrow> int" where
  "to_int32 n = (n + 2 ^ 31) mod 2 ^ 32 - 2 ^ 31"

definition to_uint32 :: "int \<Rightarrow> int" where
  "to_uint32 n = n mod 2 ^ 32"

lemma to_int32_range: "- (2 ^ 31) \<le> to_int32 n \<and> to_int32 n < 2 ^ 31"
  by (simp add: to_int32_def)

lemma to_int32_id: "- (2 ^ 31) \<le> n \<Longrightarrow> n < 2 ^ 31 \<Longrightarrow> to_int32 n = n"
  by (simp add: to_int32_def)

lemma to_uint32_id: "0 \<le> n \<Longrightarrow> n < 2 ^ 32 \<Longrightarrow> to_uint32 n = n"
  by (simp add: to_uint32_def)

lemma to_int64_id: "in_int64 n \<Longrightarrow> to_int64 n = n"
  by (simp add: to_int64_def in_int64_def)

lemma to_int32_word: "to_int32 n = sint (word_of_int n :: 32 word)"
  by (simp add: to_int32_def sint_sbintrunc' signed_take_bit_eq_take_bit_shift take_bit_eq_mod)

lemma to_uint32_word: "to_uint32 n = uint (word_of_int n :: 32 word)"
  by (simp add: to_uint32_def uint_word_of_int)

lemma to_int64_word: "to_int64 n = sint (word_of_int n :: 64 word)"
  by (simp add: to_int64_def sint_sbintrunc' signed_take_bit_eq_take_bit_shift take_bit_eq_mod)

subsection \<open>Lists\<close>

lemma find_map_Some: "find P xs = Some x \<Longrightarrow> x \<in> set xs \<and> P x"
  by (induction xs) (auto split: if_splits)

lemma find_NoneD: "find P xs = None \<Longrightarrow> x \<in> set xs \<Longrightarrow> \<not> P x"
  by (induction xs) (auto split: if_splits)

lemma find_distinct_key:
  "distinct (map f xs) \<Longrightarrow> x \<in> set xs \<Longrightarrow> find (\<lambda>y. f y = f x) xs = Some x"
  by (induction xs) force+

text \<open>Two sorted lists with distinct keys and the same elements are equal.\<close>

lemma sorted_key_unique:
  assumes "mset xs = mset ys" "sorted (map f xs)" "sorted (map f ys)" "distinct (map f xs)"
  shows "xs = ys"
proof -
  have "set xs = set ys" using assms(1) by (metis set_mset_mset)
  moreover have "length xs = length ys" using assms(1) by (metis size_mset)
  moreover have "distinct (map f ys)"
    using assms(1,4) by (metis distinct_map mset_eq_imp_distinct_iff mset_eq_setD)
  ultimately show ?thesis
    using assms by (metis map_sorted_distinct_set_unique inj_on_Un Un_absorb distinct_map)
qed

lemma chunk_split: "n \<le> m \<Longrightarrow> drop n (take m xs) @ drop m xs = drop n xs"
  by (metis append_take_drop_id drop_append drop_drop le_add_diff_inverse2 take_drop
      drop_take)

end
