(* ===== verification/ApiTypes.thy ===== *)
theory ApiTypes
  imports Prelude
begin

text \<open>
  The data the components exchange: the resource types of \<open>api/v1alpha1/types.gen.go\<close>, the
  domain errors of \<open>internal/service/errors.go\<close> and the settings of \<open>internal/config/config.go\<close>.
  Field names carry a short prefix for their Go struct.
\<close>

subsection \<open>Resource types\<close>

datatype json =
    JNull
  | JBool bool
  | JNumber string
  | JString string
  | JArray "json list"
  | JObject "(string \<times> json) list"

datatype ClusterStatus =
  PENDING | PROVISIONING | READY | FAILED | UNAVAILABLE | DELETING | DELETED

fun status_string :: "ClusterStatus \<Rightarrow> string" where
  "status_string DELETED = ''DELETED''"
| "status_string DELETING = ''DELETING''"
| "status_string FAILED = ''FAILED''"
| "status_string PENDING = ''PENDING''"
| "status_string PROVISIONING = ''PROVISIONING''"
| "status_string READY = ''READY''"
| "status_string UNAVAILABLE = ''UNAVAILABLE''"

lemma status_string_inj [simp]: "status_string s = status_string t \<longleftrightarrow> s = t"
  by (cases s; cases t) simp_all

text \<open>The platform and the service type are open string types; these are their constants.\<close>

definition Kubevirt :: string where "Kubevirt = ''kubevirt''"
definition Baremetal :: string where "Baremetal = ''baremetal''"
definition ClusterSpecServiceTypeCluster :: string where
  "ClusterSpecServiceTypeCluster = ''cluster''"

record ACMProviderHints =
  ah_AgentLabels :: "str_map option"
  ah_BaseDomain :: "string option"
  ah_InfraEnv :: "string option"
  ah_Platform :: "string option"
  ah_ReleaseImage :: "string option"

record ProviderHints =
  ph_Acm :: "ACMProviderHints option"
  ph_AdditionalProperties :: "(string \<times> json) list"

record ControlPlaneSpec =
  cp_Count :: "int option"
  cp_Cpu :: "int option"
  cp_Memory :: "string option"
  cp_Storage :: "string option"

record WorkerSpec =
  wk_Count :: "int option"
  wk_Cpu :: "int option"
  wk_Memory :: "string option"
  wk_Storage :: "string option"

record ClusterNodes =
  cn_ControlPlane :: "ControlPlaneSpec option"
  cn_Workers :: "WorkerSpec option"

record ClusterMetadata =
  cm_Labels :: "str_map option"
  cm_Name :: string

record ClusterSpec =
  cs_Metadata :: ClusterMetadata
  cs_Nodes :: "ClusterNodes option"
  cs_ProviderHints :: "ProviderHints option"
  cs_ServiceType :: string
  cs_Version :: string

record Cluster =
  cl_ApiEndpoint :: "string option"
  cl_ConsoleUri :: "string option"
  cl_CreateTime :: "time option"
  cl_Id :: "string option"
  cl_Kubeconfig :: "string option"
  cl_Path :: "string option"
  cl_Spec :: ClusterSpec
  cl_Status :: "string option" \<comment> \<open>an open string type, the program writes its constants\<close>
  cl_StatusMessage :: "string option"
  cl_UpdateTime :: "time option"

record ClusterList =
  li_Clusters :: "Cluster list option"
  li_NextPageToken :: "string option"

record Health =
  he_Path :: "string option"
  he_Status :: "string option"
  he_Type :: "string option"
  he_Uptime :: "int option"
  he_Version :: "string option"

text \<open>The chain of nil checks the code writes out before it reads an ACM hint.\<close>

definition acm_hints :: "Cluster \<Rightarrow> ACMProviderHints option" where
  "acm_hints req = Option.bind (cs_ProviderHints (cl_Spec req)) ph_Acm"

definition acm_hint :: "(ACMProviderHints \<Rightarrow> 'a option) \<Rightarrow> Cluster \<Rightarrow> 'a option" where
  "acm_hint f req = Option.bind (acm_hints req) f"

subsection \<open>Problem types and domain errors\<close>

datatype ErrorType =
    ErrorTypeALREADYEXISTS
  | ErrorTypeINTERNAL
  | ErrorTypeINVALIDARGUMENT
  | ErrorTypeNOTFOUND
  | ErrorTypePERMISSIONDENIED
  | ErrorTypeUNAUTHENTICATED
  | ErrorTypeUNAVAILABLE
  | ErrorTypeUNPROCESSABLEENTITY
  | ErrorTypeOther string

fun error_type_uri :: "ErrorType \<Rightarrow> string" where
  "error_type_uri ErrorTypeALREADYEXISTS = ''https://dcm-project.github.io/problems/already-exists''"
| "error_type_uri ErrorTypeINTERNAL = ''https://dcm-project.github.io/problems/internal''"
| "error_type_uri ErrorTypeINVALIDARGUMENT = ''https://dcm-project.github.io/problems/invalid-argument''"
| "error_type_uri ErrorTypeNOTFOUND = ''https://dcm-project.github.io/problems/not-found''"
| "error_type_uri ErrorTypePERMISSIONDENIED = ''https://dcm-project.github.io/problems/permission-denied''"
| "error_type_uri ErrorTypeUNAUTHENTICATED = ''https://dcm-project.github.io/problems/unauthenticated''"
| "error_type_uri ErrorTypeUNAVAILABLE = ''https://dcm-project.github.io/problems/unavailable''"
| "error_type_uri ErrorTypeUNPROCESSABLEENTITY = ''https://dcm-project.github.io/problems/unprocessable-entity''"
| "error_type_uri (ErrorTypeOther s) = s"

record Error =
  er_Type :: ErrorType
  er_Title :: string
  er_Status :: "int option"
  er_Detail :: "string option"
  er_Instance :: "string option"

text \<open>
  Errors of the cluster API, as the code tells them apart with \<open>k8serrors.IsAlreadyExists\<close> and
  \<open>k8serrors.IsNotFound\<close>; the text is what the error prints.
\<close>

datatype k8s_error =
    K8sAlreadyExists string
  | K8sNotFound string
  | K8sOther string

fun k8s_error_text :: "k8s_error \<Rightarrow> string" where
  "k8s_error_text (K8sAlreadyExists m) = m"
| "k8s_error_text (K8sNotFound m) = m"
| "k8s_error_text (K8sOther m) = m"

text \<open>
  Go's \<open>error\<close> values: a domain error (its cause is what \<open>Unwrap\<close> returns), an error of the
  cluster API, an error built with \<open>fmt.Errorf\<close> and \<open>%w\<close> (its whole text and what it wraps), the
  registrar's \<open>retryableError\<close>, and an error that wraps nothing.
\<close>

datatype go_error =
    DomainError ErrorType string string "go_error option"
  | K8sError k8s_error
  | Wrapped string go_error
  | RetryableError go_error
  | PlainError string

fun error_text :: "go_error \<Rightarrow> string" where
  "error_text (DomainError t msg det (Some cause)) =
     error_type_uri t @ '': '' @ msg @ '': '' @ error_text cause"
| "error_text (DomainError t msg det None) = error_type_uri t @ '': '' @ msg"
| "error_text (K8sError e) = k8s_error_text e"
| "error_text (Wrapped s e) = s"
| "error_text (RetryableError e) = error_text e"
| "error_text (PlainError s) = s"

definition WithDetail :: "string \<Rightarrow> go_error \<Rightarrow> go_error" where
  "WithDetail detail e =
     (case e of DomainError t msg _ cause \<Rightarrow> DomainError t msg detail cause | _ \<Rightarrow> e)"

definition NewNotFoundError :: "string \<Rightarrow> go_error" where
  "NewNotFoundError msg = DomainError ErrorTypeNOTFOUND msg [] None"

definition NewAlreadyExistsError :: "string \<Rightarrow> go_error" where
  "NewAlreadyExistsError msg = DomainError ErrorTypeALREADYEXISTS msg [] None"

definition NewInvalidArgumentError :: "string \<Rightarrow> go_error" where
  "NewInvalidArgumentError msg = DomainError ErrorTypeINVALIDARGUMENT msg [] None"

definition NewUnprocessableEntityError :: "string \<Rightarrow> go_error" where
  "NewUnprocessableEntityError msg = DomainError ErrorTypeUNPROCESSABLEENTITY msg [] None"

definition NewInternalError :: "string \<Rightarrow> go_error \<Rightarrow> go_error" where
  "NewInternalError msg cause = DomainError ErrorTypeINTERNAL msg [] (Some cause)"

definition NewUnavailableError :: "string \<Rightarrow> go_error" where
  "NewUnavailableError msg = DomainError ErrorTypeUNAVAILABLE msg [] None"

lemmas new_error_defs [go_defs] =
  NewNotFoundError_def NewAlreadyExistsError_def NewInvalidArgumentError_def
  NewUnprocessableEntityError_def NewInternalError_def NewUnavailableError_def

text \<open>
  \<open>errors.As\<close> for a \<open>*DomainError\<close>: the first one of the unwrap chain.  The cause of a domain
  error is not reached, the domain error itself matches first.
\<close>

fun AsDomainError :: "go_error \<Rightarrow> go_error option" where
  "AsDomainError (DomainError t msg det cause) = Some (DomainError t msg det cause)"
| "AsDomainError (Wrapped s e) = AsDomainError e"
| "AsDomainError (RetryableError e) = AsDomainError e"
| "AsDomainError (K8sError e) = None"
| "AsDomainError (PlainError s) = None"

definition domain_type :: "go_error \<Rightarrow> ErrorType option" where
  "domain_type e =
     (case AsDomainError e of Some (DomainError t _ _ _) \<Rightarrow> Some t | _ \<Rightarrow> None)"

lemma domain_type_new [simp]:
  "domain_type (NewNotFoundError m) = Some ErrorTypeNOTFOUND"
  "domain_type (NewAlreadyExistsError m) = Some ErrorTypeALREADYEXISTS"
  "domain_type (NewInvalidArgumentError m) = Some ErrorTypeINVALIDARGUMENT"
  "domain_type (NewUnprocessableEntityError m) = Some ErrorTypeUNPROCESSABLEENTITY"
  "domain_type (NewInternalError m c) = Some ErrorTypeINTERNAL"
  "domain_type (NewUnavailableError m) = Some ErrorTypeUNAVAILABLE"
  by (simp_all add: domain_type_def go_defs)

lemma AsDomainError_shape: "AsDomainError e = Some d \<Longrightarrow> \<exists>t msg det c. d = DomainError t msg det c"
  by (induction e rule: AsDomainError.induct) auto

subsection \<open>Settings\<close>

type_synonym duration = int

text \<open>
  A compatibility matrix (OCP minor version to Kubernetes minor version) is a Go map.  It is given
  by its entries in the order a \<open>range\<close> over it visits them, an order the language leaves open.
\<close>

type_synonym CompatibilityMatrix = "(string \<times> string) list"

record ServerConfig =
  sv_BindAddress :: string
  sv_ShutdownTimeout :: duration
  sv_RequestTimeout :: duration
  sv_ReadTimeout :: duration
  sv_WriteTimeout :: duration
  sv_IdleTimeout :: duration

record HealthConfig =
  hf_CheckTimeout :: duration
  hf_EnabledPlatforms :: "string list"

record RegistrationConfig =
  rc_DCMRegistrationURL :: string
  rc_ProviderName :: string
  rc_ProviderEndpoint :: string
  rc_RegistrationInitialBackoff :: duration
  rc_RegistrationMaxBackoff :: duration
  rc_VersionCheckInterval :: duration
  rc_ProviderDisplayName :: string
  rc_ProviderRegion :: string
  rc_ProviderZone :: string

record ClusterConfig =
  cc_ClusterNamespace :: string
  cc_BaseDomain :: string
  cc_PullSecret :: string
  cc_PullSecretName :: string
  cc_ConsoleURIPattern :: string
  cc_VersionMatrixPath :: string
  cc_DefaultInfraEnv :: string
  cc_AgentNamespace :: string
  cc_InfraEnvLabelKey :: string
  cc_VersionMatrix :: CompatibilityMatrix

record MonitoringConfig =
  mo_NATSUrl :: string
  mo_DebounceInterval :: duration
  mo_ResyncInterval :: duration
  mo_PublishRetryMax :: int
  mo_PublishRetryInterval :: duration

end
