(* ===== verification/Status.thy ===== *)
theory Status
  imports ApiTypes
begin

text \<open>
  The status mappers of \<open>internal/service/status\<close>: conditions of a HostedCluster or a NodePool to a
  cluster status, and the worst-of composite of the two.  The severity ranking is turned into an
  instance of \<open>linorder\<close>, so that the composite is a maximum.
\<close>

record condition =
  co_Type :: string
  co_Status :: string
  co_Message :: string
  co_LastTransitionTime :: time

definition ConditionTrue :: string where "ConditionTrue = ''True''"
definition ConditionFalse :: string where "ConditionFalse = ''False''"

fun conditionIsTrue :: "condition list \<Rightarrow> string \<Rightarrow> bool" where
  "conditionIsTrue [] condType = False"
| "conditionIsTrue (c # cs) condType =
     (if co_Type c = condType then co_Status c = ConditionTrue else conditionIsTrue cs condType)"

fun conditionIsFalse :: "condition list \<Rightarrow> string \<Rightarrow> bool" where
  "conditionIsFalse [] condType = False"
| "conditionIsFalse (c # cs) condType =
     (if co_Type c = condType then co_Status c = ConditionFalse else conditionIsFalse cs condType)"

definition MapConditionsToStatus :: "condition list \<Rightarrow> time option \<Rightarrow> ClusterStatus" where
  "MapConditionsToStatus conditions deletionTimestamp =
     (if deletionTimestamp \<noteq> None then DELETING
      else if conditionIsTrue conditions ''Degraded'' then FAILED
      else if conditionIsTrue conditions ''Available'' then READY
      else if conditionIsTrue conditions ''Progressing'' then PROVISIONING
      else if conditionIsFalse conditions ''Available''
              \<and> conditionIsFalse conditions ''Progressing'' then UNAVAILABLE
      else PENDING)"

text \<open>\<open>None\<close> is the second result \<open>false\<close>: a NodePool without conditions is left out.\<close>

definition MapNodePoolConditionsToStatus :: "condition list \<Rightarrow> ClusterStatus option" where
  "MapNodePoolConditionsToStatus conditions =
     (if length conditions = 0 then None
      else if conditionIsTrue conditions ''UpdatingVersion''
              \<or> conditionIsTrue conditions ''UpdatingConfig'' then Some PROVISIONING
      else if conditionIsFalse conditions ''Ready'' then Some UNAVAILABLE
      else if conditionIsTrue conditions ''Ready'' then Some READY
      else Some PENDING)"

fun StatusPriority :: "ClusterStatus \<Rightarrow> int" where
  "StatusPriority READY = 1"
| "StatusPriority PENDING = 2"
| "StatusPriority PROVISIONING = 3"
| "StatusPriority UNAVAILABLE = 4"
| "StatusPriority FAILED = 5"
| "StatusPriority DELETING = 6"
| "StatusPriority DELETED = 7"

text \<open>The lookup of a status that may be Go's empty string, whose missing key reads \<open>0\<close>.\<close>

definition StatusPriority_of :: "ClusterStatus option \<Rightarrow> int" where
  "StatusPriority_of s = (case s of None \<Rightarrow> 0 | Some st \<Rightarrow> StatusPriority st)"

definition ComputeCompositeStatus :: "ClusterStatus \<Rightarrow> ClusterStatus option \<Rightarrow> ClusterStatus" where
  "ComputeCompositeStatus hcStatus npStatus =
     (case npStatus of
        None \<Rightarrow> hcStatus
      | Some np \<Rightarrow> if StatusPriority np > StatusPriority hcStatus then np else hcStatus)"

subsection \<open>Severity as an order\<close>

lemma StatusPriority_inj: "StatusPriority s = StatusPriority t \<longleftrightarrow> s = t"
  by (cases s; cases t) simp_all

lemma StatusPriority_pos [simp]: "0 < StatusPriority s"
  by (cases s) simp_all

instantiation ClusterStatus :: linorder
begin

definition less_eq_ClusterStatus :: "ClusterStatus \<Rightarrow> ClusterStatus \<Rightarrow> bool" where
  "less_eq_ClusterStatus s t \<longleftrightarrow> StatusPriority s \<le> StatusPriority t"

definition less_ClusterStatus :: "ClusterStatus \<Rightarrow> ClusterStatus \<Rightarrow> bool" where
  "less_ClusterStatus s t \<longleftrightarrow> StatusPriority s < StatusPriority t"

instance
  by standard (auto simp: less_eq_ClusterStatus_def less_ClusterStatus_def StatusPriority_inj)

end

lemmas status_order = less_eq_ClusterStatus_def less_ClusterStatus_def

lemma composite_max: "ComputeCompositeStatus hc np = (case np of None \<Rightarrow> hc | Some n \<Rightarrow> max hc n)"
  by (auto simp: ComputeCompositeStatus_def max_def status_order StatusPriority_inj split: option.split)

lemma composite_not_below: "hc \<le> ComputeCompositeStatus hc np"
  by (simp add: composite_max split: option.split)

text \<open>
  The composite is the worst of the two statuses in the severity ranking, it is one of the two,
  and it does not depend on which resource reports the worse one.
\<close>

theorem composite_worst_of:
  "ComputeCompositeStatus hc None = hc
   \<and> ComputeCompositeStatus hc (Some np) = max hc np
   \<and> ComputeCompositeStatus hc (Some np) \<in> {hc, np}
   \<and> ComputeCompositeStatus hc (Some np) = ComputeCompositeStatus np (Some hc)"
  by (auto simp: composite_max max.commute max_def)

subsection \<open>What a condition list says\<close>

text \<open>The code looks at the first condition of a type only.\<close>

definition condition_value :: "condition list \<Rightarrow> string \<Rightarrow> string option" where
  "condition_value conditions t =
     map_option co_Status (find (\<lambda>c. co_Type c = t) conditions)"

lemma conditionIsTrue_value: "conditionIsTrue cs t \<longleftrightarrow> condition_value cs t = Some ConditionTrue"
  by (induction cs t rule: conditionIsTrue.induct) (auto simp: condition_value_def)

lemma conditionIsFalse_value: "conditionIsFalse cs t \<longleftrightarrow> condition_value cs t = Some ConditionFalse"
  by (induction cs t rule: conditionIsFalse.induct) (auto simp: condition_value_def)

lemmas condition_values = conditionIsTrue_value conditionIsFalse_value

lemma ConditionTrue_neq_False [simp]: "ConditionTrue \<noteq> ConditionFalse" "ConditionFalse \<noteq> ConditionTrue"
  by (simp_all add: ConditionTrue_def ConditionFalse_def)

text \<open>The documented precedence as a table of guards, first match wins.\<close>

definition status_table :: "condition list \<Rightarrow> time option \<Rightarrow> (bool \<times> ClusterStatus) list" where
  "status_table cs del =
     (let v = condition_value cs in
      [(del \<noteq> None, DELETING),
       (v ''Degraded'' = Some ConditionTrue, FAILED),
       (v ''Available'' = Some ConditionTrue, READY),
       (v ''Progressing'' = Some ConditionTrue, PROVISIONING),
       (v ''Available'' = Some ConditionFalse \<and> v ''Progressing'' = Some ConditionFalse, UNAVAILABLE)])"

definition first_match :: "(bool \<times> 'a) list \<Rightarrow> 'a \<Rightarrow> 'a" where
  "first_match table other = (case find fst table of None \<Rightarrow> other | Some row \<Rightarrow> snd row)"

lemma MapConditions_table:
  "MapConditionsToStatus cs del = first_match (status_table cs del) PENDING"
  by (simp add: MapConditionsToStatus_def first_match_def status_table_def condition_values Let_def)

lemma condition_value_perm:
  assumes "mset cs = mset ds" "distinct (map co_Type cs)"
  shows "condition_value cs t = condition_value ds t"
proof -
  have dist: "distinct (map co_Type ds)"
    using assms by (metis mset_eq_imp_distinct_iff mset_map)
  have same: "set cs = set ds" using assms(1) by (rule mset_eq_setD)
  show ?thesis
  proof (cases "find (\<lambda>c. co_Type c = t) cs")
    case None
    then have "find (\<lambda>c. co_Type c = t) ds = None" by (simp add: find_None_iff same)
    with None show ?thesis by (simp add: condition_value_def)
  next
    case (Some c)
    then have c: "c \<in> set ds" "co_Type c = t" using find_map_Some[OF Some] by (auto simp: same)
    have "find (\<lambda>c. co_Type c = t) ds = Some c"
      using find_distinct_key[OF dist c(1)] unfolding c(2) .
    with Some show ?thesis by (simp add: condition_value_def)
  qed
qed

text \<open>One list of conditions, or a deletion, for each status.\<close>

definition conditions_for :: "ClusterStatus \<Rightarrow> condition list \<times> time option" where
  "conditions_for st =
     (let c = (\<lambda>t v. \<lparr>co_Type = t, co_Status = v, co_Message = [], co_LastTransitionTime = 0\<rparr>) in
      case st of
        DELETING \<Rightarrow> ([], Some 0)
      | FAILED \<Rightarrow> ([c ''Degraded'' ConditionTrue], None)
      | READY \<Rightarrow> ([c ''Available'' ConditionTrue], None)
      | PROVISIONING \<Rightarrow> ([c ''Progressing'' ConditionTrue], None)
      | UNAVAILABLE \<Rightarrow> ([c ''Available'' ConditionFalse, c ''Progressing'' ConditionFalse], None)
      | _ \<Rightarrow> ([], None))"

lemma conditions_for: "st \<noteq> DELETED \<Longrightarrow> (\<lambda>(cs, del). MapConditionsToStatus cs del) (conditions_for st) = st"
  by (cases st) (simp_all add: conditions_for_def MapConditionsToStatus_def Let_def)

lemma MapConditions_not_DELETED [simp]: "MapConditionsToStatus cs del \<noteq> DELETED"
  by (simp add: MapConditionsToStatus_def)

lemma produced_statuses: "range (\<lambda>(cs, del). MapConditionsToStatus cs del) = - {DELETED}"
proof -
  have "st \<in> range (\<lambda>(cs, del). MapConditionsToStatus cs del)" if "st \<noteq> DELETED" for st
    using conditions_for[OF that] by (metis rangeI)
  then show ?thesis by auto
qed

text \<open>
  C23: the status of a HostedCluster is the first match of the documented precedence table, every
  status but \<open>DELETED\<close> can be produced and \<open>DELETED\<close> never is, and the order in which the API server
  lists the conditions does not matter when each type occurs once.
\<close>

theorem hosted_cluster_status_precedence:
  "MapConditionsToStatus cs del = first_match (status_table cs del) PENDING
   \<and> range (\<lambda>(conditions, deletion). MapConditionsToStatus conditions deletion) = - {DELETED}
   \<and> (mset cs = mset ds \<and> distinct (map co_Type cs) \<longrightarrow>
      MapConditionsToStatus ds del = MapConditionsToStatus cs del)"
  using condition_value_perm[of cs ds] produced_statuses
  by (auto simp: MapConditions_table status_table_def Let_def first_match_def split: option.split)

theorem hosted_cluster_status_precedence_witness:
  "MapConditionsToStatus
     [\<lparr>co_Type = ''Progressing'', co_Status = ''False'', co_Message = [], co_LastTransitionTime = 1\<rparr>,
      \<lparr>co_Type = ''Available'', co_Status = ''True'', co_Message = [], co_LastTransitionTime = 2\<rparr>] None
   = MapConditionsToStatus
     [\<lparr>co_Type = ''Available'', co_Status = ''True'', co_Message = [], co_LastTransitionTime = 2\<rparr>,
      \<lparr>co_Type = ''Progressing'', co_Status = ''False'', co_Message = [], co_LastTransitionTime = 1\<rparr>] None"
  using hosted_cluster_status_precedence
    [of "[\<lparr>co_Type = ''Available'', co_Status = ''True'', co_Message = [], co_LastTransitionTime = 2\<rparr>,
          \<lparr>co_Type = ''Progressing'', co_Status = ''False'', co_Message = [], co_LastTransitionTime = 1\<rparr>]" None
        "[\<lparr>co_Type = ''Progressing'', co_Status = ''False'', co_Message = [], co_LastTransitionTime = 1\<rparr>,
          \<lparr>co_Type = ''Available'', co_Status = ''True'', co_Message = [], co_LastTransitionTime = 2\<rparr>]"]
  by (simp add: add_mset_commute)

lemma MapNodePool_range:
  "MapNodePoolConditionsToStatus cs = Some s \<Longrightarrow> s \<in> {PROVISIONING, UNAVAILABLE, READY, PENDING}"
  by (auto simp: MapNodePoolConditionsToStatus_def split: if_splits)

end
