(* ===== verification/Hub.thy ===== *)
theory Hub
  imports Status
begin

text \<open>
  The ACM hub as the provider sees it: the HyperShift and core resources it reads and writes, the
  labels of \<open>internal/cluster/labels.go\<close>, the kinds of \<open>internal/util/gvk.go\<close>, and the Kubernetes
  client as a record of functions.  The client is not part of the repository, so it is a
  parameter: every call takes the state of the world and returns the next one, whatever it is.
  What the code relies on is stated at the end as \<open>hub_api\<close>, the documented behaviour of the API
  server, and is a hypothesis wherever it is used.  Quantities (\<open>resource.Quantity\<close>) are a type
  parameter, \<open>ParseQuantity\<close> is a parameter too.
\<close>

subsection \<open>Resources\<close>

datatype platform_type = KubevirtPlatform | AgentPlatform | OtherPlatform string
datatype service_type = OAuthServer | Konnectivity | Ignition | APIServer | OtherService string
datatype publishing_type = Route | LoadBalancer | OtherPublishing string
datatype etcd_management = Managed | Unmanaged
datatype etcd_storage = PersistentVolumeEtcdStorage | OtherEtcdStorage string
datatype upgrade_type = UpgradeTypeInPlace | UpgradeTypeReplace
datatype volume_type = KubevirtVolumeTypePersistent | OtherVolumeType string

record HostedCluster =
  hc_Name :: string
  hc_Namespace :: string
  hc_Labels :: str_map
  hc_Annotations :: str_map
  hc_CreationTimestamp :: time
  hc_DeletionTimestamp :: "time option"
  hc_PlatformType :: platform_type
  hc_AgentNamespace :: "string option"
  hc_ReleaseImage :: string
  hc_BaseDomain :: string
  hc_Services :: "(service_type \<times> publishing_type) list"
  hc_Etcd :: "(etcd_management \<times> etcd_storage) option"
  hc_PullSecretName :: string
  hc_Conditions :: "condition list"
  hc_KubeConfigName :: "string option"
  hc_EndpointHost :: string
  hc_EndpointPort :: int

record 'q KubevirtCompute =
  kc_Memory :: "'q option"
  kc_Cores :: "int option"

record 'q KubevirtRootVolume =
  kr_Type :: volume_type
  kr_Size :: "'q option"

record 'q KubevirtNodePoolPlatform =
  kp_Compute :: "'q KubevirtCompute option"
  kp_RootVolume :: "'q KubevirtRootVolume option"

record 'q NodePool =
  np_Name :: string
  np_Namespace :: string
  np_Labels :: str_map
  np_DeletionTimestamp :: "time option"
  np_ClusterName :: string
  np_ReleaseImage :: string
  np_UpgradeType :: upgrade_type
  np_PlatformType :: platform_type
  np_Kubevirt :: "'q KubevirtNodePoolPlatform option"
  np_AgentMatchLabels :: "str_map option"
  np_Replicas :: "int option"

record Secret =
  se_Name :: string
  se_Namespace :: string
  se_Labels :: str_map
  se_Data :: str_map
  se_Type :: string

record GVK =
  gvk_Group :: string
  gvk_Version :: string
  gvk_Kind :: string

definition HostedClusterListGVK :: GVK where
  "HostedClusterListGVK = \<lparr>gvk_Group = ''hypershift.openshift.io'', gvk_Version = ''v1beta1'',
     gvk_Kind = ''HostedClusterList''\<rparr>"

definition KubevirtVMIListGVK :: GVK where
  "KubevirtVMIListGVK = \<lparr>gvk_Group = ''kubevirt.io'', gvk_Version = ''v1'',
     gvk_Kind = ''VirtualMachineInstanceList''\<rparr>"

definition AgentListGVK :: GVK where
  "AgentListGVK = \<lparr>gvk_Group = ''agent-install.openshift.io'', gvk_Version = ''v1beta1'',
     gvk_Kind = ''AgentList''\<rparr>"

subsection \<open>Labels\<close>

definition LabelManagedBy :: string where "LabelManagedBy = ''dcm.project/managed-by''"
definition LabelInstanceID :: string where "LabelInstanceID = ''dcm.project/dcm-instance-id''"
definition LabelServiceType :: string where "LabelServiceType = ''dcm.project/dcm-service-type''"
definition ValueManagedBy :: string where "ValueManagedBy = ''dcm''"
definition ValueServiceType :: string where "ValueServiceType = ''cluster''"

definition DCMLabels :: "string \<Rightarrow> str_map" where
  "DCMLabels instanceID =
     [LabelManagedBy \<mapsto> ValueManagedBy, LabelInstanceID \<mapsto> instanceID, LabelServiceType \<mapsto> ValueServiceType]"

lemma label_names_differ [simp]:
  "LabelManagedBy \<noteq> LabelInstanceID" "LabelInstanceID \<noteq> LabelManagedBy"
  "LabelServiceType \<noteq> LabelInstanceID" "LabelInstanceID \<noteq> LabelServiceType"
  "LabelManagedBy \<noteq> LabelServiceType" "LabelServiceType \<noteq> LabelManagedBy"
  by (simp_all add: LabelManagedBy_def LabelInstanceID_def LabelServiceType_def)

lemma DCMLabels_get [simp]:
  "DCMLabels i LabelInstanceID = Some i"
  "DCMLabels i LabelManagedBy = Some ValueManagedBy"
  "DCMLabels i LabelServiceType = Some ValueServiceType"
  by (simp_all add: DCMLabels_def)

subsection \<open>The client\<close>

type_synonym ('s, 'a) call = "'s \<Rightarrow> (k8s_error + 'a) \<times> 's"
type_synonym 's act = "'s \<Rightarrow> k8s_error option \<times> 's"

record ('s, 'q) k8s_client =
  ListHostedClusters :: "string \<Rightarrow> selector \<Rightarrow> ('s, HostedCluster list) call"
  ListNodePools :: "string \<Rightarrow> selector \<Rightarrow> ('s, 'q NodePool list) call"
  ListClusterImageSets :: "('s, string list) call" \<comment> \<open>each item's \<open>spec.releaseImage\<close>, empty when absent\<close>
  GetSecret :: "string \<Rightarrow> string \<Rightarrow> ('s, Secret) call" \<comment> \<open>namespace and name\<close>
  CreateHostedCluster :: "HostedCluster \<Rightarrow> 's act"
  CreateNodePool :: "'q NodePool \<Rightarrow> 's act"
  CreateSecret :: "Secret \<Rightarrow> 's act"
  UpdateSecret :: "Secret \<Rightarrow> 's act"
  DeleteHostedCluster :: "HostedCluster \<Rightarrow> 's act"
  DeleteNodePool :: "'q NodePool \<Rightarrow> 's act"
  Recognizes :: "GVK \<Rightarrow> bool"
  ListKind :: "GVK \<Rightarrow> 's act" \<comment> \<open>a list limited to one item, of which only the error is read\<close>

fun IsAlreadyExists :: "k8s_error \<Rightarrow> bool" where
  "IsAlreadyExists (K8sAlreadyExists m) = True"
| "IsAlreadyExists _ = False"

fun IsNotFound :: "k8s_error \<Rightarrow> bool" where
  "IsNotFound (K8sNotFound m) = True"
| "IsNotFound _ = False"

record 'q quantity_api =
  ParseQuantity :: "string \<Rightarrow> go_error + 'q"
  MustParse :: "string \<Rightarrow> 'q"
  ZeroQuantity :: 'q

subsection \<open>What the API server promises\<close>

text \<open>The stored objects behind a state of the world.\<close>

record 'q hub =
  hub_hcs :: "HostedCluster list"
  hub_nps :: "'q NodePool list"
  hub_images :: "string list"
  hub_secrets :: "Secret list"

definition selects :: "selector \<Rightarrow> str_map \<Rightarrow> bool" where
  "selects sel labels \<longleftrightarrow> list_all (\<lambda>(k, v). labels k = Some v) sel"

definition hc_matches :: "string \<Rightarrow> selector \<Rightarrow> HostedCluster \<Rightarrow> bool" where
  "hc_matches ns sel hc \<longleftrightarrow> hc_Namespace hc = ns \<and> selects sel (hc_Labels hc)"

definition np_matches :: "string \<Rightarrow> selector \<Rightarrow> 'q NodePool \<Rightarrow> bool" where
  "np_matches ns sel np \<longleftrightarrow> np_Namespace np = ns \<and> selects sel (np_Labels np)"

definition hc_key :: "HostedCluster \<Rightarrow> string \<times> string" where
  "hc_key hc = (hc_Namespace hc, hc_Name hc)"

definition np_key :: "'q NodePool \<Rightarrow> string \<times> string" where
  "np_key np = (np_Namespace np, np_Name np)"

text \<open>
  What a stored HostedCluster keeps of the one a client sent: the server owns the timestamps and
  the status, and a new object is not being deleted.
\<close>

definition hc_desired :: "HostedCluster \<Rightarrow> HostedCluster" where
  "hc_desired hc = hc\<lparr>hc_CreationTimestamp := 0, hc_DeletionTimestamp := None, hc_Conditions := [],
     hc_KubeConfigName := None, hc_EndpointHost := [], hc_EndpointPort := 0\<rparr>"

definition hc_stored :: "HostedCluster \<Rightarrow> HostedCluster \<Rightarrow> bool" where
  "hc_stored hc hc' \<longleftrightarrow> hc_desired hc' = hc_desired hc \<and> hc_DeletionTimestamp hc' = None"

definition np_stored :: "'q NodePool \<Rightarrow> 'q NodePool \<Rightarrow> bool" where
  "np_stored np np' \<longleftrightarrow>
     np_key np' = np_key np \<and> np_Labels np' = np_Labels np \<and> np_DeletionTimestamp np' = None
     \<and> np_ClusterName np' = np_ClusterName np \<and> np_ReleaseImage np' = np_ReleaseImage np
     \<and> np_UpgradeType np' = np_UpgradeType np \<and> np_PlatformType np' = np_PlatformType np
     \<and> np_Replicas np' = np_Replicas np"

text \<open>
  An accepted deletion: the object is gone, or it stays with a deletion timestamp until its
  finalizers are done.  No other object changes.
\<close>

definition obj_gone :: "('a \<Rightarrow> 'k) \<Rightarrow> (time \<Rightarrow> 'a \<Rightarrow> 'a) \<Rightarrow> 'k \<Rightarrow> 'a list \<Rightarrow> 'a list \<Rightarrow> bool" where
  "obj_gone key mark k before after \<longleftrightarrow>
     after = filter (\<lambda>h. key h \<noteq> k) before
     \<or> (\<exists>t. after = map (\<lambda>h. if key h = k then mark t h else h) before)"

definition hc_mark :: "time \<Rightarrow> HostedCluster \<Rightarrow> HostedCluster" where
  "hc_mark t hc = hc\<lparr>hc_DeletionTimestamp := Some t\<rparr>"

definition np_mark :: "time \<Rightarrow> 'q NodePool \<Rightarrow> 'q NodePool" where
  "np_mark t np = np\<lparr>np_DeletionTimestamp := Some t\<rparr>"

definition hc_gone :: "string \<times> string \<Rightarrow> HostedCluster list \<Rightarrow> HostedCluster list \<Rightarrow> bool" where
  "hc_gone = obj_gone hc_key hc_mark"

definition np_gone :: "string \<times> string \<Rightarrow> 'q NodePool list \<Rightarrow> 'q NodePool list \<Rightarrow> bool" where
  "np_gone = obj_gone np_key np_mark"

definition api_reads :: "('s, 'q) k8s_client \<Rightarrow> ('s \<Rightarrow> 'q hub) \<Rightarrow> bool" where
  "api_reads c view \<longleftrightarrow>
     (\<forall>ns sel s. view (snd (ListHostedClusters c ns sel s)) = view s)
     \<and> (\<forall>ns sel s. view (snd (ListNodePools c ns sel s)) = view s)
     \<and> (\<forall>s. view (snd (ListClusterImageSets c s)) = view s)
     \<and> (\<forall>ns n s. view (snd (GetSecret c ns n s)) = view s)"

definition api_lists :: "('s, 'q) k8s_client \<Rightarrow> ('s \<Rightarrow> 'q hub) \<Rightarrow> bool" where
  "api_lists c view \<longleftrightarrow>
     (\<forall>ns sel s xs s'. ListHostedClusters c ns sel s = (Inr xs, s') \<longrightarrow>
        mset xs = mset (filter (hc_matches ns sel) (hub_hcs (view s))))
     \<and> (\<forall>ns sel s xs s'. ListNodePools c ns sel s = (Inr xs, s') \<longrightarrow>
        mset xs = mset (filter (np_matches ns sel) (hub_nps (view s))))
     \<and> (\<forall>s xs s'. ListClusterImageSets c s = (Inr xs, s') \<longrightarrow> mset xs = mset (hub_images (view s)))"

definition api_creates :: "('s, 'q) k8s_client \<Rightarrow> ('s \<Rightarrow> 'q hub) \<Rightarrow> bool" where
  "api_creates c view \<longleftrightarrow>
     (\<forall>hc s s'. CreateHostedCluster c hc s = (None, s') \<longrightarrow>
        hc_key hc \<notin> hc_key ` set (hub_hcs (view s))
        \<and> (\<exists>hc'. hc_stored hc hc' \<and> view s' = (view s)\<lparr>hub_hcs := hc' # hub_hcs (view s)\<rparr>))
     \<and> (\<forall>hc s e s'. CreateHostedCluster c hc s = (Some e, s') \<longrightarrow>
        view s' = view s \<and> (IsAlreadyExists e \<longrightarrow> hc_key hc \<in> hc_key ` set (hub_hcs (view s))))
     \<and> (\<forall>np s s'. CreateNodePool c np s = (None, s') \<longrightarrow>
        np_key np \<notin> np_key ` set (hub_nps (view s))
        \<and> (\<exists>np'. np_stored np np' \<and> view s' = (view s)\<lparr>hub_nps := np' # hub_nps (view s)\<rparr>))
     \<and> (\<forall>np s e s'. CreateNodePool c np s = (Some e, s') \<longrightarrow> view s' = view s)"

definition api_deletes :: "('s, 'q) k8s_client \<Rightarrow> ('s \<Rightarrow> 'q hub) \<Rightarrow> bool" where
  "api_deletes c view \<longleftrightarrow>
     (\<forall>hc s s'. DeleteHostedCluster c hc s = (None, s') \<longrightarrow>
        (\<exists>hcs. hc_gone (hc_key hc) (hub_hcs (view s)) hcs \<and> view s' = (view s)\<lparr>hub_hcs := hcs\<rparr>))
     \<and> (\<forall>hc s e s'. DeleteHostedCluster c hc s = (Some e, s') \<longrightarrow> view s' = view s)
     \<and> (\<forall>np s s'. DeleteNodePool c np s = (None, s') \<longrightarrow>
        (\<exists>nps. np_gone (np_key np) (hub_nps (view s)) nps \<and> view s' = (view s)\<lparr>hub_nps := nps\<rparr>))
     \<and> (\<forall>np s e s'. DeleteNodePool c np s = (Some e, s') \<longrightarrow>
        view s' = view s \<and> (IsNotFound e \<longrightarrow> np_key np \<notin> np_key ` set (hub_nps (view s))))"

definition hub_api :: "('s, 'q) k8s_client \<Rightarrow> ('s \<Rightarrow> 'q hub) \<Rightarrow> bool" where
  "hub_api c view \<longleftrightarrow> api_reads c view \<and> api_lists c view \<and> api_creates c view \<and> api_deletes c view"

subsection \<open>The promises, one call at a time\<close>

lemma hub_apiD:
  assumes "hub_api c view"
  shows "api_reads c view" "api_lists c view" "api_creates c view" "api_deletes c view"
  using assms by (simp_all add: hub_api_def)

lemma read_view [hub_laws]:
  assumes "hub_api c view"
  shows "ListHostedClusters c ns sel s = (r1, s') \<Longrightarrow> view s' = view s"
    "ListNodePools c ns sel s = (r2, s') \<Longrightarrow> view s' = view s"
    "ListClusterImageSets c s = (r3, s') \<Longrightarrow> view s' = view s"
    "GetSecret c ns n s = (r4, s') \<Longrightarrow> view s' = view s"
  using hub_apiD(1)[OF assms] unfolding api_reads_def by (metis snd_conv)+

lemma list_hcs:
  "hub_api c view \<Longrightarrow> ListHostedClusters c ns sel s = (Inr xs, s') \<Longrightarrow>
   mset xs = mset (filter (hc_matches ns sel) (hub_hcs (view s)))"
  by (drule hub_apiD(2)) (simp add: api_lists_def)

lemma list_nps:
  "hub_api c view \<Longrightarrow> ListNodePools c ns sel s = (Inr xs, s') \<Longrightarrow>
   mset xs = mset (filter (np_matches ns sel) (hub_nps (view s)))"
  by (drule hub_apiD(2)) (simp add: api_lists_def)

lemma list_images:
  "hub_api c view \<Longrightarrow> ListClusterImageSets c s = (Inr xs, s') \<Longrightarrow> mset xs = mset (hub_images (view s))"
  by (drule hub_apiD(2)) (simp add: api_lists_def)

lemma create_hc_ok:
  assumes "hub_api c view" "CreateHostedCluster c hc s = (None, s')"
  obtains hc' where "hc_key hc \<notin> hc_key ` set (hub_hcs (view s))" "hc_stored hc hc'"
    "view s' = (view s)\<lparr>hub_hcs := hc' # hub_hcs (view s)\<rparr>"
  using hub_apiD(3)[OF assms(1)] assms(2) unfolding api_creates_def by metis

lemma create_hc_error:
  assumes "hub_api c view" "CreateHostedCluster c hc s = (Some e, s')"
  shows "view s' = view s" "IsAlreadyExists e \<Longrightarrow> hc_key hc \<in> hc_key ` set (hub_hcs (view s))"
  using hub_apiD(3)[OF assms(1)] assms(2) unfolding api_creates_def by metis+

lemma create_np_ok:
  assumes "hub_api c view" "CreateNodePool c np s = (None, s')"
  obtains np' where "np_key np \<notin> np_key ` set (hub_nps (view s))" "np_stored np np'"
    "view s' = (view s)\<lparr>hub_nps := np' # hub_nps (view s)\<rparr>"
  using hub_apiD(3)[OF assms(1)] assms(2) unfolding api_creates_def by metis

lemma create_np_error:
  "hub_api c view \<Longrightarrow> CreateNodePool c np s = (Some e, s') \<Longrightarrow> view s' = view s"
  using hub_apiD(3)[of c view] unfolding api_creates_def by metis

lemma delete_hc_ok:
  assumes "hub_api c view" "DeleteHostedCluster c hc s = (None, s')"
  obtains hcs where "hc_gone (hc_key hc) (hub_hcs (view s)) hcs" "view s' = (view s)\<lparr>hub_hcs := hcs\<rparr>"
  using hub_apiD(4)[OF assms(1)] assms(2) unfolding api_deletes_def by metis

lemma delete_hc_error:
  "hub_api c view \<Longrightarrow> DeleteHostedCluster c hc s = (Some e, s') \<Longrightarrow> view s' = view s"
  using hub_apiD(4)[of c view] unfolding api_deletes_def by metis

lemma delete_np_ok:
  assumes "hub_api c view" "DeleteNodePool c np s = (None, s')"
  obtains nps where "np_gone (np_key np) (hub_nps (view s)) nps" "view s' = (view s)\<lparr>hub_nps := nps\<rparr>"
  using hub_apiD(4)[OF assms(1)] assms(2) unfolding api_deletes_def by metis

lemma delete_np_error:
  assumes "hub_api c view" "DeleteNodePool c np s = (Some e, s')"
  shows "view s' = view s" "IsNotFound e \<Longrightarrow> np_key np \<notin> np_key ` set (hub_nps (view s))"
  using hub_apiD(4)[OF assms(1)] assms(2) unfolding api_deletes_def by metis+

lemma hc_stored_fields:
  assumes "hc_stored hc hc'"
  shows "hc_key hc' = hc_key hc" "hc_Labels hc' = hc_Labels hc" "hc_Name hc' = hc_Name hc"
    "hc_Namespace hc' = hc_Namespace hc" "hc_DeletionTimestamp hc' = None"
  using assms by (cases hc; cases hc'; simp add: hc_stored_def hc_desired_def hc_key_def)+

end
