(* ===== verification/Monitor.thy ===== *)
theory Monitor
  imports Hub
begin

text \<open>
  \<open>internal/monitoring/reconcile.go\<close> and \<open>indexer.go\<close>: the tracker that turns informer events on
  HostedClusters and NodePools into status events.  Objects arrive unstructured, so their status
  is a JSON value.  The handlers run under one lock, so a history is a list of events; the
  specification is a tracker of the last status seen of each resource.
\<close>

record unstructured =
  us_Name :: string
  us_Namespace :: string
  us_Labels :: "str_map option"
  us_DeletionTimestamp :: "time option"
  us_Object :: "(string \<times> json) list"

text \<open>What an informer hands to a delete handler.\<close>

datatype any_object =
    Unstructured unstructured
  | DeletedFinalStateUnknown any_object
  | OtherObject

datatype resourceType = resourceTypeHostedCluster | resourceTypeNodePool

text \<open>The empty string of a Go status is \<open>None\<close>.\<close>

record instanceState =
  is_hcStatus :: "ClusterStatus option"
  is_npStatus :: "ClusterStatus option"
  is_hcMsg :: string
  is_npMsg :: string
  is_lastPublished :: "ClusterStatus option"
  is_seenHC :: string
  is_seenNP :: string

type_synonym reconcileState = "string \<rightharpoonup> instanceState"

record StatusEvent =
  ev_InstanceID :: string
  ev_Status :: ClusterStatus
  ev_Message :: string

definition new_instance :: instanceState where
  "new_instance = \<lparr>is_hcStatus = None, is_npStatus = None, is_hcMsg = [], is_npMsg = [],
     is_lastPublished = None, is_seenHC = [], is_seenNP = []\<rparr>"

definition getOrCreate :: "reconcileState \<Rightarrow> string \<Rightarrow> instanceState" where
  "getOrCreate st instanceID = (case st instanceID of Some inst \<Rightarrow> inst | None \<Rightarrow> new_instance)"

definition extractInstanceID :: "unstructured \<Rightarrow> string" where
  "extractInstanceID obj =
     (case us_Labels obj of None \<Rightarrow> [] | Some labels \<Rightarrow> map_get labels LabelInstanceID)"

text \<open>The index function of the informers: \<open>None\<close> is Go's nil slice.\<close>

definition InstanceIDIndexFunc :: "any_object \<Rightarrow> string list option" where
  "InstanceIDIndexFunc obj =
     (case obj of
        Unstructured uns \<Rightarrow>
          let i = extractInstanceID uns in if i = [] then Some [] else Some [i]
      | _ \<Rightarrow> None)"

definition string_field :: "(string \<times> json) list \<Rightarrow> string \<Rightarrow> string" where
  "string_field m k = (case map_of m k of Some (JString t) \<Rightarrow> t | _ \<Rightarrow> [])"

fun conditions_of :: "json list \<Rightarrow> condition list" where
  "conditions_of [] = []"
| "conditions_of (JObject m # items) =
     \<lparr>co_Type = string_field m ''type'', co_Status = string_field m ''status'',
      co_Message = string_field m ''message'', co_LastTransitionTime = 0\<rparr> # conditions_of items"
| "conditions_of (_ # items) = conditions_of items"

definition extractConditions :: "unstructured \<Rightarrow> condition list" where
  "extractConditions obj =
     (case map_of (us_Object obj) ''status'' of
        Some (JObject statusObj) \<Rightarrow>
          (case map_of statusObj ''conditions'' of
             Some (JArray condSlice) \<Rightarrow> conditions_of condSlice
           | _ \<Rightarrow> [])
      | _ \<Rightarrow> [])"

text \<open>The message of the first condition of a type, empty when there is none.\<close>

fun first_message :: "condition list \<Rightarrow> (string \<Rightarrow> bool) \<Rightarrow> string option" where
  "first_message [] p = None"
| "first_message (c # cs) p = (if p (co_Type c) then Some (co_Message c) else first_message cs p)"

definition extractHostedClusterMessage :: "condition list \<Rightarrow> ClusterStatus \<Rightarrow> string" where
  "extractHostedClusterMessage conditions dcmStatus =
     (case dcmStatus of
        FAILED \<Rightarrow>
          (case first_message conditions (\<lambda>t. t = ''Degraded'') of Some m \<Rightarrow> m | None \<Rightarrow> [])
      | UNAVAILABLE \<Rightarrow>
          (case first_message conditions (\<lambda>t. t = ''Available'') of Some m \<Rightarrow> m | None \<Rightarrow> [])
      | _ \<Rightarrow> [])"

definition extractNodePoolMessage :: "condition list \<Rightarrow> ClusterStatus \<Rightarrow> string" where
  "extractNodePoolMessage conditions dcmStatus =
     (case dcmStatus of
        UNAVAILABLE \<Rightarrow>
          (case first_message conditions (\<lambda>t. t = ''Ready'') of
             Some m \<Rightarrow> ''NodePool: '' @ m | None \<Rightarrow> [])
      | PROVISIONING \<Rightarrow>
          (case first_message conditions (\<lambda>t. t = ''UpdatingVersion'' \<or> t = ''UpdatingConfig'') of
             Some m \<Rightarrow> ''NodePool: '' @ m | None \<Rightarrow> [])
      | _ \<Rightarrow> [])"

definition compositeMessage :: "instanceState \<Rightarrow> string" where
  "compositeMessage inst =
     (if is_npStatus inst \<noteq> None
         \<and> StatusPriority_of (is_npStatus inst) > StatusPriority_of (is_hcStatus inst)
      then is_npMsg inst else is_hcMsg inst)"

text \<open>The end of \<open>reconcileResource\<close>, once the HostedCluster has been seen with \<open>hcStatus\<close>.\<close>

definition publish_composite ::
  "string \<Rightarrow> ClusterStatus \<Rightarrow> instanceState \<Rightarrow> (string \<times> StatusEvent option) \<times> instanceState" where
  "publish_composite instanceID hcStatus inst =
     (let composite = ComputeCompositeStatus hcStatus (is_npStatus inst) in
      if is_lastPublished inst = Some composite then (([], None), inst)
      else
        let inst = inst\<lparr>is_lastPublished := Some composite\<rparr> in
        ((instanceID, Some \<lparr>ev_InstanceID = instanceID, ev_Status = composite,
            ev_Message = compositeMessage inst\<rparr>), inst))"

text \<open>Duplicate detection only warns, and keeps the first name.\<close>

definition mark_seen :: "string \<Rightarrow> string \<Rightarrow> string" where
  "mark_seen seenName name = (if seenName = [] then name else seenName)"

text \<open>
  The two arms of \<open>reconcileResource\<close> on the state of the instance, which the code mutates through
  a pointer.
\<close>

definition reconcile_hc ::
  "unstructured \<Rightarrow> string \<Rightarrow> instanceState \<Rightarrow> (string \<times> StatusEvent option) \<times> instanceState" where
  "reconcile_hc obj instanceID inst =
     (let conditions = extractConditions obj;
          inst = inst\<lparr>is_seenHC := mark_seen (is_seenHC inst) (us_Name obj)\<rparr>;
          hcStatus = MapConditionsToStatus conditions (us_DeletionTimestamp obj)
      in if is_hcStatus inst = Some hcStatus then (([], None), inst)
         else publish_composite instanceID hcStatus
           (inst\<lparr>is_hcMsg := extractHostedClusterMessage conditions hcStatus, is_hcStatus := Some hcStatus\<rparr>))"

definition reconcile_np ::
  "unstructured \<Rightarrow> string \<Rightarrow> instanceState \<Rightarrow> (string \<times> StatusEvent option) \<times> instanceState" where
  "reconcile_np obj instanceID inst =
     (let conditions = extractConditions obj;
          inst = inst\<lparr>is_seenNP := mark_seen (is_seenNP inst) (us_Name obj)\<rparr>
      in case MapNodePoolConditionsToStatus conditions of
           None \<Rightarrow> (([], None), inst)
         | Some npStatus \<Rightarrow>
             let inst = inst\<lparr>is_npMsg := extractNodePoolMessage conditions npStatus\<rparr> in
             if is_npStatus inst = Some npStatus then (([], None), inst)
             else
               let inst = inst\<lparr>is_npStatus := Some npStatus\<rparr> in
               (case is_hcStatus inst of
                  None \<Rightarrow> (([], None), inst)
                | Some hcStatus \<Rightarrow> publish_composite instanceID hcStatus inst))"

definition reconcileResource ::
  "unstructured \<Rightarrow> resourceType \<Rightarrow> reconcileState \<Rightarrow> (string \<times> StatusEvent option) \<times> reconcileState" where
  "reconcileResource obj resType st =
     (let instanceID = extractInstanceID obj in
      if instanceID = [] then (([], None), st)
      else
        let inst = getOrCreate st instanceID;
            (out, inst') = (case resType of
                resourceTypeHostedCluster \<Rightarrow> reconcile_hc obj instanceID inst
              | resourceTypeNodePool \<Rightarrow> reconcile_np obj instanceID inst)
        in (out, st(instanceID \<mapsto> inst')))"

text \<open>What is left of a delete notification: the object, unwrapped once.\<close>

definition deleted_object :: "any_object \<Rightarrow> unstructured option" where
  "deleted_object obj =
     (case (case obj of DeletedFinalStateUnknown d \<Rightarrow> d | _ \<Rightarrow> obj) of
        Unstructured uns \<Rightarrow> Some uns
      | _ \<Rightarrow> None)"

definition handleDeleteHostedCluster ::
  "any_object \<Rightarrow> reconcileState \<Rightarrow> (string \<times> StatusEvent option) \<times> reconcileState" where
  "handleDeleteHostedCluster obj st =
     (case deleted_object obj of
        None \<Rightarrow> (([], None), st)
      | Some uns \<Rightarrow>
          let i = extractInstanceID uns in
          if i = [] then (([], None), st)
          else ((i, Some \<lparr>ev_InstanceID = i, ev_Status = DELETED, ev_Message = []\<rparr>), st(i := None)))"

text \<open>The state of an instance whose NodePool went, with \<open>composite\<close> the status of its HostedCluster.\<close>

definition drop_node_pool ::
  "string \<Rightarrow> ClusterStatus \<Rightarrow> instanceState \<Rightarrow> (string \<times> StatusEvent option) \<times> instanceState" where
  "drop_node_pool i composite inst =
     (let inst = inst\<lparr>is_npStatus := None, is_npMsg := [], is_seenNP := []\<rparr> in
      if is_lastPublished inst = Some composite then (([], None), inst)
      else
        ((i, Some \<lparr>ev_InstanceID = i, ev_Status = composite, ev_Message = is_hcMsg inst\<rparr>),
         inst\<lparr>is_lastPublished := Some composite\<rparr>))"

definition handleDeleteNodePool ::
  "any_object \<Rightarrow> reconcileState \<Rightarrow> (string \<times> StatusEvent option) \<times> reconcileState" where
  "handleDeleteNodePool obj st =
     (case deleted_object obj of
        None \<Rightarrow> (([], None), st)
      | Some uns \<Rightarrow>
          let i = extractInstanceID uns in
          if i = [] then (([], None), st)
          else case st i of
            None \<Rightarrow> (([], None), st)
          | Some inst \<Rightarrow>
              (case is_hcStatus inst of
                 None \<Rightarrow> (([], None), st)
               | Some composite \<Rightarrow>
                   let (out, inst') = drop_node_pool i composite inst in (out, st(i \<mapsto> inst'))))"

subsection \<open>Histories\<close>

datatype informer_event =
    HCSeen unstructured
  | NPSeen unstructured
  | HCDeleted any_object
  | NPDeleted any_object

definition handle_event :: "informer_event \<Rightarrow> reconcileState \<Rightarrow> (string \<times> StatusEvent option) \<times> reconcileState" where
  "handle_event ev st =
     (case ev of
        HCSeen obj \<Rightarrow> reconcileResource obj resourceTypeHostedCluster st
      | NPSeen obj \<Rightarrow> reconcileResource obj resourceTypeNodePool st
      | HCDeleted obj \<Rightarrow> handleDeleteHostedCluster obj st
      | NPDeleted obj \<Rightarrow> handleDeleteNodePool obj st)"

text \<open>The instance an event is about, empty for none.\<close>

definition event_instance :: "informer_event \<Rightarrow> string" where
  "event_instance ev =
     (let of_deleted = (\<lambda>d. case deleted_object d of Some uns \<Rightarrow> extractInstanceID uns | None \<Rightarrow> []) in
      case ev of
        HCSeen obj \<Rightarrow> extractInstanceID obj
      | NPSeen obj \<Rightarrow> extractInstanceID obj
      | HCDeleted d \<Rightarrow> of_deleted d
      | NPDeleted d \<Rightarrow> of_deleted d)"

subsection \<open>Specification\<close>

text \<open>
  The tracker: the last status of the HostedCluster and of the NodePool of one instance.  A
  NodePool without conditions says nothing, and the deletion of a NodePool is noted only once the
  HostedCluster has been seen.  What the outside world should know is the worst of the two.
\<close>

type_synonym tracked = "ClusterStatus option \<times> ClusterStatus option"

definition track :: "informer_event \<Rightarrow> tracked \<Rightarrow> tracked" where
  "track ev t =
     (case ev of
        HCSeen obj \<Rightarrow> (Some (MapConditionsToStatus (extractConditions obj) (us_DeletionTimestamp obj)), snd t)
      | NPSeen obj \<Rightarrow>
          (fst t, case MapNodePoolConditionsToStatus (extractConditions obj) of Some n \<Rightarrow> Some n | None \<Rightarrow> snd t)
      | HCDeleted d \<Rightarrow> (None, None)
      | NPDeleted d \<Rightarrow> (fst t, if fst t = None then snd t else None))"

definition public_status :: "tracked \<Rightarrow> ClusterStatus option" where
  "public_status t = map_option (\<lambda>hc. ComputeCompositeStatus hc (snd t)) (fst t)"

definition abs_instance :: "reconcileState \<Rightarrow> string \<Rightarrow> tracked" where
  "abs_instance st i = (is_hcStatus (getOrCreate st i), is_npStatus (getOrCreate st i))"

text \<open>The invariant: what was published last is what the tracked statuses amount to.\<close>

definition coherent :: "reconcileState \<Rightarrow> bool" where
  "coherent st \<longleftrightarrow>
     (\<forall>i. is_lastPublished (getOrCreate st i) = public_status (abs_instance st i))"

lemma getOrCreate_upd [simp]: "getOrCreate (st(i \<mapsto> x)) j = (if j = i then x else getOrCreate st j)"
  by (simp add: getOrCreate_def)

lemma getOrCreate_del [simp]: "getOrCreate (st(i := None)) j = (if j = i then new_instance else getOrCreate st j)"
  by (simp add: getOrCreate_def)

lemma new_instance_fields [simp]:
  "is_hcStatus new_instance = None" "is_npStatus new_instance = None" "is_lastPublished new_instance = None"
  "is_npMsg new_instance = []"
  by (simp_all add: new_instance_def)

lemma coherent_initial: "coherent Map.empty"
  by (simp add: coherent_def abs_instance_def public_status_def getOrCreate_def)

lemma other_instances:
  "j \<noteq> event_instance ev \<Longrightarrow> handle_event ev st = (out, st') \<Longrightarrow> st' j = st j"
  by (cases ev)
    (auto simp: handle_event_def event_instance_def reconcileResource_def handleDeleteHostedCluster_def
      handleDeleteNodePool_def Let_def split: option.splits if_splits prod.splits)

lemma no_instance_ignored: "event_instance ev = [] \<Longrightarrow> handle_event ev st = (([], None), st)"
  by (cases ev)
    (auto simp: handle_event_def event_instance_def reconcileResource_def handleDeleteHostedCluster_def
      handleDeleteNodePool_def Let_def split: option.splits)

lemma publish_composite_cases:
  "publish_composite i hc inst =
     (if is_lastPublished inst = Some (ComputeCompositeStatus hc (is_npStatus inst)) then ([], None)
      else (i, Some \<lparr>ev_InstanceID = i, ev_Status = ComputeCompositeStatus hc (is_npStatus inst),
                     ev_Message = compositeMessage inst\<rparr>),
      inst\<lparr>is_lastPublished := Some (ComputeCompositeStatus hc (is_npStatus inst))\<rparr>)"
  by (cases inst) (simp add: publish_composite_def Let_def compositeMessage_def)

text \<open>The published outcome of a step: an event exactly when the public status changes.\<close>

definition announces :: "string \<Rightarrow> ClusterStatus option \<Rightarrow> ClusterStatus option \<Rightarrow> string \<times> StatusEvent option \<Rightarrow> bool" where
  "announces i before after out \<longleftrightarrow>
     (if after = None \<or> after = before then out = ([], None)
      else \<exists>e. out = (i, Some e) \<and> ev_InstanceID e = i \<and> after = Some (ev_Status e))"

lemma publish_announces:
  assumes "publish_composite i hc inst = (out, inst')" "is_lastPublished inst = before"
  shows "announces i before (Some (ComputeCompositeStatus hc (is_npStatus inst))) out"
    "is_lastPublished inst' = Some (ComputeCompositeStatus hc (is_npStatus inst))"
    "is_hcStatus inst' = is_hcStatus inst" "is_npStatus inst' = is_npStatus inst"
  using assms unfolding publish_composite_cases announces_def by (auto split: if_splits)

lemma announces_same: "announces i p p ([], None)"
  by (simp add: announces_def)

definition tracked_of :: "instanceState \<Rightarrow> tracked" where
  "tracked_of inst = (is_hcStatus inst, is_npStatus inst)"

definition refines_step :: "informer_event \<Rightarrow> string \<Rightarrow> instanceState \<Rightarrow> string \<times> StatusEvent option \<Rightarrow> instanceState \<Rightarrow> bool" where
  "refines_step ev i inst out inst' \<longleftrightarrow>
     tracked_of inst' = track ev (tracked_of inst)
     \<and> is_lastPublished inst' = public_status (tracked_of inst')
     \<and> announces i (public_status (tracked_of inst)) (public_status (tracked_of inst')) out"

lemmas refines_defs = refines_step_def tracked_of_def track_def public_status_def announces_same

lemma hc_seen_refines:
  assumes "reconcile_hc obj i inst = (out, inst')" "is_lastPublished inst = public_status (tracked_of inst)"
  shows "refines_step (HCSeen obj) i inst out inst'"
proof (cases "is_hcStatus inst = Some (MapConditionsToStatus (extractConditions obj) (us_DeletionTimestamp obj))")
  case True
  then show ?thesis using assms by (auto simp: reconcile_hc_def refines_defs)
next
  case False
  then have "publish_composite i (MapConditionsToStatus (extractConditions obj) (us_DeletionTimestamp obj))
      (inst\<lparr>is_seenHC := mark_seen (is_seenHC inst) (us_Name obj),
            is_hcMsg := extractHostedClusterMessage (extractConditions obj)
              (MapConditionsToStatus (extractConditions obj) (us_DeletionTimestamp obj)),
            is_hcStatus := Some (MapConditionsToStatus (extractConditions obj) (us_DeletionTimestamp obj))\<rparr>)
      = (out, inst')"
    using assms(1) by (simp add: reconcile_hc_def Let_def)
  from publish_announces[OF this refl] assms(2) show ?thesis by (simp add: refines_defs)
qed

lemma np_seen_refines:
  assumes "reconcile_np obj i inst = (out, inst')" "is_lastPublished inst = public_status (tracked_of inst)"
  shows "refines_step (NPSeen obj) i inst out inst'"
proof (cases "MapNodePoolConditionsToStatus (extractConditions obj)")
  case None
  then show ?thesis using assms by (auto simp: reconcile_np_def refines_defs)
next
  case (Some n)
  show ?thesis
  proof (cases "is_npStatus inst = Some n \<or> is_hcStatus inst = None")
    case True
    then show ?thesis using assms Some by (auto simp: reconcile_np_def refines_defs Let_def split: if_splits)
  next
    case False
    then obtain h where h: "is_hcStatus inst = Some h" by blast
    then have "publish_composite i h
        (inst\<lparr>is_seenNP := mark_seen (is_seenNP inst) (us_Name obj),
              is_npMsg := extractNodePoolMessage (extractConditions obj) n, is_npStatus := Some n\<rparr>)
        = (out, inst')"
      using assms(1) Some False by (simp add: reconcile_np_def Let_def)
    from publish_announces[OF this refl] assms(2) h Some show ?thesis by (simp add: refines_defs)
  qed
qed

lemma np_deleted_refines:
  assumes "drop_node_pool i h inst = (out, inst')" "is_hcStatus inst = Some h"
    and "is_lastPublished inst = public_status (tracked_of inst)"
  shows "refines_step (NPDeleted d) i inst out inst'"
  using assms
  by (auto simp: drop_node_pool_def refines_defs announces_def ComputeCompositeStatus_def Let_def split: if_splits)

lemma abs_instance_tracked: "abs_instance st i = tracked_of (getOrCreate st i)"
  by (simp add: abs_instance_def tracked_of_def)

lemma getOrCreate_None: "st i = None \<Longrightarrow> getOrCreate st i = new_instance"
  by (simp add: getOrCreate_def)

lemma public_status_new: "public_status (tracked_of new_instance) = None" "is_lastPublished new_instance = None"
  by (simp_all add: public_status_def tracked_of_def)

text \<open>One step of any history, on the instance it is about.\<close>

lemma step_refines:
  assumes "handle_event ev st = (out, st')" "i = event_instance ev" "i \<noteq> []"
    and "is_lastPublished (getOrCreate st i) = public_status (abs_instance st i)"
  shows "case ev of
      HCDeleted d \<Rightarrow> st' i = None \<and> out = (i, Some \<lparr>ev_InstanceID = i, ev_Status = DELETED, ev_Message = []\<rparr>)
    | _ \<Rightarrow> refines_step ev i (getOrCreate st i) out (getOrCreate st' i)"
proof (cases ev)
  case (HCSeen obj)
  then show ?thesis
    using assms hc_seen_refines[of obj i "getOrCreate st i"]
    by (auto simp: handle_event_def reconcileResource_def event_instance_def abs_instance_def tracked_of_def
        Let_def split: prod.splits)
next
  case (NPSeen obj)
  then show ?thesis
    using assms np_seen_refines[of obj i "getOrCreate st i"]
    by (auto simp: handle_event_def reconcileResource_def event_instance_def abs_instance_def tracked_of_def
        Let_def split: prod.splits)
next
  case (HCDeleted d)
  then show ?thesis
    using assms(1-3)
    by (auto simp: handle_event_def handleDeleteHostedCluster_def event_instance_def Let_def
        split: option.splits)
next
  case (NPDeleted d)
  then obtain uns where uns: "deleted_object d = Some uns" "i = extractInstanceID uns"
    using assms(2,3) by (auto simp: event_instance_def Let_def split: option.splits)
  show ?thesis
  proof (cases "is_hcStatus (getOrCreate st i)")
    case None
    then have "out = ([], None)" "st' = st"
      using assms(1,3) NPDeleted uns
      by (auto simp: handle_event_def handleDeleteNodePool_def getOrCreate_def split: option.splits)
    then show ?thesis using NPDeleted None assms(4) by (simp add: refines_defs abs_instance_def)
  next
    case (Some h)
    then obtain inst where inst: "st i = Some inst" "getOrCreate st i = inst"
      by (cases "st i") (auto simp: getOrCreate_def)
    obtain o2 x where drop: "drop_node_pool i h inst = (o2, x)" by fastforce
    have "out = o2" "getOrCreate st' i = x"
      using assms(1,3) NPDeleted uns inst Some drop
      by (auto simp: handle_event_def handleDeleteNodePool_def)
    then show ?thesis
      using np_deleted_refines[OF drop, of d] NPDeleted inst Some assms(4)
      by (simp add: abs_instance_def tracked_of_def)
  qed
qed

lemma coherent_step:
  assumes "coherent st" "handle_event ev st = (out, st')"
  shows "coherent st'"
  unfolding coherent_def
proof
  fix j
  show "is_lastPublished (getOrCreate st' j) = public_status (abs_instance st' j)"
  proof (cases "j = event_instance ev \<and> event_instance ev \<noteq> []")
    case False
    then have "st' j = st j"
      using other_instances[OF _ assms(2), of j] no_instance_ignored[of ev st] assms(2) by auto
    then show ?thesis using assms(1) by (simp add: coherent_def abs_instance_def getOrCreate_def)
  next
    case True
    have base: "is_lastPublished (getOrCreate st j) = public_status (abs_instance st j)"
      using assms(1) by (simp add: coherent_def)
    show ?thesis
      using step_refines[OF assms(2), of j] True base coherent_initial
      by (cases ev) (simp_all add: refines_step_def abs_instance_tracked getOrCreate_None public_status_new)
  qed
qed

lemma coherent_run: "coherent st \<Longrightarrow> coherent (fold (\<lambda>ev st. snd (handle_event ev st)) evs st)"
  by (induction evs arbitrary: st) (auto intro: coherent_step surjective_pairing)

text \<open>
  C9: the monitor implements the tracker.  After any history of informer events, the next event
  moves the tracked statuses of its instance as the specification says and touches no other
  instance; a status event goes out exactly when the worst-of status of the instance changes and
  states that status, so nothing is published twice in a row, and the deletion of a HostedCluster
  is announced as \<open>DELETED\<close> and forgets the instance.
\<close>

theorem monitor_refines_tracker:
  assumes "st = fold (\<lambda>ev st. snd (handle_event ev st)) history Map.empty"
    and "handle_event ev st = (out, st')" "i = event_instance ev" "i \<noteq> []"
  shows "abs_instance st' i = track ev (abs_instance st i)
    \<and> (\<forall>j. j \<noteq> i \<longrightarrow> st' j = st j)
    \<and> (case ev of
         HCDeleted d \<Rightarrow> out = (i, Some \<lparr>ev_InstanceID = i, ev_Status = DELETED, ev_Message = []\<rparr>)
       | _ \<Rightarrow> announces i (public_status (abs_instance st i)) (public_status (abs_instance st' i)) out)"
proof (intro conjI)
  have "coherent st" unfolding assms(1) by (rule coherent_run[OF coherent_initial])
  then have base: "is_lastPublished (getOrCreate st i) = public_status (abs_instance st i)"
    by (simp add: coherent_def)
  note step = step_refines[OF assms(2-4) base]
  show "\<forall>j. j \<noteq> i \<longrightarrow> st' j = st j" using other_instances[OF _ assms(2)] assms(3) by simp
  show "abs_instance st' i = track ev (abs_instance st i)"
    using step
    by (cases ev) (simp_all add: refines_step_def abs_instance_tracked getOrCreate_None tracked_of_def track_def)
  show "case ev of
         HCDeleted d \<Rightarrow> out = (i, Some \<lparr>ev_InstanceID = i, ev_Status = DELETED, ev_Message = []\<rparr>)
       | _ \<Rightarrow> announces i (public_status (abs_instance st i)) (public_status (abs_instance st' i)) out"
    using step unfolding refines_step_def abs_instance_tracked by (cases ev) auto
qed

definition seen_object :: "string \<Rightarrow> (string \<times> string) list \<Rightarrow> unstructured" where
  "seen_object i conds = \<lparr>us_Name = ''demo'', us_Namespace = ''clusters'', us_Labels = Some (DCMLabels i),
     us_DeletionTimestamp = None,
     us_Object = [(''status'', JObject [(''conditions'', JArray
       (map (\<lambda>(t, v). JObject [(''type'', JString t), (''status'', JString v), (''message'', JString ''m'')]) conds))])]\<rparr>"

lemma seen_object_facts:
  "extractInstanceID (seen_object i conds) = i" "us_DeletionTimestamp (seen_object i conds) = None"
  "extractConditions (seen_object i conds) = map (\<lambda>(t, v).
     \<lparr>co_Type = t, co_Status = v, co_Message = ''m'', co_LastTransitionTime = 0\<rparr>) conds"
  by (simp_all add: seen_object_def extractInstanceID_def map_get_def extractConditions_def)
    (induction conds, auto simp: string_field_def)

theorem monitor_refines_tracker_witness:
  "snd (fst (handle_event (HCSeen (seen_object ''id-1'' [(''Available'', ''True'')])) Map.empty)) \<noteq> None"
proof -
  let ?ev = "HCSeen (seen_object ''id-1'' [(''Available'', ''True'')])"
  have "event_instance ?ev = ''id-1''" by (simp add: event_instance_def seen_object_facts)
  moreover have "public_status (track ?ev (None, None)) = Some READY"
    by (simp add: track_def seen_object_facts public_status_def ComputeCompositeStatus_def
        MapConditionsToStatus_def ConditionTrue_def)
  moreover have "abs_instance Map.empty ''id-1'' = (None, None)" "public_status (None, None) = None"
    by (simp_all add: abs_instance_def getOrCreate_def public_status_def)
  ultimately have "announces ''id-1'' None (Some READY) (fst (handle_event ?ev Map.empty))"
    using monitor_refines_tracker[of Map.empty "[]" ?ev, OF _ surjective_pairing refl] by auto
  then show ?thesis by (auto simp: announces_def)
qed

subsection \<open>Messages\<close>

text \<open>
  What a message should come from: for each resource of an instance its status with the conditions it
  was read from.  Those of a HostedCluster are the conditions that changed its status, those of a
  NodePool the last ones seen.
\<close>

type_synonym cause = "(ClusterStatus \<times> condition list) option"

definition track_causes :: "informer_event \<Rightarrow> cause \<times> cause \<Rightarrow> cause \<times> cause" where
  "track_causes ev t =
     (case ev of
        HCSeen obj \<Rightarrow>
          (let cs = extractConditions obj; h = MapConditionsToStatus cs (us_DeletionTimestamp obj)
           in (if map_option fst (fst t) = Some h then fst t else Some (h, cs), snd t))
      | NPSeen obj \<Rightarrow>
          (let cs = extractConditions obj
           in (fst t, case MapNodePoolConditionsToStatus cs of Some n \<Rightarrow> Some (n, cs) | None \<Rightarrow> snd t))
      | HCDeleted d \<Rightarrow> (None, None)
      | NPDeleted d \<Rightarrow> (fst t, if fst t = None then snd t else None))"

definition causes_of :: "string \<Rightarrow> informer_event list \<Rightarrow> cause \<times> cause" where
  "causes_of i history = fold track_causes (filter (\<lambda>ev. event_instance ev = i) history) (None, None)"

text \<open>The first condition of one of the types, and the message each resource accounts for.\<close>

definition first_condition :: "condition list \<Rightarrow> string list \<Rightarrow> condition option" where
  "first_condition cs ts = find (\<lambda>c. co_Type c \<in> set ts) cs"

definition hosted_cluster_message :: "ClusterStatus \<Rightarrow> condition list \<Rightarrow> string \<Rightarrow> bool" where
  "hosted_cluster_message h cs msg \<longleftrightarrow>
     (case h of
        FAILED \<Rightarrow> \<exists>c. first_condition cs [''Degraded''] = Some c \<and> co_Status c = ConditionTrue \<and> msg = co_Message c
      | UNAVAILABLE \<Rightarrow> \<exists>c. first_condition cs [''Available''] = Some c \<and> co_Status c = ConditionFalse \<and> msg = co_Message c
      | _ \<Rightarrow> msg = [])"

definition node_pool_message :: "ClusterStatus \<Rightarrow> condition list \<Rightarrow> string \<Rightarrow> bool" where
  "node_pool_message n cs msg \<longleftrightarrow>
     (case n of
        UNAVAILABLE \<Rightarrow> \<exists>c. first_condition cs [''Ready''] = Some c \<and> co_Status c = ConditionFalse
          \<and> msg = ''NodePool: '' @ co_Message c
      | PROVISIONING \<Rightarrow> \<exists>c. first_condition cs [''UpdatingVersion'', ''UpdatingConfig''] = Some c
          \<and> msg = ''NodePool: '' @ co_Message c
      | _ \<Rightarrow> msg = [])"

definition message_fits :: "cause \<times> cause \<Rightarrow> StatusEvent \<Rightarrow> bool" where
  "message_fits t e \<longleftrightarrow>
     (case t of
        (Some (h, cs), Some (n, ns)) \<Rightarrow>
          if h < n then ev_Status e = n \<and> node_pool_message n ns (ev_Message e)
          else ev_Status e = h \<and> hosted_cluster_message h cs (ev_Message e)
      | (Some (h, cs), None) \<Rightarrow> ev_Status e = h \<and> hosted_cluster_message h cs (ev_Message e)
      | _ \<Rightarrow> False)"

lemma first_message_condition: "first_message cs p = map_option co_Message (find (\<lambda>c. p (co_Type c)) cs)"
  by (induction cs) auto

lemma condition_value_exists: "condition_value cs t = Some v \<Longrightarrow> \<exists>c \<in> set cs. co_Type c = t"
  by (auto simp: condition_value_def dest: find_map_Some)

lemma find_typed: "condition_value cs t = Some v \<Longrightarrow> \<exists>c. find (\<lambda>c. co_Type c = t) cs = Some c \<and> co_Status c = v"
  by (auto simp: condition_value_def)

lemma extracted_hc_message:
  "hosted_cluster_message (MapConditionsToStatus cs del) cs (extractHostedClusterMessage cs (MapConditionsToStatus cs del))"
  using find_typed[of cs "''Degraded''" ConditionTrue] find_typed[of cs "''Available''" ConditionFalse]
  by (auto simp: hosted_cluster_message_def extractHostedClusterMessage_def first_message_condition first_condition_def
      MapConditionsToStatus_def condition_values)

lemma extracted_np_message:
  assumes "MapNodePoolConditionsToStatus cs = Some n"
  shows "node_pool_message n cs (extractNodePoolMessage cs n)"
proof -
  have "find (\<lambda>c. co_Type c = ''UpdatingVersion'' \<or> co_Type c = ''UpdatingConfig'') cs \<noteq> None"
    if "conditionIsTrue cs ''UpdatingVersion'' \<or> conditionIsTrue cs ''UpdatingConfig''"
    using that condition_value_exists[of cs] by (auto simp: condition_values find_None_iff)
  then show ?thesis
    using assms find_typed[of cs "''Ready''" ConditionFalse]
    by (auto simp: node_pool_message_def extractNodePoolMessage_def first_message_condition first_condition_def
        MapNodePoolConditionsToStatus_def condition_values split: if_splits)
qed

text \<open>The state kept for an instance holds the messages of its causes.\<close>

definition kept_messages :: "cause \<times> cause \<Rightarrow> instanceState \<Rightarrow> bool" where
  "kept_messages t inst \<longleftrightarrow>
     is_hcStatus inst = map_option fst (fst t) \<and> is_npStatus inst = map_option fst (snd t)
     \<and> (\<forall>h cs. fst t = Some (h, cs) \<longrightarrow> hosted_cluster_message h cs (is_hcMsg inst))
     \<and> (\<forall>n cs. snd t = Some (n, cs) \<longrightarrow> node_pool_message n cs (is_npMsg inst))"

definition speaks_for :: "instanceState \<Rightarrow> string \<times> StatusEvent option \<Rightarrow> bool" where
  "speaks_for inst out \<longleftrightarrow>
     (\<forall>e. snd out = Some e \<longrightarrow> (\<exists>h. is_hcStatus inst = Some h
        \<and> ev_Status e = ComputeCompositeStatus h (is_npStatus inst) \<and> ev_Message e = compositeMessage inst))"

lemma spoken_fits:
  assumes "kept_messages t inst" "speaks_for inst out" "snd out = Some e"
  shows "message_fits t e"
  using assms
  by (auto simp: message_fits_def kept_messages_def speaks_for_def compositeMessage_def ComputeCompositeStatus_def
      StatusPriority_of_def less_ClusterStatus_def not_less split: option.splits prod.splits)

lemma kept_messages_upd [simp]:
  "kept_messages t (inst\<lparr>is_lastPublished := x\<rparr>) = kept_messages t inst"
  "kept_messages t (inst\<lparr>is_seenHC := y\<rparr>) = kept_messages t inst"
  "kept_messages t (inst\<lparr>is_seenNP := y\<rparr>) = kept_messages t inst"
  by (simp_all add: kept_messages_def)

lemma speaks_not [simp]: "speaks_for inst (i, None)"
  by (simp add: speaks_for_def)

lemma publish_speaks:
  assumes "publish_composite i h inst = (out, inst')" "kept_messages t inst" "is_hcStatus inst = Some h"
  shows "kept_messages t inst' \<and> speaks_for inst' out"
proof -
  have inst': "inst' = inst\<lparr>is_lastPublished := Some (ComputeCompositeStatus h (is_npStatus inst))\<rparr>"
    and "out = ([], None) \<or> out = (i, Some \<lparr>ev_InstanceID = i,
      ev_Status = ComputeCompositeStatus h (is_npStatus inst), ev_Message = compositeMessage inst\<rparr>)"
    using assms(1) unfolding publish_composite_cases by (auto split: if_splits)
  then show ?thesis
    using assms(2,3) by (elim disjE) (simp_all add: speaks_for_def compositeMessage_def)
qed

lemma hc_seen_messages:
  assumes "reconcile_hc obj i inst = (out, inst')" "kept_messages t inst"
  shows "kept_messages (track_causes (HCSeen obj) t) inst' \<and> speaks_for inst' out"
proof (cases "is_hcStatus inst = Some (MapConditionsToStatus (extractConditions obj) (us_DeletionTimestamp obj))")
  case True
  then have "out = ([], None)" "inst' = inst\<lparr>is_seenHC := mark_seen (is_seenHC inst) (us_Name obj)\<rparr>"
    using assms(1) by (simp_all add: reconcile_hc_def Let_def)
  moreover have "map_option fst (fst t) = Some (MapConditionsToStatus (extractConditions obj) (us_DeletionTimestamp obj))"
    using True assms(2) unfolding kept_messages_def by (metis (no_types))
  then have "track_causes (HCSeen obj) t = t" unfolding track_causes_def Let_def by simp
  ultimately show ?thesis using assms(2) by simp
next
  case False
  let ?cs = "extractConditions obj" and ?seen = "mark_seen (is_seenHC inst) (us_Name obj)"
  let ?h = "MapConditionsToStatus ?cs (us_DeletionTimestamp obj)"
  let ?g = "inst\<lparr>is_seenHC := ?seen, is_hcMsg := extractHostedClusterMessage ?cs ?h, is_hcStatus := Some ?h\<rparr>"
  have run: "publish_composite i ?h ?g = (out, inst')" using assms(1) False by (simp add: reconcile_hc_def Let_def)
  have "kept_messages (track_causes (HCSeen obj) t) ?g"
    using assms(2) False extracted_hc_message by (simp add: track_causes_def kept_messages_def Let_def)
  then show ?thesis using publish_speaks[OF run] by simp
qed

lemma np_seen_messages:
  assumes "reconcile_np obj i inst = (out, inst')" "kept_messages t inst"
  shows "kept_messages (track_causes (NPSeen obj) t) inst' \<and> speaks_for inst' out"
proof (cases "MapNodePoolConditionsToStatus (extractConditions obj)")
  case None
  then have "out = ([], None)" "inst' = inst\<lparr>is_seenNP := mark_seen (is_seenNP inst) (us_Name obj)\<rparr>"
    using assms(1) by (simp_all add: reconcile_np_def Let_def)
  moreover have "track_causes (NPSeen obj) t = t" using None by (simp add: track_causes_def Let_def)
  ultimately show ?thesis using assms(2) by simp
next
  case (Some n)
  let ?cs = "extractConditions obj" and ?seen = "mark_seen (is_seenNP inst) (us_Name obj)"
  let ?g = "inst\<lparr>is_seenNP := ?seen, is_npMsg := extractNodePoolMessage ?cs n, is_npStatus := Some n\<rparr>"
  have g: "kept_messages (track_causes (NPSeen obj) t) ?g"
    using assms(2) Some extracted_np_message[OF Some] by (simp add: track_causes_def kept_messages_def Let_def)
  show ?thesis
  proof (cases "is_npStatus inst = Some n \<or> is_hcStatus inst = None")
    case True
    then have "out = ([], None)" "inst' = ?g"
      using assms(1) Some by (auto simp: reconcile_np_def Let_def split: if_splits)
    then show ?thesis using g by simp
  next
    case False
    then obtain h where h: "is_hcStatus inst = Some h" by blast
    then have "publish_composite i h ?g = (out, inst')"
      using assms(1) Some False by (simp add: reconcile_np_def Let_def)
    from publish_speaks[OF this g] show ?thesis using h by simp
  qed
qed

lemma np_deleted_messages:
  assumes "drop_node_pool i h inst = (out, inst')" "is_hcStatus inst = Some h" "kept_messages t inst"
  shows "kept_messages (track_causes (NPDeleted d) t) inst' \<and> speaks_for inst' out"
  using assms
  by (auto simp: drop_node_pool_def track_causes_def kept_messages_def speaks_for_def ComputeCompositeStatus_def
      compositeMessage_def Let_def split: if_splits)

lemma new_instance_messages: "kept_messages (None, None) new_instance"
  by (simp add: kept_messages_def)

lemma step_messages:
  assumes "handle_event ev st = (out, st')" "i = event_instance ev" "i \<noteq> []" "kept_messages t (getOrCreate st i)"
  shows "kept_messages (track_causes ev t) (getOrCreate st' i)
    \<and> (\<forall>e. snd out = Some e \<and> ev_Status e \<noteq> DELETED \<longrightarrow> message_fits (track_causes ev t) e)"
proof -
  have told: ?thesis
    if "kept_messages (track_causes ev t) (getOrCreate st' i) \<and> speaks_for (getOrCreate st' i) out"
    using that spoken_fits by blast
  show ?thesis
  proof (cases ev)
    case (HCSeen obj)
    then show ?thesis
      using assms hc_seen_messages[of obj i "getOrCreate st i" _ _ t]
      by (intro told) (auto simp: handle_event_def reconcileResource_def event_instance_def Let_def split: prod.splits)
  next
    case (NPSeen obj)
    then show ?thesis
      using assms np_seen_messages[of obj i "getOrCreate st i" _ _ t]
      by (intro told) (auto simp: handle_event_def reconcileResource_def event_instance_def Let_def split: prod.splits)
  next
    case (HCDeleted d)
    then show ?thesis
      using assms(1-3) new_instance_messages
      by (auto simp: handle_event_def handleDeleteHostedCluster_def event_instance_def track_causes_def Let_def
          split: option.splits)
  next
    case (NPDeleted d)
    then obtain uns where uns: "deleted_object d = Some uns" "i = extractInstanceID uns"
      using assms(2,3) by (auto simp: event_instance_def Let_def split: option.splits)
    show ?thesis
    proof (cases "is_hcStatus (getOrCreate st i)")
      case None
      then have "out = ([], None)" "st' = st" "fst t = None"
        using assms(1,3,4) NPDeleted uns
        by (auto simp: handle_event_def handleDeleteNodePool_def getOrCreate_def kept_messages_def split: option.splits)
      then show ?thesis using assms(4) by (cases t) (simp add: NPDeleted track_causes_def)
    next
      case (Some h)
      then obtain inst where inst: "st i = Some inst" "getOrCreate st i = inst"
        by (cases "st i") (auto simp: getOrCreate_def)
      obtain o2 x where drop: "drop_node_pool i h inst = (o2, x)" by fastforce
      have "out = o2" "getOrCreate st' i = x"
        using assms(1,3) NPDeleted uns inst Some drop
        by (auto simp: handle_event_def handleDeleteNodePool_def)
      then show ?thesis
        using np_deleted_messages[OF drop, of t d] inst Some assms(4) NPDeleted by (intro told) simp
    qed
  qed
qed

lemma messages_run:
  "\<forall>i. i \<noteq> [] \<longrightarrow> kept_messages (causes_of i evs) (getOrCreate (fold (\<lambda>ev st. snd (handle_event ev st)) evs Map.empty) i)"
proof (induction evs rule: rev_induct)
  case Nil
  then show ?case using new_instance_messages by (simp add: causes_of_def getOrCreate_def)
next
  case (snoc ev evs)
  let ?st = "fold (\<lambda>ev st. snd (handle_event ev st)) evs Map.empty"
  obtain out st' where run: "handle_event ev ?st = (out, st')" by fastforce
  have "kept_messages (causes_of i (evs @ [ev])) (getOrCreate st' i)" if "i \<noteq> []" for i
  proof (cases "i = event_instance ev")
    case True
    then show ?thesis using step_messages[OF run True that] snoc.IH that by (simp add: causes_of_def)
  next
    case False
    then show ?thesis
      using other_instances[OF False run] snoc.IH that by (simp add: causes_of_def getOrCreate_def)
  qed
  then show ?case using run by simp
qed

text \<open>
  C34: the message of a status event belongs to the resource that drives it.  After any history,
  when the NodePool is the worse of the two, an unavailable one is announced with the message of its
  false Ready condition and an updating one with that of its first update condition, both marked as
  the NodePool's, and a pending one without a message.  Otherwise a failed HostedCluster is announced with the message
  of its true Degraded condition, an unavailable one with that of its false Available condition, as
  they were when its status changed, and any other status without a message.
\<close>

theorem monitor_messages:
  assumes "st = fold (\<lambda>ev st. snd (handle_event ev st)) history Map.empty"
    and "handle_event ev st = (out, st')" "snd out = Some e" "ev_Status e \<noteq> DELETED"
  shows "message_fits (causes_of (event_instance ev) (history @ [ev])) e"
proof -
  have some: "event_instance ev \<noteq> []" using no_instance_ignored[of ev st] assms(2,3) by auto
  then have "kept_messages (causes_of (event_instance ev) history) (getOrCreate st (event_instance ev))"
    unfolding assms(1) using messages_run by blast
  from step_messages[OF assms(2) refl some this] show ?thesis using assms(3,4) by (simp add: causes_of_def)
qed

theorem monitor_messages_witness:
  "\<exists>st e. st = fold (\<lambda>ev st. snd (handle_event ev st)) [NPSeen (seen_object ''id-1'' [(''Ready'', ''False'')])] Map.empty
    \<and> snd (fst (handle_event (HCSeen (seen_object ''id-1'' [(''Degraded'', ''True'')])) st)) = Some e
    \<and> message_fits (causes_of ''id-1''
        [NPSeen (seen_object ''id-1'' [(''Ready'', ''False'')]), HCSeen (seen_object ''id-1'' [(''Degraded'', ''True'')])]) e"
proof -
  let ?np = "NPSeen (seen_object ''id-1'' [(''Ready'', ''False'')])" and ?ev = "HCSeen (seen_object ''id-1'' [(''Degraded'', ''True'')])"
  let ?st = "fold (\<lambda>ev st. snd (handle_event ev st)) [?np] Map.empty"
  have "\<exists>e. snd (fst (handle_event ?ev ?st)) = Some e \<and> ev_Status e \<noteq> DELETED"
    by (simp add: handle_event_def reconcileResource_def reconcile_hc_def reconcile_np_def seen_object_facts
      MapConditionsToStatus_def MapNodePoolConditionsToStatus_def getOrCreate_def new_instance_def publish_composite_cases
      ComputeCompositeStatus_def ConditionTrue_def ConditionFalse_def Let_def)
  then obtain e where e: "snd (fst (handle_event ?ev ?st)) = Some e" "ev_Status e \<noteq> DELETED" by blast
  have "event_instance ?ev = ''id-1''" by (simp add: event_instance_def seen_object_facts)
  then show ?thesis
    using monitor_messages[OF refl surjective_pairing e] e(1) by (intro exI[of _ ?st] exI[of _ e]) simp
qed

text \<open>
  A NodePool that goes before its HostedCluster is first seen is not forgotten.  After the
  NodePool was seen unavailable and deleted, a ready HostedCluster is announced as unavailable,
  with the message of the NodePool that no longer exists.
\<close>

theorem deleted_nodepool_remembered:
  "\<exists>st e. st = fold (\<lambda>ev st. snd (handle_event ev st))
        [NPSeen (seen_object ''id-1'' [(''Ready'', ''False'')]),
         NPDeleted (Unstructured (seen_object ''id-1'' [(''Ready'', ''False'')]))] Map.empty
    \<and> snd (fst (handle_event (HCSeen (seen_object ''id-1'' [(''Available'', ''True'')])) st)) = Some e
    \<and> ev_Status e = UNAVAILABLE \<and> ev_Message e = ''NodePool: m''"
  by (simp add: handle_event_def reconcileResource_def reconcile_np_def reconcile_hc_def handleDeleteNodePool_def
      deleted_object_def seen_object_facts MapNodePoolConditionsToStatus_def MapConditionsToStatus_def
      getOrCreate_def new_instance_def publish_composite_cases ComputeCompositeStatus_def compositeMessage_def
      extractNodePoolMessage_def StatusPriority_of_def ConditionTrue_def ConditionFalse_def Let_def)

text \<open>
  The message of a NodePool that is updating is the message of the first of the two update
  conditions, also when it is the other one that is true.
\<close>

theorem update_message_of_wrong_condition:
  assumes "co_Type c = ''UpdatingVersion''" "co_Status c = ConditionFalse"
    and "co_Type d = ''UpdatingConfig''" "co_Status d = ConditionTrue"
  shows "MapNodePoolConditionsToStatus [c, d] = Some PROVISIONING"
    "extractNodePoolMessage [c, d] PROVISIONING = ''NodePool: '' @ co_Message c"
  using assms by (simp_all add: MapNodePoolConditionsToStatus_def extractNodePoolMessage_def)

text \<open>
  A NodePool whose conditions name neither an update nor readiness makes a ready cluster pending, with
  no message and so without the prefix that marks a status taken from the NodePool.
\<close>

theorem pending_nodepool_unmarked:
  "\<exists>st e. st = fold (\<lambda>ev st. snd (handle_event ev st)) [HCSeen (seen_object ''id-1'' [(''Available'', ''True'')])] Map.empty
    \<and> snd (fst (handle_event (NPSeen (seen_object ''id-1'' [(''AllMachinesReady'', ''True'')])) st)) = Some e
    \<and> ev_Status e = PENDING \<and> ev_Message e = []"
  by (simp add: handle_event_def reconcileResource_def reconcile_np_def reconcile_hc_def
      seen_object_facts MapNodePoolConditionsToStatus_def MapConditionsToStatus_def
      getOrCreate_def new_instance_def publish_composite_cases ComputeCompositeStatus_def compositeMessage_def
      extractNodePoolMessage_def StatusPriority_of_def ConditionTrue_def ConditionFalse_def Let_def)

end
