(* ===== verification/Debouncer.thy ===== *)
theory Debouncer
  imports Monitor
begin

text \<open>
  \<open>internal/monitoring/debouncer.go\<close>.  A timer has an identity of its own, apart from the entry of
  the map that points to it: \<open>time.Timer.Stop\<close> on a timer that has already expired does nothing, and
  its callback, which waits for the lock, still runs.  Submitting, expiring, the locked part of a
  callback, the return of \<open>publishFn\<close> and stopping are steps that interleave freely.  \<open>publishFn\<close> has no result:
  a call that returned need not have delivered its event, which is for \<open>StatusPipeline\<close> to tell apart.
\<close>

type_synonym pending = "nat \<times> string \<times> StatusEvent"

record debouncer =
  db_timers :: "string \<rightharpoonup> nat"          \<comment> \<open>the map \<open>timers\<close>\<close>
  db_armed :: "pending list"          \<comment> \<open>timers that have not expired\<close>
  db_fired :: "pending list"          \<comment> \<open>expired, the callback has not taken the lock yet\<close>
  db_inflight :: "(string \<times> StatusEvent) list"  \<comment> \<open>callbacks inside \<open>publishFn\<close>, counted by \<open>wg\<close>\<close>
  db_returned :: "(string \<times> StatusEvent) list"  \<comment> \<open>calls of \<open>publishFn\<close> that have returned, latest first\<close>
  db_stopped :: bool
  db_next :: nat

definition NewDebouncer :: debouncer where
  "NewDebouncer = \<lparr>db_timers = Map.empty, db_armed = [], db_fired = [], db_inflight = [],
     db_returned = [], db_stopped = False, db_next = 0\<rparr>"

definition timer_stop :: "nat \<Rightarrow> pending list \<Rightarrow> pending list" where
  "timer_stop t armed = filter (\<lambda>p. fst p \<noteq> t) armed"

definition Submit :: "string \<Rightarrow> StatusEvent \<Rightarrow> debouncer \<Rightarrow> debouncer" where
  "Submit key event d =
     (if db_stopped d then d
      else
        let armed = (case db_timers d key of Some t \<Rightarrow> timer_stop t (db_armed d) | None \<Rightarrow> db_armed d)
        in d\<lparr>db_timers := (db_timers d)(key \<mapsto> db_next d),
             db_armed := (db_next d, key, event) # armed,
             db_next := db_next d + 1\<rparr>)"

text \<open>The locked part of the callback of an expired timer.\<close>

definition callback :: "pending \<Rightarrow> debouncer \<Rightarrow> debouncer" where
  "callback p d =
     (let d' = d\<lparr>db_fired := remove1 p (db_fired d)\<rparr> in
      if db_stopped d then d'
      else d'\<lparr>db_timers := (db_timers d)(fst (snd p) := None),
              db_inflight := snd p # db_inflight d\<rparr>)"

text \<open>\<open>Stop\<close> up to \<open>wg.Wait\<close>; it returns when no callback is in flight.\<close>

definition Stop :: "debouncer \<Rightarrow> debouncer" where
  "Stop d = d\<lparr>db_stopped := True,
     db_armed := filter (\<lambda>p. fst p \<notin> ran (db_timers d)) (db_armed d),
     db_timers := Map.empty\<rparr>"

datatype db_label =
    LSubmit string StatusEvent
  | LExpire pending
  | LCallback pending
  | LFinish "string \<times> StatusEvent"
  | LStop

inductive db_step :: "debouncer \<Rightarrow> db_label \<Rightarrow> debouncer \<Rightarrow> bool" where
  db_submit: "db_step d (LSubmit k e) (Submit k e d)"
| db_expire: "p \<in> set (db_armed d) \<Longrightarrow>
    db_step d (LExpire p) (d\<lparr>db_armed := remove1 p (db_armed d), db_fired := p # db_fired d\<rparr>)"
| db_callback: "p \<in> set (db_fired d) \<Longrightarrow> db_step d (LCallback p) (callback p d)"
| db_finish: "x \<in> set (db_inflight d) \<Longrightarrow>
    db_step d (LFinish x) (d\<lparr>db_inflight := remove1 x (db_inflight d), db_returned := x # db_returned d\<rparr>)"
| db_stop: "db_step d LStop (Stop d)"

inductive_cases db_submitE: "db_step d (LSubmit k e) d'"
inductive_simps db_step_simps:
  "db_step d (LSubmit k e) d'" "db_step d (LExpire p) d'" "db_step d (LCallback p) d'"
  "db_step d (LFinish x) d'" "db_step d LStop d'"

inductive db_run :: "debouncer \<Rightarrow> db_label list \<Rightarrow> debouncer \<Rightarrow> bool" where
  run_none: "db_run d [] d"
| run_more: "db_run d ls d1 \<Longrightarrow> db_step d1 l d2 \<Longrightarrow> db_run d (ls @ [l]) d2"

definition submits :: "db_label list \<Rightarrow> (string \<times> StatusEvent) list" where
  "submits ls = List.map_filter (\<lambda>l. case l of LSubmit k e \<Rightarrow> Some (k, e) | _ \<Rightarrow> None) ls"

lemma submits_simps [simp]:
  "submits [] = []" "submits (ls @ [l]) = submits ls @ (case l of LSubmit k e \<Rightarrow> [(k, e)] | _ \<Rightarrow> [])"
  by (auto simp: submits_def map_filter_def split: db_label.splits)

subsection \<open>Every publication is a submission, none after Stop\<close>

definition accounted :: "debouncer \<Rightarrow> (string \<times> StatusEvent) multiset" where
  "accounted d = mset (map snd (db_armed d)) + mset (map snd (db_fired d)) + mset (db_inflight d)
     + mset (db_returned d)"

lemma map_remove1_mset: "p \<in> set ps \<Longrightarrow> mset (map f ps) = add_mset (f p) (mset (map f (remove1 p ps)))"
  by (induction ps) auto

lemma filter_submset: "mset (map f (filter P ps)) \<subseteq># mset (map f ps)"
proof -
  have "image_mset f (filter_mset P (mset ps)) \<subseteq># image_mset f (mset ps)"
    by (rule image_mset_subseteq_mono[OF multiset_filter_subset])
  then show ?thesis by simp
qed

lemma accounted_step:
  assumes "db_step d l d'"
  shows "accounted d' \<subseteq># accounted d + mset (case l of LSubmit k e \<Rightarrow> [(k, e)] | _ \<Rightarrow> [])"
  using assms
proof cases
  case (db_submit k e)
  then show ?thesis
    using filter_submset[of snd]
    by (auto simp: Submit_def timer_stop_def accounted_def Let_def split: option.split)
next
  case (db_expire p)
  then show ?thesis using map_remove1_mset[of p "db_armed d" snd] by (simp add: accounted_def)
next
  case (db_callback p)
  then show ?thesis
    using map_remove1_mset[of p "db_fired d" snd] by (simp add: accounted_def callback_def Let_def)
next
  case (db_finish x)
  then show ?thesis by (simp add: accounted_def)
next
  case db_stop
  then show ?thesis using filter_submset[of snd] by (simp add: accounted_def Stop_def)
qed

lemma accounted_run: "db_run d ls d' \<Longrightarrow> accounted d' \<subseteq># accounted d + mset (submits ls)"
proof (induction rule: db_run.induct)
  case (run_more d ls d1 l d2)
  have "accounted d2 \<subseteq># accounted d1 + mset (case l of LSubmit k e \<Rightarrow> [(k, e)] | _ \<Rightarrow> [])"
    by (rule accounted_step[OF run_more.hyps(2)])
  also have "\<dots> \<subseteq># accounted d + mset (submits ls) + mset (case l of LSubmit k e \<Rightarrow> [(k, e)] | _ \<Rightarrow> [])"
    using run_more.IH by (rule subset_mset.add_right_mono)
  finally show ?case by (simp add: add.assoc)
qed simp

lemma stopped_step:
  assumes "db_step d l d'" "db_stopped d" "db_inflight d = []"
  shows "db_stopped d' \<and> db_inflight d' = [] \<and> db_returned d' = db_returned d"
  using assms by (cases rule: db_step.cases) (auto simp: Submit_def callback_def Stop_def Let_def)

lemma stopped_run:
  "db_run d ls d' \<Longrightarrow> db_stopped d \<Longrightarrow> db_inflight d = [] \<Longrightarrow>
   db_stopped d' \<and> db_inflight d' = [] \<and> db_returned d' = db_returned d"
  by (induction rule: db_run.induct) (auto dest: stopped_step)

subsection \<open>The latest event of a key\<close>

definition latest :: "db_label list \<Rightarrow> string \<Rightarrow> StatusEvent option" where
  "latest ls k = map_of (rev (submits ls)) k"

lemma latest_simps [simp]:
  "latest [] k = None"
  "latest (ls @ [l]) k = (case l of LSubmit k' e \<Rightarrow> if k = k' then Some e else latest ls k | _ \<Rightarrow> latest ls k)"
  by (auto simp: latest_def split: db_label.splits)

definition held :: "debouncer \<Rightarrow> (string \<times> StatusEvent) set" where
  "held d = snd ` set (db_armed d) \<union> snd ` set (db_fired d) \<union> set (db_inflight d) \<union> set (db_returned d)"

definition pending_of :: "debouncer \<Rightarrow> pending set" where
  "pending_of d = set (db_armed d) \<union> set (db_fired d)"

text \<open>Identities are fresh, and an entry of the map points to a timer of its own key.\<close>

definition well_keyed :: "debouncer \<Rightarrow> bool" where
  "well_keyed d \<longleftrightarrow>
     (\<forall>p \<in> pending_of d. fst p < db_next d)
     \<and> (\<forall>k t. db_timers d k = Some t \<longrightarrow> t < db_next d)
     \<and> (\<forall>p \<in> pending_of d. \<forall>k. db_timers d k = Some (fst p) \<longrightarrow> fst (snd p) = k)"

lemma well_keyed_shrink:
  assumes "well_keyed d" "pending_of d' \<subseteq> pending_of d" "db_next d' = db_next d"
    and "\<And>k t. db_timers d' k = Some t \<Longrightarrow> db_timers d k = Some t"
  shows "well_keyed d'"
  unfolding well_keyed_def assms(3)
proof (intro conjI ballI allI impI)
  fix p assume "p \<in> pending_of d'"
  then have p: "p \<in> pending_of d" using assms(2) by blast
  then show "fst p < db_next d" using assms(1) by (simp add: well_keyed_def)
  fix k assume "db_timers d' k = Some (fst p)"
  then show "fst (snd p) = k" using assms(1,4) p unfolding well_keyed_def by blast
next
  fix k t assume "db_timers d' k = Some t"
  then show "t < db_next d" using assms(1,4) unfolding well_keyed_def by blast
qed

lemma pending_submit:
  "\<not> db_stopped d \<Longrightarrow> pending_of (Submit k e d) =
     insert (db_next d, k, e) ({p \<in> set (db_armed d). db_timers d k \<noteq> Some (fst p)} \<union> set (db_fired d))"
  by (auto simp: pending_of_def Submit_def timer_stop_def Let_def split: option.splits)

lemma well_keyed_submit:
  assumes "well_keyed d"
  shows "well_keyed (Submit k e d)"
proof (cases "db_stopped d")
  case False
  have fields: "db_next (Submit k e d) = db_next d + 1" "db_timers (Submit k e d) = (db_timers d)(k \<mapsto> db_next d)"
    using False by (simp_all add: Submit_def Let_def)
  have new: "p = (db_next d, k, e) \<or> p \<in> pending_of d" if "p \<in> pending_of (Submit k e d)" for p
    using that unfolding pending_submit[OF False] by (auto simp: pending_of_def)
  show ?thesis
    unfolding well_keyed_def fields
  proof (intro conjI ballI allI impI)
    fix p assume p: "p \<in> pending_of (Submit k e d)"
    show "fst p < db_next d + 1" using new[OF p] assms by (auto simp: well_keyed_def)
    fix k' assume t: "((db_timers d)(k \<mapsto> db_next d)) k' = Some (fst p)"
    have below: "\<forall>j u. db_timers d j = Some u \<longrightarrow> u < db_next d" "\<forall>q \<in> pending_of d. fst q < db_next d"
      "\<forall>q \<in> pending_of d. \<forall>j. db_timers d j = Some (fst q) \<longrightarrow> fst (snd q) = j"
      using assms by (simp_all add: well_keyed_def)
    from new[OF p] show "fst (snd p) = k'"
    proof
      assume "p = (db_next d, k, e)"
      then show ?thesis using t below(1) by (cases "k' = k") auto
    next
      assume "p \<in> pending_of d"
      then show ?thesis using t below by (cases "k' = k") auto
    qed
  next
    fix k' t assume "((db_timers d)(k \<mapsto> db_next d)) k' = Some t"
    then show "t < db_next d + 1"
      using assms by (auto simp: well_keyed_def intro: less_SucI split: if_splits)
  qed
qed (use assms in \<open>simp add: Submit_def\<close>)

lemma well_keyed_step:
  assumes "db_step d l d'" "well_keyed d"
  shows "well_keyed d'"
  using assms(1)
proof cases
  case (db_submit k e)
  then show ?thesis using well_keyed_submit[OF assms(2)] by simp
next
  case (db_expire p)
  show ?thesis
    by (rule well_keyed_shrink[OF assms(2)])
      (use db_expire set_remove1_subset[of p "db_armed d"] in \<open>auto simp: pending_of_def\<close>)
next
  case (db_callback p)
  show ?thesis
    by (rule well_keyed_shrink[OF assms(2)])
      (use db_callback set_remove1_subset[of p "db_fired d"] in
        \<open>auto simp: pending_of_def callback_def Let_def split: if_splits\<close>)
next
  case (db_finish x)
  show ?thesis by (rule well_keyed_shrink[OF assms(2)]) (use db_finish in \<open>auto simp: pending_of_def\<close>)
next
  case db_stop
  show ?thesis by (rule well_keyed_shrink[OF assms(2)]) (use db_stop in \<open>auto simp: pending_of_def Stop_def\<close>)
qed

lemma well_keyed_run: "db_run d ls d' \<Longrightarrow> well_keyed d \<Longrightarrow> well_keyed d'"
  by (induction rule: db_run.induct) (auto intro: well_keyed_step)

lemma well_keyed_new: "well_keyed NewDebouncer"
  by (simp add: well_keyed_def NewDebouncer_def pending_of_def)

lemma in_remove1: "x \<in> set xs \<Longrightarrow> x = y \<or> x \<in> set (remove1 y xs)"
  by (metis in_set_remove1)

lemma image_remove1: "x \<in> f ` set xs \<Longrightarrow> x = f y \<or> x \<in> f ` set (remove1 y xs)"
  by (metis (no_types) image_iff in_set_remove1)

lemma held_submit:
  assumes "well_keyed d" "\<not> db_stopped d" "x \<in> held d" "fst x \<noteq> k"
  shows "x \<in> held (Submit k e d)"
proof -
  have "p \<in> pending_of (Submit k e d)" if "p \<in> pending_of d" "snd p = x" for p
  proof -
    have "db_timers d k \<noteq> Some (fst p)"
      using assms(1,4) that unfolding well_keyed_def by blast
    then show ?thesis using that unfolding pending_submit[OF assms(2)] by (auto simp: pending_of_def)
  qed
  moreover have "db_inflight (Submit k e d) = db_inflight d" "db_returned (Submit k e d) = db_returned d"
    by (simp_all add: Submit_def Let_def)
  ultimately show ?thesis
    using assms(3) unfolding held_def pending_of_def image_Un[symmetric] by (auto simp: image_iff)
qed

lemma held_step:
  assumes "db_step d l d'" "well_keyed d" "\<not> db_stopped d'"
    and "\<forall>k e. latest ls k = Some e \<longrightarrow> (k, e) \<in> held d"
  shows "\<forall>k e. latest (ls @ [l]) k = Some e \<longrightarrow> (k, e) \<in> held d'"
  using assms(1)
proof cases
  case (db_submit k e)
  have live: "\<not> db_stopped d" using db_submit assms(3) by (auto simp: Submit_def split: if_splits)
  have "(k, e) \<in> held d'"
    using db_submit live by (simp add: held_def Submit_def Let_def)
  then show ?thesis
    using held_submit[OF assms(2) live] assms(4) db_submit by auto
next
  case (db_expire p)
  have "held d \<subseteq> held d'"
  proof
    fix x assume "x \<in> held d"
    then show "x \<in> held d'" using db_expire image_remove1[of x snd "db_armed d" p] by (auto simp: held_def)
  qed
  then show ?thesis using assms(4) db_expire by auto
next
  case (db_callback p)
  then have "\<not> db_stopped d" using assms(3) by (auto simp: callback_def Let_def split: if_splits)
  have "held d \<subseteq> held d'"
  proof
    fix x assume "x \<in> held d"
    then show "x \<in> held d'"
      using db_callback \<open>\<not> db_stopped d\<close> image_remove1[of x snd "db_fired d" p]
      by (auto simp: held_def callback_def Let_def)
  qed
  then show ?thesis using assms(4) db_callback by auto
next
  case (db_finish x)
  have "held d \<subseteq> held d'"
    using db_finish in_remove1[of _ "db_inflight d" x] by (auto simp: held_def)
  then show ?thesis using assms(4) db_finish by auto
next
  case db_stop
  then show ?thesis using assms(3) by (simp add: Stop_def)
qed

lemma stopped_stays: "db_step d l d' \<Longrightarrow> db_stopped d \<Longrightarrow> db_stopped d'"
  by (cases rule: db_step.cases) (auto simp: Submit_def callback_def Stop_def Let_def)

lemma held_run:
  "db_run d ls d' \<Longrightarrow> d = NewDebouncer \<Longrightarrow> \<not> db_stopped d' \<Longrightarrow>
   \<forall>k e. latest ls k = Some e \<longrightarrow> (k, e) \<in> held d'"
proof (induction rule: db_run.induct)
  case (run_more d ls d1 l d2)
  have "\<not> db_stopped d1" using stopped_stays[OF run_more.hyps(2)] run_more.prems(2) by blast
  moreover have "well_keyed d1" using well_keyed_run[OF run_more.hyps(1)] well_keyed_new run_more.prems(1) by simp
  ultimately show ?case
    using held_step[OF run_more.hyps(2) _ run_more.prems(2)] run_more.IH[OF run_more.prems(1)] by blast
qed simp

text \<open>
  C26: what the debouncer publishes.  In every interleaving each call of \<open>publishFn\<close> is for one of the
  submitted events and no submission is handed over twice; as long as the debouncer is not stopped the
  latest event of every key is pending, in a running call or in one that returned, so it is never lost;
  and once \<open>Stop\<close> has returned no further call is made, whatever callbacks still run.
\<close>

theorem debouncer_publishes_submissions:
  assumes "db_run NewDebouncer ls d"
  shows "mset (db_inflight d) + mset (db_returned d) \<subseteq># mset (submits ls)
    \<and> (\<not> db_stopped d \<longrightarrow> (\<forall>k e. latest ls k = Some e \<longrightarrow> (k, e) \<in> held d))
    \<and> (db_stopped d \<and> db_inflight d = [] \<longrightarrow> (\<forall>ls' d'. db_run d ls' d' \<longrightarrow> db_returned d' = db_returned d))"
proof (intro conjI)
  have "mset (db_inflight d) + mset (db_returned d) \<subseteq># accounted d"
    by (simp add: accounted_def add.assoc)
  also have "\<dots> \<subseteq># mset (submits ls)"
    using accounted_run[OF assms] by (simp add: accounted_def NewDebouncer_def)
  finally show "mset (db_inflight d) + mset (db_returned d) \<subseteq># mset (submits ls)" .
qed (use held_run[OF assms refl] stopped_run in blast)+

lemma run_step: "db_run d ls d1 \<Longrightarrow> db_step d1 l d2 \<Longrightarrow> ls' = ls @ [l] \<Longrightarrow> db_run d ls' d2"
  using run_more by simp

theorem debouncer_publishes_submissions_witness:
  "\<exists>d. db_run NewDebouncer [LSubmit ''a'' \<lparr>ev_InstanceID = ''a'', ev_Status = READY, ev_Message = []\<rparr>] d
    \<and> (''a'', \<lparr>ev_InstanceID = ''a'', ev_Status = READY, ev_Message = []\<rparr>) \<in> held d"
proof -
  let ?e = "\<lparr>ev_InstanceID = ''a'', ev_Status = READY, ev_Message = []\<rparr>"
  let ?d = "Submit ''a'' ?e NewDebouncer"
  have run: "db_run NewDebouncer [LSubmit ''a'' ?e] ?d"
    using run_more[OF run_none db_submit, of NewDebouncer "''a''" ?e] by simp
  have "\<not> db_stopped ?d" by (simp add: Submit_def NewDebouncer_def)
  moreover have "latest [LSubmit ''a'' ?e] ''a'' = Some ?e" by (simp add: latest_def submits_def map_filter_def)
  ultimately show ?thesis using debouncer_publishes_submissions[OF run] run by blast
qed

subsection \<open>Coalescing\<close>

text \<open>
  Runs in which no event is submitted for a key while the callback of an expired timer of that key
  waits for the lock.
\<close>

inductive calm_run :: "debouncer \<Rightarrow> db_label list \<Rightarrow> debouncer \<Rightarrow> bool" where
  calm_none: "calm_run d [] d"
| calm_more: "calm_run d ls d1 \<Longrightarrow> db_step d1 l d2 \<Longrightarrow>
    (\<And>k e p. l = LSubmit k e \<Longrightarrow> p \<in> set (db_fired d1) \<Longrightarrow> fst (snd p) \<noteq> k) \<Longrightarrow>
    calm_run d (ls @ [l]) d2"

definition current :: "debouncer \<Rightarrow> db_label list \<Rightarrow> bool" where
  "current d ls \<longleftrightarrow>
     distinct (db_armed d @ db_fired d)
     \<and> (db_stopped d \<or> (\<forall>p \<in> pending_of d.
          db_timers d (fst (snd p)) = Some (fst p) \<and> latest ls (fst (snd p)) = Some (snd (snd p))))"

lemma current_submit:
  assumes "current d ls" "well_keyed d" "\<And>p. p \<in> set (db_fired d) \<Longrightarrow> fst (snd p) \<noteq> k"
  shows "current (Submit k e d) (ls @ [LSubmit k e])"
proof (cases "db_stopped d")
  case False
  let ?d = "Submit k e d"
  have fresh: "\<forall>p \<in> pending_of d. fst p < db_next d" using assms(2) by (simp add: well_keyed_def)
  have "db_armed ?d = (db_next d, k, e) # (case db_timers d k of Some t \<Rightarrow> timer_stop t (db_armed d) | None \<Rightarrow> db_armed d)"
    and fired: "db_fired ?d = db_fired d" and timers: "db_timers ?d = (db_timers d)(k \<mapsto> db_next d)"
    using False by (simp_all add: Submit_def Let_def)
  moreover have "(db_next d, k, e) \<notin> set (db_armed d)" "(db_next d, k, e) \<notin> set (db_fired d)"
    using fresh unfolding pending_of_def by force+
  ultimately have "distinct (db_armed ?d @ db_fired ?d)"
    using assms(1) by (auto simp: current_def timer_stop_def split: option.split)
  moreover have "db_timers ?d (fst (snd p)) = Some (fst p)
      \<and> latest (ls @ [LSubmit k e]) (fst (snd p)) = Some (snd (snd p))" if "p \<in> pending_of ?d" for p
  proof (cases "p = (db_next d, k, e)")
    case False
    then have old: "p \<in> pending_of d" "p \<in> set (db_fired d) \<or> db_timers d k \<noteq> Some (fst p)"
      using that unfolding pending_submit[OF \<open>\<not> db_stopped d\<close>] by (auto simp: pending_of_def)
    have now: "db_timers d (fst (snd p)) = Some (fst p)" "latest ls (fst (snd p)) = Some (snd (snd p))"
      using assms(1) \<open>\<not> db_stopped d\<close> old(1) by (auto simp: current_def)
    then have "fst (snd p) \<noteq> k" using old(2) assms(3)[of p] by auto
    then show ?thesis using now timers by simp
  qed (simp add: timers)
  ultimately show ?thesis by (simp add: current_def)
qed (use assms(1) in \<open>simp add: current_def Submit_def\<close>)

lemma current_callback:
  assumes "current d ls" "p \<in> set (db_fired d)"
  shows "current (callback p d) (ls @ [LCallback p])"
proof -
  let ?d = "callback p d"
  have lists: "db_armed ?d = db_armed d" "db_fired ?d = remove1 p (db_fired d)" "db_stopped ?d = db_stopped d"
    by (simp_all add: callback_def Let_def)
  have dist: "distinct (db_armed d @ db_fired d)" using assms(1) by (simp add: current_def)
  then have "distinct (db_armed ?d @ db_fired ?d)" unfolding lists by (auto dest: notin_set_remove1)
  moreover have "db_timers ?d (fst (snd q)) = Some (fst q) \<and> latest (ls @ [LCallback p]) (fst (snd q)) = Some (snd (snd q))"
    if q: "q \<in> pending_of ?d" and live: "\<not> db_stopped d" for q
  proof -
    have "q \<noteq> p" using q dist assms(2) unfolding pending_of_def lists by auto
    have sub: "q \<in> pending_of d" using q set_remove1_subset[of p "db_fired d"] unfolding pending_of_def lists by auto
    then have now: "db_timers d (fst (snd q)) = Some (fst q)" "latest ls (fst (snd q)) = Some (snd (snd q))"
      using assms(1) live by (auto simp: current_def)
    moreover have "db_timers d (fst (snd p)) = Some (fst p)" "latest ls (fst (snd p)) = Some (snd (snd p))"
      using assms live by (auto simp: current_def pending_of_def)
    ultimately have "fst (snd q) \<noteq> fst (snd p)" using \<open>q \<noteq> p\<close> by (metis option.inject prod_eqI)
    then show ?thesis using now live by (simp add: callback_def Let_def)
  qed
  ultimately show ?thesis by (auto simp: current_def lists)
qed

lemma current_step:
  assumes "db_step d l d'" "current d ls" "well_keyed d"
    and "\<And>k e p. l = LSubmit k e \<Longrightarrow> p \<in> set (db_fired d) \<Longrightarrow> fst (snd p) \<noteq> k"
  shows "current d' (ls @ [l])"
  using assms(1)
proof cases
  case (db_submit k e)
  then show ?thesis using current_submit[OF assms(2,3)] assms(4) by blast
next
  case (db_expire p)
  have "set (remove1 p (db_armed d)) = set (db_armed d) - {p}" using assms(2) by (simp add: current_def)
  then show ?thesis using assms(2) db_expire by (auto simp: current_def pending_of_def)
next
  case (db_callback p)
  then show ?thesis using current_callback[OF assms(2)] by simp
next
  case (db_finish x)
  then show ?thesis using assms(2) by (simp add: current_def pending_of_def)
next
  case db_stop
  then show ?thesis using assms(2) by (auto simp: current_def Stop_def)
qed

lemma calm_run_current:
  "calm_run d ls d' \<Longrightarrow> d = NewDebouncer \<Longrightarrow> current d' ls \<and> well_keyed d'"
proof (induction rule: calm_run.induct)
  case (calm_none d)
  then show ?case using well_keyed_new by (simp add: current_def NewDebouncer_def pending_of_def)
next
  case (calm_more d ls d1 l d2)
  then show ?case using current_step[OF calm_more.hyps(2)] well_keyed_step[OF calm_more.hyps(2)] by blast
qed

text \<open>
  C33: the debouncer coalesces.  In runs without a submission that races with an expired timer of
  the same key, at most one event of a key is pending, and it is the latest one submitted for that
  key, so that every event it replaced is never handed to \<open>publishFn\<close>.
\<close>

theorem debouncer_coalesces:
  assumes "calm_run NewDebouncer ls d" "\<not> db_stopped d"
  shows "(\<forall>p \<in> pending_of d. latest ls (fst (snd p)) = Some (snd (snd p)))
    \<and> (\<forall>p \<in> pending_of d. \<forall>q \<in> pending_of d. fst (snd p) = fst (snd q) \<longrightarrow> p = q)"
proof (intro conjI ballI impI)
  have inv: "current d ls" using calm_run_current[OF assms(1) refl] by simp
  fix p assume p: "p \<in> pending_of d"
  show "latest ls (fst (snd p)) = Some (snd (snd p))" using inv assms(2) p by (auto simp: current_def)
  fix q assume "q \<in> pending_of d" "fst (snd p) = fst (snd q)"
  then show "p = q"
    using inv assms(2) p unfolding current_def by (metis option.inject prod_eqI)
qed

definition plain_event :: "ClusterStatus \<Rightarrow> StatusEvent" where
  "plain_event st = \<lparr>ev_InstanceID = ''a'', ev_Status = st, ev_Message = []\<rparr>"

theorem debouncer_coalesces_witness:
  "\<exists>d. calm_run NewDebouncer
      [LSubmit ''a'' (plain_event PROVISIONING), LSubmit ''a'' (plain_event READY)] d
    \<and> pending_of d = {(1, ''a'', plain_event READY)}
    \<and> latest [LSubmit ''a'' (plain_event PROVISIONING), LSubmit ''a'' (plain_event READY)] ''a''
        = Some (plain_event READY)"
proof -
  let ?k = "''a''" and ?e1 = "plain_event PROVISIONING" and ?e2 = "plain_event READY"
  let ?d1 = "Submit ?k ?e1 NewDebouncer"
  let ?d2 = "Submit ?k ?e2 ?d1"
  have fired: "db_fired ?d1 = []" by (simp add: Submit_def NewDebouncer_def)
  have one: "calm_run NewDebouncer ([] @ [LSubmit ?k ?e1]) ?d1"
    by (rule calm_more[OF calm_none db_submit]) (simp add: NewDebouncer_def)
  have "calm_run NewDebouncer (([] @ [LSubmit ?k ?e1]) @ [LSubmit ?k ?e2]) ?d2"
    by (rule calm_more[OF one db_submit]) (use fired in auto)
  then have run: "calm_run NewDebouncer [LSubmit ?k ?e1, LSubmit ?k ?e2] ?d2" by simp
  have d2: "pending_of ?d2 = {(1, ?k, ?e2)}" "\<not> db_stopped ?d2"
    by (simp_all add: Submit_def NewDebouncer_def pending_of_def timer_stop_def Let_def)
  then show ?thesis using debouncer_coalesces[OF run d2(2)] run d2(1) by auto
qed

subsection \<open>The race\<close>

definition racy_labels :: "string \<Rightarrow> StatusEvent \<Rightarrow> StatusEvent \<Rightarrow> StatusEvent \<Rightarrow> db_label list" where
  "racy_labels k e1 e2 e3 =
     [LSubmit k e1, LExpire (0, k, e1), LSubmit k e2, LCallback (0, k, e1), LSubmit k e3,
      LExpire (1, k, e2), LExpire (2, k, e3), LCallback (1, k, e2), LCallback (2, k, e3)]"

fun db_exec :: "db_label \<Rightarrow> debouncer \<Rightarrow> debouncer" where
  "db_exec (LSubmit k e) d = Submit k e d"
| "db_exec (LExpire p) d = d\<lparr>db_armed := remove1 p (db_armed d), db_fired := p # db_fired d\<rparr>"
| "db_exec (LCallback p) d = callback p d"
| "db_exec (LFinish x) d = d\<lparr>db_inflight := remove1 x (db_inflight d), db_returned := x # db_returned d\<rparr>"
| "db_exec LStop d = Stop d"

fun db_enabled :: "db_label \<Rightarrow> debouncer \<Rightarrow> bool" where
  "db_enabled (LExpire p) d \<longleftrightarrow> p \<in> set (db_armed d)"
| "db_enabled (LCallback p) d \<longleftrightarrow> p \<in> set (db_fired d)"
| "db_enabled (LFinish x) d \<longleftrightarrow> x \<in> set (db_inflight d)"
| "db_enabled (LSubmit k e) d \<longleftrightarrow> True"
| "db_enabled LStop d \<longleftrightarrow> True"

fun db_enabled_all :: "db_label list \<Rightarrow> debouncer \<Rightarrow> bool" where
  "db_enabled_all [] d = True"
| "db_enabled_all (l # ls) d \<longleftrightarrow> db_enabled l d \<and> db_enabled_all ls (db_exec l d)"

lemma db_exec_step: "db_enabled l d \<Longrightarrow> db_step d l (db_exec l d)"
  by (cases l) (auto intro: db_step.intros)

lemma db_run_exec: "db_enabled_all ls d \<Longrightarrow> db_run d0 ls0 d \<Longrightarrow> db_run d0 (ls0 @ ls) (fold db_exec ls d)"
proof (induction ls arbitrary: d ls0)
  case (Cons l ls)
  have "db_run d0 (ls0 @ [l]) (db_exec l d)" using Cons.prems by (auto intro: run_more db_exec_step)
  then show ?case using Cons.IH[of "db_exec l d" "ls0 @ [l]"] Cons.prems(1) by simp
qed simp

text \<open>
  The coalescing can fail.  The callback of an expired timer that ran late removes the map entry
  of its successor; the next submission then cannot stop that successor, and an event that was
  replaced before its timer expired is published beside the one that replaced it.
\<close>

theorem debouncer_race:
  "\<exists>d. db_run NewDebouncer (racy_labels k e1 e2 e3) d
     \<and> db_inflight d = [(k, e3), (k, e2), (k, e1)] \<and> latest (racy_labels k e1 e2 e3) k = Some e3"
proof -
  have "db_enabled_all (racy_labels k e1 e2 e3) NewDebouncer"
    by (simp add: racy_labels_def Submit_def NewDebouncer_def callback_def timer_stop_def Let_def)
  from db_run_exec[OF this run_none]
  have "db_run NewDebouncer (racy_labels k e1 e2 e3) (fold db_exec (racy_labels k e1 e2 e3) NewDebouncer)" by simp
  moreover have "db_inflight (fold db_exec (racy_labels k e1 e2 e3) NewDebouncer) = [(k, e3), (k, e2), (k, e1)]"
    by (simp add: racy_labels_def Submit_def NewDebouncer_def callback_def timer_stop_def Let_def)
  moreover have "latest (racy_labels k e1 e2 e3) k = Some e3"
    by (simp add: latest_def submits_def map_filter_def racy_labels_def)
  ultimately show ?thesis by blast
qed

end
