(* ===== verification/Publish.thy ===== *)
theory Publish
  imports Monitor
begin

text \<open>
  Delivery of status events: \<open>publishWithRetry\<close> of \<open>internal/monitoring/monitor.go\<close>, the CloudEvent of
  \<open>event.go\<close> and the publisher of \<open>publisher.go\<close>.  The connection, the encoder, the clock and the
  UUID are parameters.  A wait is a function that says whether the context was cancelled first.
\<close>

record StatusPayload =
  pl_ID :: string
  pl_Status :: string
  pl_Message :: string

record CloudEvent =
  ce_SpecVersion :: string
  ce_ID :: string
  ce_Source :: string
  ce_Type :: string
  ce_Time :: string
  ce_Subject :: string
  ce_DataContentType :: string
  ce_Data :: StatusPayload

definition NewStatusCloudEvent ::
  "string \<Rightarrow> string \<Rightarrow> string \<Rightarrow> string \<Rightarrow> ClusterStatus \<Rightarrow> string \<Rightarrow> go_error + CloudEvent" where
  "NewStatusCloudEvent uuid now providerName instanceID status message =
     Inr \<lparr>ce_SpecVersion = ''1.0'', ce_ID = uuid, ce_Source = ''dcm/providers/'' @ providerName,
          ce_Type = ''dcm.status.cluster'', ce_Time = now, ce_Subject = ''dcm.cluster'',
          ce_DataContentType = ''application/json'',
          ce_Data = \<lparr>pl_ID = instanceID, pl_Status = status_string status, pl_Message = message\<rparr>\<rparr>"

definition nats_Publish ::
  "(CloudEvent \<Rightarrow> go_error + string) \<Rightarrow> (string \<Rightarrow> string \<Rightarrow> 's \<Rightarrow> go_error option \<times> 's) \<Rightarrow> string \<Rightarrow>
   string \<Rightarrow> string \<Rightarrow> StatusEvent \<Rightarrow> 's \<Rightarrow> go_error option \<times> 's" where
  "nats_Publish marshal conn_Publish providerName uuid now event s =
     (case NewStatusCloudEvent uuid now providerName (ev_InstanceID event) (ev_Status event) (ev_Message event) of
        Inl err \<Rightarrow> (Some (Wrapped (''constructing cloud event: '' @ error_text err) err), s)
      | Inr ce \<Rightarrow>
          (case marshal ce of
             Inl err \<Rightarrow> (Some (Wrapped (''marshaling cloud event: '' @ error_text err) err), s)
           | Inr data \<Rightarrow> conn_Publish ''dcm.cluster'' data s))"

datatype delivery = Delivered | Cancelled | Dropped

text \<open>The loop, from attempt number \<open>attempt\<close> on; \<open>backoff\<close> is a 64-bit duration.\<close>

function publish_from ::
  "(StatusEvent \<Rightarrow> 's \<Rightarrow> go_error option \<times> 's) \<Rightarrow> (duration \<Rightarrow> 's \<Rightarrow> bool \<times> 's) \<Rightarrow> int \<Rightarrow> StatusEvent \<Rightarrow>
   int \<Rightarrow> duration \<Rightarrow> 's \<Rightarrow> delivery \<times> 's" where
  "publish_from publish wait retryMax event attempt backoff s =
     (if attempt > retryMax then (Dropped, s)
      else case publish event s of
        (None, s1) \<Rightarrow> (Delivered, s1)
      | (Some err, s1) \<Rightarrow>
          if attempt < retryMax then
            (case wait backoff s1 of
               (True, s2) \<Rightarrow> (Cancelled, s2)
             | (False, s2) \<Rightarrow>
                 publish_from publish wait retryMax event (attempt + 1) (to_int64 (backoff * 2)) s2)
          else publish_from publish wait retryMax event (attempt + 1) backoff s1)"
  by pat_completeness auto
termination
  by (relation "measure (\<lambda>(p, w, m, e, a, b, s). nat (m + 1 - a))") auto

declare publish_from.simps [simp del]

definition publishWithRetry ::
  "(StatusEvent \<Rightarrow> 's \<Rightarrow> go_error option \<times> 's) \<Rightarrow> (duration \<Rightarrow> 's \<Rightarrow> bool \<times> 's) \<Rightarrow> MonitoringConfig \<Rightarrow>
   StatusEvent \<Rightarrow> 's \<Rightarrow> delivery \<times> 's" where
  "publishWithRetry publish wait cfg event s =
     publish_from publish wait (mo_PublishRetryMax cfg) event 0 (mo_PublishRetryInterval cfg) s"

subsection \<open>The schedule\<close>

text \<open>
  A world that answers the calls from a script and records the waits: the number of calls made and
  the durations waited, in order.
\<close>

definition scripted :: "(nat \<Rightarrow> go_error option) \<Rightarrow> nat \<times> duration list \<Rightarrow> go_error option \<times> (nat \<times> duration list)" where
  "scripted script w = (script (fst w), (fst w + 1, snd w))"

definition scripted_wait :: "duration \<Rightarrow> nat \<times> duration list \<Rightarrow> bool \<times> (nat \<times> duration list)" where
  "scripted_wait d w = (False, (fst w, snd w @ [d]))"

text \<open>The first call of at most \<open>n\<close> that succeeds.\<close>

definition first_ok :: "(nat \<Rightarrow> go_error option) \<Rightarrow> nat \<Rightarrow> nat option" where
  "first_ok script n = find (\<lambda>i. script i = None) [0..<n]"

lemma publish_from_script:
  assumes "k \<le> m" "0 \<le> b" "b * 2 ^ m < 2 ^ 63" "\<forall>i < k. script i \<noteq> None"
  shows "publish_from (\<lambda>_. scripted script) scripted_wait (int m) e (int k) (b * 2 ^ k)
      (k, map (\<lambda>i. b * 2 ^ i) [0..<k]) =
    (case find (\<lambda>i. script i = None) [k..<Suc m] of
       Some n \<Rightarrow> (Delivered, (n + 1, map (\<lambda>i. b * 2 ^ i) [0..<n]))
     | None \<Rightarrow> (Dropped, (m + 1, map (\<lambda>i. b * 2 ^ i) [0..<m])))"
  using assms
proof (induction "m - k" arbitrary: k)
  case 0
  then have "k = m" by simp
  then show ?case
    by (subst publish_from.simps) (auto simp: scripted_def publish_from.simps split: option.split)
next
  case (Suc d)
  then have less: "k < m" by simp
  have upt: "[k..<Suc m] = k # [Suc k..<Suc m]" using less by (simp add: upt_conv_Cons)
  show ?case
  proof (cases "script k")
    case None
    then show ?thesis
      unfolding upt by (subst publish_from.simps) (use less in \<open>simp add: scripted_def\<close>)
  next
    case (Some err)
    have upper: "b * 2 ^ (k + 1) \<le> b * 2 ^ m"
      using less Suc.prems(2) by (intro mult_left_mono power_increasing) auto
    have lower: "0 \<le> b * 2 ^ (k + 1)" using Suc.prems(2) by simp
    have "in_int64 (b * 2 ^ (k + 1))"
      unfolding in_int64_def using upper lower Suc.prems(3) by linarith
    moreover have "b * 2 ^ k * 2 = b * 2 ^ (k + 1)" by simp
    ultimately have wrap: "to_int64 (b * 2 ^ k * 2) = b * 2 ^ (k + 1)"
      by (simp only: to_int64_id)
    have "publish_from (\<lambda>_. scripted script) scripted_wait (int m) e (int k) (b * 2 ^ k)
        (k, map (\<lambda>i. b * 2 ^ i) [0..<k])
      = publish_from (\<lambda>_. scripted script) scripted_wait (int m) e (int (Suc k)) (b * 2 ^ Suc k)
        (Suc k, map (\<lambda>i. b * 2 ^ i) [0..<Suc k])"
      by (subst publish_from.simps)
        (use less Some wrap in \<open>simp add: scripted_def scripted_wait_def algebra_simps\<close>)
    also have "\<dots> = (case find (\<lambda>i. script i = None) [Suc k..<Suc m] of
        Some n \<Rightarrow> (Delivered, (n + 1, map (\<lambda>i. b * 2 ^ i) [0..<n]))
      | None \<Rightarrow> (Dropped, (m + 1, map (\<lambda>i. b * 2 ^ i) [0..<m])))"
      by (rule Suc.hyps(1)) (use Suc less Some in \<open>auto simp: less_Suc_eq\<close>)
    finally show ?thesis unfolding upt using Some by simp
  qed
qed

text \<open>
  The retry schedule of a status event.  With \<open>m\<close> retries configured at most \<open>m + 1\<close> attempts
  are made, the first that succeeds delivers the event and ends the loop, after \<open>m + 1\<close> failures it
  is dropped; before retry \<open>i\<close> the monitor waits \<open>2^i\<close> times the configured interval, as long as
  that fits in a duration.
\<close>

theorem publish_retry_schedule:
  assumes "mo_PublishRetryMax cfg = int m" "0 \<le> mo_PublishRetryInterval cfg"
    and "mo_PublishRetryInterval cfg * 2 ^ m < 2 ^ 63"
  shows "publishWithRetry (\<lambda>_. scripted script) scripted_wait cfg event (0, []) =
    (case first_ok script (m + 1) of
       Some n \<Rightarrow> (Delivered, (n + 1, map (\<lambda>i. mo_PublishRetryInterval cfg * 2 ^ i) [0..<n]))
     | None \<Rightarrow> (Dropped, (m + 1, map (\<lambda>i. mo_PublishRetryInterval cfg * 2 ^ i) [0..<m])))"
  using publish_from_script[of 0 m "mo_PublishRetryInterval cfg" script event] assms
  by (simp add: publishWithRetry_def first_ok_def del: upt_Suc)

definition sample_monitoring :: MonitoringConfig where
  "sample_monitoring = \<lparr>mo_NATSUrl = [], mo_DebounceInterval = 1000000000, mo_ResyncInterval = 600000000000,
     mo_PublishRetryMax = 3, mo_PublishRetryInterval = 2000000000\<rparr>"

definition sample_event :: StatusEvent where
  "sample_event = \<lparr>ev_InstanceID = ''id-1'', ev_Status = READY, ev_Message = []\<rparr>"

theorem publish_retry_schedule_witness:
  "publishWithRetry (\<lambda>_. scripted (\<lambda>i. if i = 2 then None else Some (PlainError ''down''))) scripted_wait
     sample_monitoring sample_event (0, []) = (Delivered, (3, [2000000000, 4000000000]))"
  using publish_retry_schedule[of sample_monitoring 3 "\<lambda>i. if i = 2 then None else Some (PlainError ''down'')" sample_event]
  by (simp add: sample_monitoring_def first_ok_def upt_rec)

end
