(* ===== verification/StatusPipeline.thy ===== *)
theory StatusPipeline
  imports Debouncer Publish
begin

text \<open>
  The wiring of \<open>StatusMonitor.Start\<close> in \<open>internal/monitoring/monitor.go\<close>.  Each of the two informers
  calls its handlers from a goroutine of its own: a handler computes a status event under the lock of
  the tracker and, after giving the lock back, submits it to the debouncer.  So a goroutine can hold
  an event that is computed and not submitted yet, and the steps of the two goroutines and of the
  debouncer interleave.  The debouncer hands its events to \<open>publishWithRetry\<close>, which delivers an event,
  drops it after its retries, or gives it up when the context ends.
\<close>

record pipeline =
  pp_rec :: reconcileState
  pp_held :: "resourceType \<Rightarrow> (string \<times> StatusEvent) option"
  pp_db :: debouncer
  pp_finished :: "(string \<times> StatusEvent \<times> delivery) list" \<comment> \<open>how each call of \<open>publishWithRetry\<close> ended, latest first\<close>

definition new_pipeline :: pipeline where
  "new_pipeline = \<lparr>pp_rec = Map.empty, pp_held = (\<lambda>_. None), pp_db = NewDebouncer, pp_finished = []\<rparr>"

text \<open>What reached the broker, latest first.\<close>

definition delivered :: "pipeline \<Rightarrow> (string \<times> StatusEvent) list" where
  "delivered s = List.map_filter (\<lambda>(k, e, out). if out = Delivered then Some (k, e) else None) (pp_finished s)"

text \<open>The ends a call of \<open>publishWithRetry\<close> can come to; the world it meets depends on when it runs.\<close>

definition retry_outcome ::
  "(StatusEvent \<Rightarrow> 's \<Rightarrow> go_error option \<times> 's) \<Rightarrow> (duration \<Rightarrow> 's \<Rightarrow> bool \<times> 's) \<Rightarrow> MonitoringConfig \<Rightarrow>
   StatusEvent \<Rightarrow> delivery \<Rightarrow> bool" where
  "retry_outcome publish wait cfg event out \<longleftrightarrow> (\<exists>w. fst (publishWithRetry publish wait cfg event w) = out)"

definition informer_of :: "informer_event \<Rightarrow> resourceType" where
  "informer_of ev =
     (case ev of
        HCSeen obj \<Rightarrow> resourceTypeHostedCluster
      | HCDeleted obj \<Rightarrow> resourceTypeHostedCluster
      | NPSeen obj \<Rightarrow> resourceTypeNodePool
      | NPDeleted obj \<Rightarrow> resourceTypeNodePool)"

datatype pp_label =
    PHandle informer_event
  | PSubmit resourceType
  | PDebounce db_label
  | PFinish "string \<times> StatusEvent" delivery

text \<open>A handler call up to the release of the lock, and the submission that ends it.\<close>

definition handle_call :: "informer_event \<Rightarrow> pipeline \<Rightarrow> pipeline" where
  "handle_call ev s =
     (case handle_event ev (pp_rec s) of ((iid, event), st) \<Rightarrow>
        s\<lparr>pp_rec := st, pp_held := (pp_held s)(informer_of ev := map_option (Pair iid) event)\<rparr>)"

definition submit_held :: "resourceType \<Rightarrow> string \<Rightarrow> StatusEvent \<Rightarrow> pipeline \<Rightarrow> pipeline" where
  "submit_held rt key event s =
     s\<lparr>pp_held := (pp_held s)(rt := None), pp_db := Submit key event (pp_db s)\<rparr>"

text \<open>The end of a call of \<open>publishFn\<close>: the debouncer sees it return, the event is delivered or not.\<close>

definition finish_call :: "string \<times> StatusEvent \<Rightarrow> delivery \<Rightarrow> debouncer \<Rightarrow> pipeline \<Rightarrow> pipeline" where
  "finish_call x out d s = s\<lparr>pp_db := d, pp_finished := (fst x, snd x, out) # pp_finished s\<rparr>"

text \<open>The steps, for a relation \<open>oc\<close> that says how the publication of an event can end.\<close>

inductive pp_step :: "(StatusEvent \<Rightarrow> delivery \<Rightarrow> bool) \<Rightarrow> pipeline \<Rightarrow> pp_label \<Rightarrow> pipeline \<Rightarrow> bool" for oc where
  pp_handle: "pp_held s (informer_of ev) = None \<Longrightarrow> pp_step oc s (PHandle ev) (handle_call ev s)"
| pp_submit: "pp_held s rt = Some (k, e) \<Longrightarrow> pp_step oc s (PSubmit rt) (submit_held rt k e s)"
| pp_debounce: "db_step (pp_db s) l d \<Longrightarrow> (\<And>k e. l \<noteq> LSubmit k e) \<Longrightarrow> (\<And>x. l \<noteq> LFinish x) \<Longrightarrow>
    pp_step oc s (PDebounce l) (s\<lparr>pp_db := d\<rparr>)"
| pp_finish: "db_step (pp_db s) (LFinish x) d \<Longrightarrow> oc (snd x) out \<Longrightarrow>
    pp_step oc s (PFinish x out) (finish_call x out d s)"

definition handled :: "pp_label list \<Rightarrow> informer_event list" where
  "handled ls = List.map_filter (\<lambda>l. case l of PHandle ev \<Rightarrow> Some ev | _ \<Rightarrow> None) ls"

lemma handled_simps [simp]:
  "handled [] = []" "handled (ls @ [l]) = handled ls @ (case l of PHandle ev \<Rightarrow> [ev] | _ \<Rightarrow> [])"
  by (auto simp: handled_def map_filter_def split: pp_label.splits)

inductive pp_run :: "(StatusEvent \<Rightarrow> delivery \<Rightarrow> bool) \<Rightarrow> pp_label list \<Rightarrow> pipeline \<Rightarrow> bool" for oc where
  pp_start: "pp_run oc [] new_pipeline"
| pp_more: "pp_run oc ls s \<Longrightarrow> pp_step oc s l s' \<Longrightarrow> pp_run oc (ls @ [l]) s'"

subsection \<open>What observers should know\<close>

definition tracked_run :: "string \<Rightarrow> informer_event list \<Rightarrow> tracked" where
  "tracked_run i evs = fold (\<lambda>ev t. if event_instance ev = i then track ev t else t) evs (None, None)"

fun is_hc_deletion :: "informer_event \<Rightarrow> bool" where
  "is_hc_deletion (HCDeleted d) = True"
| "is_hc_deletion _ = False"

definition told :: "string \<Rightarrow> informer_event list \<Rightarrow> ClusterStatus option" where
  "told i evs =
     (case public_status (tracked_run i evs) of
        Some p \<Rightarrow> Some p
      | None \<Rightarrow> if list_ex (\<lambda>ev. event_instance ev = i \<and> is_hc_deletion ev) evs then Some DELETED else None)"

text \<open>
  The serial runs: no handler runs while an event of its instance is computed and not submitted, no
  event is submitted while an expired timer of its key waits, and no publication starts while
  another one of its key is in flight.
\<close>

fun serial :: "pipeline \<Rightarrow> pp_label \<Rightarrow> bool" where
  "serial s (PHandle ev) \<longleftrightarrow> (\<forall>rt k e. pp_held s rt = Some (k, e) \<longrightarrow> k \<noteq> event_instance ev)"
| "serial s (PSubmit rt) \<longleftrightarrow>
     (\<forall>k e p. pp_held s rt = Some (k, e) \<longrightarrow> p \<in> set (db_fired (pp_db s)) \<longrightarrow> fst (snd p) \<noteq> k)"
| "serial s (PDebounce (LCallback p)) \<longleftrightarrow> fst (snd p) \<notin> fst ` set (db_inflight (pp_db s))"
| "serial s (PDebounce l) \<longleftrightarrow> True"
| "serial s (PFinish x out) \<longleftrightarrow> True"

inductive serial_run :: "(StatusEvent \<Rightarrow> delivery \<Rightarrow> bool) \<Rightarrow> pp_label list \<Rightarrow> pipeline \<Rightarrow> bool" for oc where
  serial_start: "serial_run oc [] new_pipeline"
| serial_more: "serial_run oc ls s \<Longrightarrow> pp_step oc s l s' \<Longrightarrow> serial s l \<Longrightarrow> serial_run oc (ls @ [l]) s'"

lemma serial_run_is_run: "serial_run oc ls s \<Longrightarrow> pp_run oc ls s"
  by (induction rule: serial_run.induct) (auto intro: pp_run.intros)

subsection \<open>The tracker side\<close>

lemma tracked_run_simps [simp]:
  "tracked_run i [] = (None, None)"
  "tracked_run i (evs @ [ev]) = (if event_instance ev = i then track ev (tracked_run i evs) else tracked_run i evs)"
  by (simp_all add: tracked_run_def)

lemma tracked_step:
  assumes "handle_event ev st = (out, st')" "i = event_instance ev" "i \<noteq> []"
    and "is_lastPublished (getOrCreate st i) = public_status (abs_instance st i)"
  shows "tracked_of (getOrCreate st' i) = track ev (tracked_of (getOrCreate st i))"
  using step_refines[OF assms]
  by (cases ev) (simp_all add: refines_step_def getOrCreate_None track_def tracked_of_def[of new_instance])

lemma tracked_run_abs:
  "i \<noteq> [] \<Longrightarrow> abs_instance (fold (\<lambda>ev st. snd (handle_event ev st)) evs Map.empty) i = tracked_run i evs"
proof (induction evs rule: rev_induct)
  case Nil
  then show ?case by (simp add: abs_instance_def getOrCreate_def)
next
  case (snoc ev evs)
  let ?st = "fold (\<lambda>ev st. snd (handle_event ev st)) evs Map.empty"
  obtain out st' where step: "handle_event ev ?st = (out, st')" by (cases "handle_event ev ?st")
  have "coherent ?st" by (rule coherent_run[OF coherent_initial])
  then have base: "is_lastPublished (getOrCreate ?st i) = public_status (abs_instance ?st i)"
    by (simp add: coherent_def)
  show ?case
  proof (cases "event_instance ev = i")
    case True
    then show ?thesis
      using tracked_step[OF step True[symmetric] snoc.prems base] snoc step by (simp add: abs_instance_tracked)
  next
    case False
    then show ?thesis
      using other_instances[OF _ step, of i] snoc step by (simp add: abs_instance_def getOrCreate_def)
  qed
qed

text \<open>A step announces exactly the change of what observers should know about its instance.\<close>

lemma track_public_None:
  "\<not> is_hc_deletion ev \<Longrightarrow> public_status (track ev t) = None \<Longrightarrow> public_status t = None"
  by (cases ev) (auto simp: track_def public_status_def)

lemma told_step:
  assumes "st = fold (\<lambda>ev st. snd (handle_event ev st)) evs Map.empty" "handle_event ev st = ((k, event), st')"
    and "i = event_instance ev" "i \<noteq> []"
  shows "case event of None \<Rightarrow> told i (evs @ [ev]) = told i evs
    | Some e \<Rightarrow> k = i \<and> told i (evs @ [ev]) = Some (ev_Status e)"
proof -
  have "coherent st" unfolding assms(1) by (rule coherent_run[OF coherent_initial])
  then have base: "is_lastPublished (getOrCreate st i) = public_status (abs_instance st i)"
    by (simp add: coherent_def)
  have now: "tracked_of (getOrCreate st i) = tracked_run i evs"
    using tracked_run_abs[OF assms(4), of evs] assms(1) by (simp add: abs_instance_tracked)
  note step = step_refines[OF assms(2-4) base]
  show ?thesis
  proof (cases "is_hc_deletion ev")
    case True
    then obtain d where "ev = HCDeleted d" by (cases ev) auto
    then show ?thesis using step assms(3) by (simp add: told_def track_def public_status_def)
  next
    case False
    then have ref: "refines_step ev i (getOrCreate st i) (k, event) (getOrCreate st' i)"
      using step by (cases ev) simp_all
    let ?before = "public_status (tracked_run i evs)" and ?after = "public_status (track ev (tracked_run i evs))"
    have "tracked_of (getOrCreate st' i) = track ev (tracked_run i evs)" using ref now by (simp add: refines_step_def)
    then have ann: "announces i ?before ?after (k, event)" using ref now by (simp add: refines_step_def)
    have same: "?after = None \<Longrightarrow> ?before = None" by (rule track_public_None[OF False])
    show ?thesis
      using ann same False assms(3)
      by (auto simp: announces_def told_def split: option.splits if_splits)
  qed
qed

lemma told_other: "event_instance ev \<noteq> i \<Longrightarrow> told i (evs @ [ev]) = told i evs"
  by (simp add: told_def)


subsection \<open>The debouncer side\<close>

text \<open>
  A key is served when its latest event is still pending, or is the one in flight, or, with none in
  flight, was published last.
\<close>

definition served :: "debouncer \<Rightarrow> db_label list \<Rightarrow> string \<Rightarrow> bool" where
  "served d ls k \<longleftrightarrow>
     (\<exists>p \<in> pending_of d. fst (snd p) = k)
     \<or> (case map_of (db_inflight d) k of
          Some e \<Rightarrow> latest ls k = Some e
        | None \<Rightarrow> map_of (db_returned d) k = latest ls k)"

definition in_order :: "debouncer \<Rightarrow> db_label list \<Rightarrow> bool" where
  "in_order d ls \<longleftrightarrow> distinct (map fst (db_inflight d)) \<and> (\<forall>k. served d ls k)"

lemma served_pending: "p \<in> pending_of d \<Longrightarrow> served d ls (fst (snd p))"
  by (auto simp: served_def)

lemma in_order_submit:
  assumes "in_order d ls" "\<not> db_stopped d" "well_keyed d"
  shows "in_order (Submit k e d) (ls @ [LSubmit k e])"
  unfolding in_order_def
proof
  have same: "db_inflight (Submit k e d) = db_inflight d" "db_returned (Submit k e d) = db_returned d"
    by (simp_all add: Submit_def Let_def)
  then show "distinct (map fst (db_inflight (Submit k e d)))" using assms(1) by (simp add: in_order_def)
  have kept: "p \<in> pending_of (Submit k e d)" if "p \<in> pending_of d" "fst (snd p) \<noteq> k" for p
    using that assms(3) unfolding pending_submit[OF assms(2)] well_keyed_def by (auto simp: pending_of_def)
  show "\<forall>j. served (Submit k e d) (ls @ [LSubmit k e]) j"
  proof
    fix j
    show "served (Submit k e d) (ls @ [LSubmit k e]) j"
    proof (cases "j = k")
      case True
      then show ?thesis unfolding served_def pending_submit[OF assms(2)] by auto
    next
      case False
      have "served d ls j" using assms(1) by (simp add: in_order_def)
      then show ?thesis using kept False unfolding served_def by (auto simp: same split: option.splits)
    qed
  qed
qed

lemma in_order_same:
  assumes "in_order d ls" "pending_of d' = pending_of d" "db_inflight d' = db_inflight d"
    "db_returned d' = db_returned d" "\<And>k. latest ls' k = latest ls k"
  shows "in_order d' ls'"
proof -
  have "latest ls' = latest ls" using assms(5) by (rule ext)
  then show ?thesis using assms(1-4) by (simp add: in_order_def served_def cong: option.case_cong)
qed

lemma in_order_callback:
  assumes "in_order d ls" "current d ls" "p \<in> set (db_fired d)" "\<not> db_stopped d"
    and free: "fst (snd p) \<notin> fst ` set (db_inflight d)"
  shows "in_order (callback p d) (ls @ [LCallback p])"
  unfolding in_order_def
proof
  have lists: "db_inflight (callback p d) = snd p # db_inflight d" "db_returned (callback p d) = db_returned d"
    "pending_of (callback p d) = set (db_armed d) \<union> set (remove1 p (db_fired d))"
    using assms(4) by (simp_all add: callback_def pending_of_def Let_def)
  show "distinct (map fst (db_inflight (callback p d)))" using assms(1) free by (simp add: lists in_order_def)
  show "\<forall>j. served (callback p d) (ls @ [LCallback p]) j"
  proof
    fix j
    have p: "p \<in> pending_of d" using assms(3) by (simp add: pending_of_def)
    then have last: "latest ls (fst (snd p)) = Some (snd (snd p))" using assms(2,4) by (simp add: current_def)
    show "served (callback p d) (ls @ [LCallback p]) j"
    proof (cases "j = fst (snd p)")
      case True
      moreover have "map_of (snd p # db_inflight d) (fst (snd p)) = Some (snd (snd p))"
        by (cases "snd p") simp
      ultimately show ?thesis using last by (simp add: served_def lists)
    next
      case False
      have "served d ls j" using assms(1) by (simp add: in_order_def)
      moreover have "q \<in> pending_of (callback p d)" if "q \<in> pending_of d" "fst (snd q) = j" for q
        using that False in_remove1[of q "db_fired d" p] by (auto simp: lists(3) pending_of_def[of d])
      moreover have "map_of (snd p # db_inflight d) j = map_of (db_inflight d) j"
        using False by (cases "snd p") simp
      ultimately show ?thesis unfolding served_def lists(1,2) by (auto cong: option.case_cong)
    qed
  qed
qed

lemma map_of_remove1:
  "distinct (map fst xs) \<Longrightarrow> (k, e) \<in> set xs \<Longrightarrow>
   map_of (remove1 (k, e) xs) j = (if j = k then None else map_of xs j)"
proof (induction xs)
  case (Cons x xs)
  show ?case
  proof (cases "x = (k, e)")
    case True
    then show ?thesis using Cons.prems(1) by (auto simp: map_of_eq_None_iff)
  next
    case False
    then have "fst x \<noteq> k" using Cons.prems by (auto simp: image_iff)
    then show ?thesis using Cons False by (cases x) auto
  qed
qed simp

lemma in_order_finish:
  assumes "in_order d ls" "(k, e) \<in> set (db_inflight d)"
  shows "in_order (d\<lparr>db_inflight := remove1 (k, e) (db_inflight d), db_returned := (k, e) # db_returned d\<rparr>)
    (ls @ [LFinish (k, e)])" (is "in_order ?d ?ls")
  unfolding in_order_def
proof
  have dist: "distinct (map fst (db_inflight d))" using assms(1) by (simp add: in_order_def)
  then show "distinct (map fst (db_inflight ?d))"
    by (simp add: distinct_map distinct_remove1 inj_on_diff set_remove1_eq)
  show "\<forall>j. served ?d ?ls j"
  proof
    fix j
    have "served d ls j" using assms(1) by (simp add: in_order_def)
    moreover have "map_of (db_inflight d) k = Some e" using dist assms(2) by simp
    ultimately show "served ?d ?ls j"
      using map_of_remove1[OF dist assms(2), of j]
      by (auto simp: served_def pending_of_def split: if_splits option.splits)
  qed
qed

definition serial_db :: "debouncer \<Rightarrow> db_label \<Rightarrow> bool" where
  "serial_db d l \<longleftrightarrow>
     (case l of
        LSubmit k e \<Rightarrow> \<forall>p \<in> set (db_fired d). fst (snd p) \<noteq> k
      | LCallback p \<Rightarrow> fst (snd p) \<notin> fst ` set (db_inflight d)
      | _ \<Rightarrow> True)"

lemma in_order_step:
  assumes "db_step d l d'" "in_order d ls" "current d ls" "well_keyed d" "\<not> db_stopped d'" "serial_db d l"
  shows "in_order d' (ls @ [l])"
  using assms(1)
proof cases
  case (db_submit k e)
  have "\<not> db_stopped d" using assms(1,5) stopped_stays by blast
  then show ?thesis using db_submit in_order_submit[OF assms(2) _ assms(4)] by simp
next
  case (db_expire p)
  show ?thesis
    by (rule in_order_same[OF assms(2)])
      (use db_expire assms(3) in \<open>auto simp: pending_of_def current_def\<close>)
next
  case (db_callback p)
  have "\<not> db_stopped d" using assms(1,5) stopped_stays by blast
  then show ?thesis
    using db_callback in_order_callback[OF assms(2,3)] assms(6) by (simp add: serial_db_def)
next
  case (db_finish x)
  then show ?thesis using in_order_finish[OF assms(2), of "fst x" "snd x"] by simp
next
  case db_stop
  then show ?thesis using assms(5) by (simp add: Stop_def)
qed


subsection \<open>The invariant of serial runs\<close>

text \<open>The newest event of an instance: the one a goroutine still holds, else the latest submitted.\<close>

definition held_for :: "pipeline \<Rightarrow> string \<Rightarrow> resourceType \<Rightarrow> StatusEvent option" where
  "held_for s i rt = (case pp_held s rt of Some (k, e) \<Rightarrow> if k = i then Some e else None | None \<Rightarrow> None)"

definition newest :: "pipeline \<Rightarrow> db_label list \<Rightarrow> string \<Rightarrow> StatusEvent option" where
  "newest s dl i =
     (case held_for s i resourceTypeHostedCluster of
        Some e \<Rightarrow> Some e
      | None \<Rightarrow> (case held_for s i resourceTypeNodePool of Some e \<Rightarrow> Some e | None \<Rightarrow> latest dl i))"

definition one_holder :: "pipeline \<Rightarrow> bool" where
  "one_holder s \<longleftrightarrow>
     (\<forall>i rt rt'. held_for s i rt \<noteq> None \<longrightarrow> held_for s i rt' \<noteq> None \<longrightarrow> rt = rt')"

definition informed :: "pipeline \<Rightarrow> db_label list \<Rightarrow> informer_event list \<Rightarrow> bool" where
  "informed s dl evs \<longleftrightarrow>
     pp_rec s = fold (\<lambda>ev st. snd (handle_event ev st)) evs Map.empty
     \<and> one_holder s \<and> (\<forall>i. i \<noteq> [] \<longrightarrow> map_option ev_Status (newest s dl i) = told i evs)"

lemma newest_held:
  assumes "one_holder s" "held_for s i rt = Some e"
  shows "newest s dl i = Some e"
proof (cases rt)
  case resourceTypeNodePool
  have "held_for s i resourceTypeHostedCluster = None"
    using assms resourceTypeNodePool unfolding one_holder_def by (metis option.distinct(1) resourceType.distinct(1))
  then show ?thesis using assms(2) resourceTypeNodePool by (simp add: newest_def)
qed (use assms(2) in \<open>simp add: newest_def\<close>)

lemma newest_free: "(\<And>rt. held_for s i rt = None) \<Longrightarrow> newest s dl i = latest dl i"
  by (simp add: newest_def)

lemma newest_same:
  "(\<And>rt. held_for s' i rt = held_for s i rt) \<Longrightarrow> latest dl' i = latest dl i \<Longrightarrow> newest s' dl' i = newest s dl i"
  by (simp add: newest_def cong: option.case_cong)

lemma informed_handle:
  assumes "informed s dl evs" "pp_held s (informer_of ev) = None" "serial s (PHandle ev)"
  shows "informed (handle_call ev s) dl (evs @ [ev])"
proof -
  let ?i = "event_instance ev" and ?s = "handle_call ev s"
  obtain k event st where step: "handle_event ev (pp_rec s) = ((k, event), st)"
    by (metis prod.exhaust)
  have fields: "pp_rec ?s = st" "pp_held ?s = (pp_held s)(informer_of ev := map_option (Pair k) event)"
    by (simp_all add: handle_call_def step)
  have rec: "pp_rec s = fold (\<lambda>ev st. snd (handle_event ev st)) evs Map.empty"
    and known: "\<And>i. i \<noteq> [] \<Longrightarrow> map_option ev_Status (newest s dl i) = told i evs"
    and single: "one_holder s"
    using assms(1) by (simp_all add: informed_def)
  have free: "held_for s ?i rt = None" for rt
    using assms(3) by (auto simp: held_for_def split: option.split)
  have slot: "held_for s j (informer_of ev) = None" for j using assms(2) by (simp add: held_for_def)
  have silent: "event = None" if "?i = []" using no_instance_ignored[OF that] step by simp
  have mine: "k = ?i" if e: "event = Some e" for e
  proof -
    have "?i \<noteq> []"
    proof
      assume "?i = []"
      from silent[OF this] e show False by simp
    qed
    from told_step[OF rec step refl this] show ?thesis by (simp add: e)
  qed
  have held: "held_for ?s j rt = (if rt = informer_of ev \<and> j = ?i then event else held_for s j rt)" for j rt
    using slot[of j] mine by (auto simp: held_for_def fields split: option.splits)
  have "one_holder ?s"
    using single free unfolding one_holder_def held by auto
  moreover have "map_option ev_Status (newest ?s dl j) = told j (evs @ [ev])" if "j \<noteq> []" for j
  proof (cases "j = ?i \<and> event \<noteq> None")
    case True
    then obtain e where e: "event = Some e" by blast
    have "newest ?s dl j = Some e"
      by (rule newest_held[OF \<open>one_holder ?s\<close>, of _ "informer_of ev"]) (use True e held in simp)
    then show ?thesis using told_step[OF rec step refl] True that e by simp
  next
    case False
    have "newest ?s dl j = newest s dl j"
      by (rule newest_same) (use False free slot held in auto)
    moreover have "told j (evs @ [ev]) = told j evs"
      using told_step[OF rec step refl] False that by (cases "j = ?i") (auto simp: told_other)
    ultimately show ?thesis using known[OF that] by simp
  qed
  ultimately show ?thesis by (simp add: informed_def fields rec[symmetric] step)
qed

lemma informed_submit:
  assumes "informed s dl evs" "pp_held s rt = Some (k, e)"
  shows "informed (submit_held rt k e s) (dl @ [LSubmit k e]) evs"
proof -
  let ?s = "submit_held rt k e s" and ?dl = "dl @ [LSubmit k e]"
  have single: "one_holder s" using assms(1) by (simp add: informed_def)
  have mine: "held_for s j rt = (if j = k then Some e else None)" for j using assms(2) by (simp add: held_for_def)
  have held: "held_for ?s j rt' = (if rt' = rt then None else held_for s j rt')" for j rt'
    by (simp add: held_for_def submit_held_def)
  have others: "held_for s k rt' = None" if "rt' \<noteq> rt" for rt'
    using single mine[of k] that unfolding one_holder_def by (metis option.distinct(1))
  have "one_holder ?s" using single unfolding one_holder_def held by auto
  moreover have "newest ?s ?dl j = newest s dl j" for j
  proof (cases "j = k")
    case True
    have "newest ?s ?dl k = latest ?dl k" by (rule newest_free) (simp add: held others)
    then show ?thesis using newest_held[OF single, of k rt e] mine True by simp
  next
    case False
    then show ?thesis by (intro newest_same) (use held mine in auto)
  qed
  ultimately show ?thesis using assms(1) by (simp add: informed_def submit_held_def)
qed

lemma informed_db:
  assumes "informed s dl evs" "\<And>k e. l \<noteq> LSubmit k e" "pp_rec s' = pp_rec s" "pp_held s' = pp_held s"
  shows "informed s' (dl @ [l]) evs"
proof -
  have held: "held_for s' i rt = held_for s i rt" for i rt by (simp add: held_for_def assms(4))
  have "newest s' (dl @ [l]) i = newest s dl i" for i
    using assms(2) by (intro newest_same) (auto simp: held split: db_label.split)
  moreover have "one_holder s' = one_holder s" by (simp add: one_holder_def held)
  ultimately show ?thesis using assms(1,3) by (simp add: informed_def)
qed

text \<open>The calls that returned are those whose end is recorded.\<close>

definition all_recorded :: "pipeline \<Rightarrow> bool" where
  "all_recorded s \<longleftrightarrow> map (\<lambda>(k, e, out). (k, e)) (pp_finished s) = db_returned (pp_db s)"

lemma returned_step: "db_step d l d' \<Longrightarrow> (\<And>x. l \<noteq> LFinish x) \<Longrightarrow> db_returned d' = db_returned d"
  by (cases rule: db_step.cases) (auto simp: Submit_def callback_def Stop_def Let_def)

lemma all_recorded_step:
  assumes "pp_step oc s l s'" "all_recorded s"
  shows "all_recorded s'"
  using assms(1)
proof cases
  case (pp_submit rt k e)
  then show ?thesis using assms(2) by (simp add: all_recorded_def submit_held_def Submit_def Let_def)
next
  case (pp_debounce l d)
  then show ?thesis using assms(2) returned_step by (simp add: all_recorded_def)
next
  case (pp_finish x d out)
  from pp_finish(3) show ?thesis
    by cases (use pp_finish assms(2) in \<open>simp add: all_recorded_def finish_call_def\<close>)
qed (use assms(2) in \<open>auto simp: all_recorded_def handle_call_def split: prod.split\<close>)

lemma all_recorded_run: "pp_run oc ls s \<Longrightarrow> all_recorded s"
proof (induction rule: pp_run.induct)
  case pp_start
  then show ?case by (simp add: all_recorded_def new_pipeline_def NewDebouncer_def)
qed (rule all_recorded_step)

lemma delivered_last:
  assumes "all_recorded s" "\<And>e out. map_of (pp_finished s) i = Some (e, out) \<Longrightarrow> out = Delivered"
  shows "map_of (delivered s) i = map_of (db_returned (pp_db s)) i"
proof -
  have "map_of (List.map_filter (\<lambda>(k, e, out). if out = Delivered then Some (k, e) else None) fs) i =
      map_of (map (\<lambda>(k, e, out). (k, e)) fs) i"
    if "\<And>e out. map_of fs i = Some (e, out) \<Longrightarrow> out = Delivered" for fs :: "(string \<times> StatusEvent \<times> delivery) list"
    using that
  proof (induction fs)
    case (Cons f fs)
    obtain k e out where f: "f = (k, e, out)" by (cases f)
    show ?case
    proof (cases "k = i")
      case True
      then show ?thesis using Cons.prems[of e out] f by (simp add: map_filter_simps)
    next
      case False
      then show ?thesis using Cons f by (simp add: map_filter_simps)
    qed
  qed (simp add: map_filter_simps)
  from this[OF assms(2)] show ?thesis using assms(1) by (simp add: delivered_def all_recorded_def)
qed

lemma submit_stopped [simp]: "db_stopped (Submit k e d) = db_stopped d"
  by (simp add: Submit_def Let_def)

lemma serial_run_informed:
  "serial_run oc ls s \<Longrightarrow> \<not> db_stopped (pp_db s) \<Longrightarrow>
   \<exists>dl. informed s dl (handled ls) \<and> current (pp_db s) dl \<and> well_keyed (pp_db s) \<and> in_order (pp_db s) dl"
proof (induction rule: serial_run.induct)
  case serial_start
  have "informed new_pipeline [] []"
    by (simp add: informed_def new_pipeline_def one_holder_def held_for_def newest_def told_def public_status_def)
  moreover have "current NewDebouncer []" "in_order NewDebouncer []"
    by (simp_all add: current_def in_order_def served_def NewDebouncer_def pending_of_def)
  ultimately show ?case using well_keyed_new by (auto simp: new_pipeline_def)
next
  case (serial_more ls s l s')
  from serial_more.hyps(2) show ?case
  proof cases
    case (pp_handle ev)
    then have "\<not> db_stopped (pp_db s)" "pp_db s' = pp_db s"
      using serial_more.prems by (simp_all add: handle_call_def split: prod.splits)
    with serial_more.IH obtain dl where "informed s dl (handled ls)" and
      db: "current (pp_db s) dl" "well_keyed (pp_db s)" "in_order (pp_db s) dl" by blast
    with pp_handle serial_more.hyps(3) have "informed s' dl (handled (ls @ [l]))"
      using informed_handle by simp
    with db \<open>pp_db s' = pp_db s\<close> show ?thesis by auto
  next
    case (pp_submit rt k e)
    then have live: "\<not> db_stopped (pp_db s)" using serial_more.prems by (simp add: submit_held_def)
    with serial_more.IH obtain dl where inf: "informed s dl (handled ls)" and
      db: "current (pp_db s) dl" "well_keyed (pp_db s)" "in_order (pp_db s) dl" by blast
    have calm: "\<And>p. p \<in> set (db_fired (pp_db s)) \<Longrightarrow> fst (snd p) \<noteq> k"
      using serial_more.hyps(3) pp_submit(1,3) by (metis serial.simps(2))
    have "pp_db s' = Submit k e (pp_db s)" using pp_submit by (simp add: submit_held_def)
    moreover have "informed s' (dl @ [LSubmit k e]) (handled (ls @ [l]))"
      using informed_submit[OF inf] pp_submit by simp
    ultimately show ?thesis
      using current_submit[OF db(1,2) calm] well_keyed_submit[OF db(2)] in_order_submit[OF db(3) live db(2)]
      by auto
  next
    case (pp_debounce l' d)
    have live: "\<not> db_stopped (pp_db s)"
      using stopped_stays[OF pp_debounce(3)] serial_more.prems pp_debounce(2) by auto
    with serial_more.IH obtain dl where inf: "informed s dl (handled ls)" and
      db: "current (pp_db s) dl" "well_keyed (pp_db s)" "in_order (pp_db s) dl" by blast
    have "serial_db (pp_db s) l'"
      using serial_more.hyps(3) pp_debounce(1,4) by (cases l') (auto simp: serial_db_def)
    then have "in_order d (dl @ [l'])"
      using in_order_step[OF pp_debounce(3) db(3,1,2)] serial_more.prems pp_debounce(2) by simp
    moreover have "current d (dl @ [l'])" using current_step[OF pp_debounce(3) db(1,2)] pp_debounce(4) by blast
    moreover have "informed s' (dl @ [l']) (handled (ls @ [l]))"
      using informed_db[OF inf pp_debounce(4), of s'] pp_debounce(1,2) by simp
    ultimately show ?thesis using well_keyed_step[OF pp_debounce(3) db(2)] pp_debounce(2) by auto
  next
    case (pp_finish x d out)
    have now: "pp_db s' = d" "pp_rec s' = pp_rec s" "pp_held s' = pp_held s"
      using pp_finish(2) by (simp_all add: finish_call_def)
    have live: "\<not> db_stopped (pp_db s)" using stopped_stays[OF pp_finish(3)] serial_more.prems now(1) by auto
    with serial_more.IH obtain dl where inf: "informed s dl (handled ls)" and
      db: "current (pp_db s) dl" "well_keyed (pp_db s)" "in_order (pp_db s) dl" by blast
    have "in_order d (dl @ [LFinish x])"
      using in_order_step[OF pp_finish(3) db(3,1,2)] serial_more.prems now(1) by (simp add: serial_db_def)
    moreover have "current d (dl @ [LFinish x])" using current_step[OF pp_finish(3) db(1,2)] by simp
    moreover have "informed s' (dl @ [LFinish x]) (handled (ls @ [l]))"
      using informed_db[OF inf _ now(2,3), of "LFinish x"] pp_finish(1) by simp
    ultimately show ?thesis using well_keyed_step[OF pp_finish(3) db(2)] now(1) by auto
  qed
qed

text \<open>
  C7: where the status pipeline settles.  In a serial run, once no handler holds an event and the
  debouncer, not stopped, has nothing pending or in flight, the last publication attempted for every instance is
  of the worst of the last statuses seen of its two resources, of \<open>DELETED\<close> after the deletion of its
  HostedCluster, and there was none when there is nothing to tell.  If \<open>publishWithRetry\<close> delivered that
  event, instead of dropping it after its retries or being cancelled, it is the last one delivered.
\<close>

theorem pipeline_settles:
  assumes "serial_run (retry_outcome publish wait cfg) ls s" "\<not> db_stopped (pp_db s)"
    and "pp_held s = (\<lambda>_. None)" "pending_of (pp_db s) = {}" "db_inflight (pp_db s) = []" "i \<noteq> []"
  shows "map_option (ev_Status \<circ> fst) (map_of (pp_finished s) i) = told i (handled ls)
    \<and> ((\<forall>e out. map_of (pp_finished s) i = Some (e, out) \<longrightarrow> out = Delivered) \<longrightarrow>
         map_option ev_Status (map_of (delivered s) i) = told i (handled ls))"
proof -
  obtain dl where dl: "informed s dl (handled ls)" "in_order (pp_db s) dl"
    using serial_run_informed[OF assms(1,2)] by blast
  have "newest s dl i = latest dl i" by (rule newest_free) (simp add: held_for_def assms(3))
  moreover have "served (pp_db s) dl i" using dl(2) by (simp add: in_order_def)
  then have "map_of (db_returned (pp_db s)) i = latest dl i"
    using assms(4,5) by (simp add: served_def)
  moreover have "map_option ev_Status (newest s dl i) = told i (handled ls)"
    using dl(1) assms(6) by (simp add: informed_def)
  ultimately have last: "map_option ev_Status (map_of (db_returned (pp_db s)) i) = told i (handled ls)" by simp
  have rec: "all_recorded s" by (rule all_recorded_run[OF serial_run_is_run[OF assms(1)]])
  have "map_of (map (\<lambda>(k, e, out). (k, e)) fs) i = map_option fst (map_of fs i)"
    for fs :: "(string \<times> StatusEvent \<times> delivery) list" by (induction fs) auto
  from this[of "pp_finished s"] have "map_of (db_returned (pp_db s)) i = map_option fst (map_of (pp_finished s) i)"
    using rec by (simp only: all_recorded_def)
  then show ?thesis using last delivered_last[OF rec, of i] by (auto simp: option.map_comp)
qed


subsection \<open>Concrete runs\<close>

fun pp_exec :: "pp_label \<Rightarrow> pipeline \<Rightarrow> pipeline" where
  "pp_exec (PHandle ev) s = handle_call ev s"
| "pp_exec (PSubmit rt) s = (case pp_held s rt of Some (k, e) \<Rightarrow> submit_held rt k e s | None \<Rightarrow> s)"
| "pp_exec (PDebounce l) s = s\<lparr>pp_db := db_exec l (pp_db s)\<rparr>"
| "pp_exec (PFinish x out) s = finish_call x out (db_exec (LFinish x) (pp_db s)) s"

fun pp_enabled :: "(StatusEvent \<Rightarrow> delivery \<Rightarrow> bool) \<Rightarrow> pp_label \<Rightarrow> pipeline \<Rightarrow> bool" where
  "pp_enabled oc (PHandle ev) s \<longleftrightarrow> pp_held s (informer_of ev) = None"
| "pp_enabled oc (PSubmit rt) s \<longleftrightarrow> pp_held s rt \<noteq> None"
| "pp_enabled oc (PDebounce (LSubmit k e)) s \<longleftrightarrow> False"
| "pp_enabled oc (PDebounce (LFinish x)) s \<longleftrightarrow> False"
| "pp_enabled oc (PDebounce l) s \<longleftrightarrow> db_enabled l (pp_db s)"
| "pp_enabled oc (PFinish x out) s \<longleftrightarrow> db_enabled (LFinish x) (pp_db s) \<and> oc (snd x) out"

fun enabled_all ::
  "(StatusEvent \<Rightarrow> delivery \<Rightarrow> bool) \<Rightarrow> (pipeline \<Rightarrow> pp_label \<Rightarrow> bool) \<Rightarrow> pp_label list \<Rightarrow> pipeline \<Rightarrow> bool" where
  "enabled_all oc P [] s = True"
| "enabled_all oc P (l # ls) s \<longleftrightarrow> pp_enabled oc l s \<and> P s l \<and> enabled_all oc P ls (pp_exec l s)"

lemma pp_exec_step:
  assumes "pp_enabled oc l s"
  shows "pp_step oc s l (pp_exec l s)"
proof (cases l)
  case (PHandle ev)
  then show ?thesis using assms by (auto intro: pp_handle)
next
  case (PSubmit rt)
  then show ?thesis using assms by (auto intro: pp_submit)
next
  case (PDebounce l')
  then have "db_enabled l' (pp_db s)" "\<And>k e. l' \<noteq> LSubmit k e" "\<And>x. l' \<noteq> LFinish x" using assms by (cases l'; simp)+
  then show ?thesis using pp_debounce[OF db_exec_step] PDebounce by auto
next
  case (PFinish x out)
  then have en: "db_enabled (LFinish x) (pp_db s)" "oc (snd x) out" using assms by simp_all
  show ?thesis
    unfolding PFinish pp_exec.simps by (rule pp_finish[where oc = oc, OF db_exec_step[OF en(1)]]) (rule en(2))
qed

lemma pp_run_exec:
  "enabled_all oc P ls s \<Longrightarrow> pp_run oc ls0 s \<Longrightarrow> pp_run oc (ls0 @ ls) (fold pp_exec ls s)"
proof (induction ls arbitrary: s ls0)
  case (Cons l ls)
  then have "pp_run oc (ls0 @ [l]) (pp_exec l s)" by (auto intro: pp_more pp_exec_step)
  then show ?case using Cons.IH[of "pp_exec l s" "ls0 @ [l]"] Cons.prems(1) by simp
qed simp

lemma serial_run_exec:
  "enabled_all oc serial ls s \<Longrightarrow> serial_run oc ls0 s \<Longrightarrow> serial_run oc (ls0 @ ls) (fold pp_exec ls s)"
proof (induction ls arbitrary: s ls0)
  case (Cons l ls)
  then have "serial_run oc (ls0 @ [l]) (pp_exec l s)" by (auto intro: serial_more pp_exec_step)
  then show ?case using Cons.IH[of "pp_exec l s" "ls0 @ [l]"] Cons.prems(1) by simp
qed simp

text \<open>A broker that is up or down, as the world says; nothing cancels the waits.\<close>

definition broker_Publish :: "StatusEvent \<Rightarrow> bool \<Rightarrow> go_error option \<times> bool" where
  "broker_Publish event up = (if up then None else Some (PlainError ''nats: connection closed''), up)"

definition no_cancel :: "duration \<Rightarrow> bool \<Rightarrow> bool \<times> bool" where
  "no_cancel d up = (False, up)"

abbreviation sample_outcome :: "StatusEvent \<Rightarrow> delivery \<Rightarrow> bool" where
  "sample_outcome \<equiv> retry_outcome broker_Publish no_cancel sample_monitoring"

lemma sample_outcomes: "sample_outcome event Delivered" "sample_outcome event Dropped"
proof -
  have "publishWithRetry broker_Publish no_cancel sample_monitoring event True = (Delivered, True)"
    by (simp add: publishWithRetry_def publish_from.simps broker_Publish_def sample_monitoring_def)
  then show "sample_outcome event Delivered" unfolding retry_outcome_def by (intro exI[of _ True]) simp
  have "publishWithRetry broker_Publish no_cancel sample_monitoring event False = (Dropped, False)"
    by (simp add: publishWithRetry_def publish_from.simps broker_Publish_def no_cancel_def sample_monitoring_def)
  then show "sample_outcome event Dropped" unfolding retry_outcome_def by (intro exI[of _ False]) simp
qed

definition hc_ready :: informer_event where
  "hc_ready = HCSeen (seen_object ''a'' [(''Available'', ''True'')])"

definition hc_failed :: informer_event where
  "hc_failed = HCSeen (seen_object ''a'' [(''Degraded'', ''True'')])"

definition np_down :: informer_event where
  "np_down = NPSeen (seen_object ''a'' [(''Ready'', ''False'')])"

definition status_event :: "ClusterStatus \<Rightarrow> string \<Rightarrow> StatusEvent" where
  "status_event st msg = \<lparr>ev_InstanceID = ''a'', ev_Status = st, ev_Message = msg\<rparr>"

definition ready_instance :: instanceState where
  "ready_instance = \<lparr>is_hcStatus = Some READY, is_npStatus = None, is_hcMsg = [], is_npMsg = [],
     is_lastPublished = Some READY, is_seenHC = ''demo'', is_seenNP = []\<rparr>"

lemmas sample_mapping =
  MapConditionsToStatus_def MapNodePoolConditionsToStatus_def ConditionTrue_def ConditionFalse_def
  ComputeCompositeStatus_def compositeMessage_def extractHostedClusterMessage_def
  extractNodePoolMessage_def StatusPriority_of_def

lemma seen_object_name: "us_Name (seen_object i conds) = ''demo''"
  by (simp add: seen_object_def)

lemma sample_steps:
  "handle_event hc_ready Map.empty = ((''a'', Some (status_event READY [])), [''a'' \<mapsto> ready_instance])"
  "\<exists>st. handle_event hc_failed [''a'' \<mapsto> ready_instance] = ((''a'', Some (status_event FAILED ''m'')), st)"
  "\<exists>st. handle_event np_down [''a'' \<mapsto> ready_instance] = ((''a'', Some (status_event UNAVAILABLE ''NodePool: m'')), st)"
  by (simp_all add: hc_ready_def hc_failed_def np_down_def handle_event_def reconcileResource_def reconcile_hc_def
      reconcile_np_def seen_object_facts sample_mapping getOrCreate_def new_instance_def publish_composite_cases
      ready_instance_def status_event_def mark_seen_def seen_object_name Let_def)

lemma sample_informers:
  "informer_of hc_ready = resourceTypeHostedCluster" "informer_of hc_failed = resourceTypeHostedCluster"
  "informer_of np_down = resourceTypeNodePool"
  "event_instance hc_ready = ''a''" "event_instance hc_failed = ''a''" "event_instance np_down = ''a''"
  by (simp_all add: informer_of_def hc_ready_def hc_failed_def np_down_def event_instance_def seen_object_facts)

lemma sample_told:
  "told ''a'' [hc_ready] = Some READY" "told ''a'' [hc_ready, hc_failed] = Some FAILED"
  "told ''a'' [hc_ready, np_down] = Some UNAVAILABLE"
  by (simp_all add: told_def tracked_run_def sample_informers)
    (simp_all add: hc_ready_def hc_failed_def np_down_def track_def public_status_def seen_object_facts sample_mapping)

definition first_ready :: "pp_label list" where
  "first_ready = [PHandle hc_ready, PSubmit resourceTypeHostedCluster,
     PDebounce (LExpire (0, ''a'', status_event READY [])), PDebounce (LCallback (0, ''a'', status_event READY []))]"

lemmas run_defs = new_pipeline_def handle_call_def submit_held_def Submit_def NewDebouncer_def callback_def
  timer_stop_def finish_call_def sample_outcomes Let_def

theorem pipeline_settles_witness:
  "\<exists>s. serial_run sample_outcome (first_ready @ [PFinish (''a'', status_event READY []) Delivered]) s
     \<and> map_option ev_Status (map_of (delivered s) ''a'') = Some READY"
proof -
  let ?ls = "first_ready @ [PFinish (''a'', status_event READY []) Delivered]"
  let ?s = "fold pp_exec ?ls new_pipeline"
  have "enabled_all sample_outcome serial ?ls new_pipeline"
    by (simp add: first_ready_def run_defs sample_steps sample_informers)
  from serial_run_exec[OF this serial_start] have run: "serial_run sample_outcome ?ls ?s" by simp
  have settled: "\<not> db_stopped (pp_db ?s)" "pp_held ?s = (\<lambda>_. None)" "pending_of (pp_db ?s) = {}"
    "db_inflight (pp_db ?s) = []" "pp_finished ?s = [(''a'', status_event READY [], Delivered)]"
    by (auto simp: first_ready_def run_defs sample_steps sample_informers pending_of_def)
  have "handled ?ls = [hc_ready]" by (simp add: handled_def map_filter_def first_ready_def)
  then show ?thesis
    using pipeline_settles[OF run settled(1,2,3,4), of "''a''"] run sample_told(1) settled(5) by auto
qed

text \<open>Runs that settle on another status than the one of the instance.\<close>

definition late_submission :: "pp_label list" where
  "late_submission =
     [PHandle hc_ready, PHandle np_down, PSubmit resourceTypeNodePool, PSubmit resourceTypeHostedCluster,
      PDebounce (LExpire (1, ''a'', status_event READY [])), PDebounce (LCallback (1, ''a'', status_event READY [])),
      PFinish (''a'', status_event READY []) Delivered]"

definition then_failed :: "pp_label list" where
  "then_failed = [PHandle hc_failed, PSubmit resourceTypeHostedCluster,
     PDebounce (LExpire (1, ''a'', status_event FAILED ''m'')), PDebounce (LCallback (1, ''a'', status_event FAILED ''m''))]"

definition late_publication :: "pp_label list" where
  "late_publication = first_ready @ then_failed
     @ [PFinish (''a'', status_event FAILED ''m'') Delivered, PFinish (''a'', status_event READY []) Delivered]"

definition dropped_publication :: "pp_label list" where
  "dropped_publication = first_ready @ [PFinish (''a'', status_event READY []) Delivered]
     @ then_failed @ [PFinish (''a'', status_event FAILED ''m'') Dropped]"

definition settled_on :: "pipeline \<Rightarrow> (string \<times> StatusEvent) list \<Rightarrow> bool" where
  "settled_on s evs \<longleftrightarrow> \<not> db_stopped (pp_db s) \<and> pp_held s = (\<lambda>_. None) \<and> pending_of (pp_db s) = {}
     \<and> db_inflight (pp_db s) = [] \<and> delivered s = evs"

text \<open>
  C40: the last word can be wrong, in three ways.  When the two goroutines submit in the other order than
  they computed, the older event replaces the newer one in the debouncer and is the only one delivered:
  ready, for an instance that is unavailable.  When a publication that is still being retried ends
  after the next one of its instance, both are delivered and the older one last: ready, for an instance
  that has failed.  And when the retries of the newer event run out, in a run that is serial, only the
  older one is delivered.  Each run ends with nothing held, pending or in flight.
\<close>

theorem pipeline_can_end_stale:
  "(\<exists>s. pp_run sample_outcome late_submission s \<and> settled_on s [(''a'', status_event READY [])]
      \<and> told ''a'' (handled late_submission) = Some UNAVAILABLE)
   \<and> (\<exists>s. pp_run sample_outcome late_publication s
      \<and> settled_on s [(''a'', status_event READY []), (''a'', status_event FAILED ''m'')]
      \<and> told ''a'' (handled late_publication) = Some FAILED)
   \<and> (\<exists>s. serial_run sample_outcome dropped_publication s \<and> settled_on s [(''a'', status_event READY [])]
      \<and> told ''a'' (handled dropped_publication) = Some FAILED)"
proof (intro conjI)
  obtain st where down: "handle_event np_down [''a'' \<mapsto> ready_instance] = ((''a'', Some (status_event UNAVAILABLE ''NodePool: m'')), st)"
    using sample_steps(3) by blast
  have "enabled_all sample_outcome (\<lambda>_ _. True) late_submission new_pipeline"
    by (simp add: late_submission_def run_defs sample_steps(1) down sample_informers)
  from pp_run_exec[OF this pp_start]
  have "pp_run sample_outcome late_submission (fold pp_exec late_submission new_pipeline)" by simp
  moreover have "settled_on (fold pp_exec late_submission new_pipeline) [(''a'', status_event READY [])]"
    by (auto simp: settled_on_def late_submission_def run_defs sample_steps(1) down sample_informers pending_of_def
        delivered_def map_filter_simps)
  moreover have "handled late_submission = [hc_ready, np_down]"
    by (simp add: handled_def map_filter_def late_submission_def)
  ultimately show "\<exists>s. pp_run sample_outcome late_submission s \<and> settled_on s [(''a'', status_event READY [])]
      \<and> told ''a'' (handled late_submission) = Some UNAVAILABLE"
    using sample_told(3) by auto
next
  obtain st where failed: "handle_event hc_failed [''a'' \<mapsto> ready_instance] = ((''a'', Some (status_event FAILED ''m'')), st)"
    using sample_steps(2) by blast
  have differ: "status_event FAILED ''m'' \<noteq> status_event READY []" by (simp add: status_event_def)
  note run = first_ready_def then_failed_def run_defs sample_steps(1) failed sample_informers differ
  have "enabled_all sample_outcome (\<lambda>_ _. True) late_publication new_pipeline"
    by (simp add: late_publication_def run)
  from pp_run_exec[OF this pp_start]
  have "pp_run sample_outcome late_publication (fold pp_exec late_publication new_pipeline)" by simp
  moreover have "settled_on (fold pp_exec late_publication new_pipeline)
      [(''a'', status_event READY []), (''a'', status_event FAILED ''m'')]"
    by (auto simp: settled_on_def late_publication_def run pending_of_def delivered_def map_filter_simps)
  moreover have "handled late_publication = [hc_ready, hc_failed]"
    by (simp add: handled_def map_filter_def late_publication_def first_ready_def then_failed_def)
  ultimately show "\<exists>s. pp_run sample_outcome late_publication s
      \<and> settled_on s [(''a'', status_event READY []), (''a'', status_event FAILED ''m'')]
      \<and> told ''a'' (handled late_publication) = Some FAILED"
    using sample_told(2) by auto
  have "enabled_all sample_outcome serial dropped_publication new_pipeline"
    by (simp add: dropped_publication_def run)
  from serial_run_exec[OF this serial_start]
  have "serial_run sample_outcome dropped_publication (fold pp_exec dropped_publication new_pipeline)" by simp
  moreover have "settled_on (fold pp_exec dropped_publication new_pipeline) [(''a'', status_event READY [])]"
    by (auto simp: settled_on_def dropped_publication_def run pending_of_def delivered_def map_filter_simps)
  moreover have "handled dropped_publication = [hc_ready, hc_failed]"
    by (simp add: handled_def map_filter_def dropped_publication_def first_ready_def then_failed_def)
  ultimately show "\<exists>s. serial_run sample_outcome dropped_publication s \<and> settled_on s [(''a'', status_event READY [])]
      \<and> told ''a'' (handled dropped_publication) = Some FAILED"
    using sample_told(2) by auto
qed

end
