(* ===== verification/GoStrings.thy ===== *)
theory GoStrings
  imports Prelude
begin

text \<open>
  The part of Go's standard library the provider's code calls on strings: \<open>strings\<close>,
  \<open>strconv\<close>, \<open>encoding/base64\<close> and \<open>net.JoinHostPort\<close>.  A Go string is a sequence of bytes, so
  is a \<open>string\<close> of HOL.  Each function is defined on every input, error results are \<open>None\<close>.
  The lemmas are the round trips and shape facts the components rely on.
\<close>

subsection \<open>Package strings\<close>

definition HasPrefix :: "string \<Rightarrow> string \<Rightarrow> bool" where
  "HasPrefix s p = prefix p s"

definition HasSuffix :: "string \<Rightarrow> string \<Rightarrow> bool" where
  "HasSuffix s p = suffix p s"

definition TrimSuffix :: "string \<Rightarrow> string \<Rightarrow> string" where
  "TrimSuffix s p = (if HasSuffix s p then take (length s - length p) s else s)"

text \<open>First and last byte position at which \<open>sep\<close> occurs; \<open>None\<close> is Go's \<open>-1\<close>.\<close>

definition Index :: "string \<Rightarrow> string \<Rightarrow> nat option" where
  "Index s sep = find (\<lambda>i. prefix sep (drop i s)) [0..<Suc (length s)]"

definition LastIndex :: "string \<Rightarrow> string \<Rightarrow> nat option" where
  "LastIndex s sep = find (\<lambda>i. prefix sep (drop i s)) (rev [0..<Suc (length s)])"

text \<open>
  \<open>SplitN s sep n\<close> for a non-negative count: at most \<open>n\<close> pieces, the last one is the unsplit rest.
\<close>

fun SplitN :: "string \<Rightarrow> string \<Rightarrow> nat \<Rightarrow> string list" where
  "SplitN s sep 0 = []"
| "SplitN s sep (Suc 0) = [s]"
| "SplitN s sep (Suc (Suc n)) =
     (case Index s sep of
        None \<Rightarrow> [s]
      | Some i \<Rightarrow> take i s # SplitN (drop (i + length sep) s) sep (Suc n))"

text \<open>\<open>ReplaceAll\<close> with a non-empty pattern; the empty pattern matches between any two bytes.\<close>

function ReplaceAll :: "string \<Rightarrow> string \<Rightarrow> string \<Rightarrow> string" where
  "ReplaceAll s [] new = concat (map (\<lambda>x. new @ [x]) s) @ new"
| "ReplaceAll [] (o0 # os) new = []"
| "ReplaceAll (x # xs) (o0 # os) new =
     (if prefix (o0 # os) (x # xs)
      then new @ ReplaceAll (drop (length os) xs) (o0 # os) new
      else x # ReplaceAll xs (o0 # os) new)"
  by pat_completeness auto
termination
  by (relation "measure (\<lambda>(s, p, n). length s)") auto

fun Join :: "string list \<Rightarrow> string \<Rightarrow> string" where
  "Join [] sep = []"
| "Join [x] sep = x"
| "Join (x # y # ys) sep = x @ sep @ Join (y # ys) sep"

lemma TrimSuffix_append [simp]: "TrimSuffix (s @ p) p = s"
  by (simp add: TrimSuffix_def HasSuffix_def suffixI)

lemma TrimSuffix_same_iff: "p \<noteq> [] \<Longrightarrow> TrimSuffix s p = s \<longleftrightarrow> \<not> HasSuffix s p"
  by (cases p) (auto simp: TrimSuffix_def HasSuffix_def dest: arg_cong[of _ _ length] suffix_length_le)

lemma prefix_single: "prefix [c] xs \<longleftrightarrow> xs \<noteq> [] \<and> hd xs = c"
  by (cases xs) auto

lemma prefix_single_drop: "prefix [c] (drop i s) \<longleftrightarrow> i < length s \<and> s ! i = c"
  by (cases "i < length s") (auto simp: prefix_single hd_drop_conv_nth)

lemma Index_unique: "c \<notin> set a \<Longrightarrow> Index (a @ c # t) [c] = Some (length a)"
  unfolding Index_def find_Some_iff
  by (rule exI[of _ "length a"])
    (auto simp: prefix_single_drop nth_append simp del: upt_Suc drop_append)

lemma Index_none: "c \<notin> set s \<Longrightarrow> Index s [c] = None"
  by (auto simp: Index_def find_None_iff prefix_single_drop simp del: upt_Suc)

lemma LastIndex_unique:
  assumes "c \<notin> set t"
  shows "LastIndex (a @ c # t) [c] = Some (length a)"
proof -
  let ?s = "a @ c # t"
  have nth: "rev [0..<Suc (length ?s)] ! j = length ?s - j" if "j \<le> length ?s" for j
    using that by (simp add: rev_nth del: upt_Suc)
  have later: "\<not> prefix [c] (drop (length ?s - j) ?s)" if "j < Suc (length t)" for j
  proof -
    have "?s ! (length ?s - j) \<noteq> c" if "0 < j"
      using assms that \<open>j < Suc (length t)\<close>
      by (auto simp: nth_append nth_Cons' in_set_conv_nth)
    then show ?thesis
      by (cases "j = 0") (auto simp: prefix_single_drop simp del: drop_append)
  qed
  show ?thesis
    unfolding LastIndex_def find_Some_iff
  proof (intro exI conjI allI impI)
    show "Suc (length t) < length (rev [0..<Suc (length ?s)])" by simp
    show "prefix [c] (drop (rev [0..<Suc (length ?s)] ! Suc (length t)) ?s)"
      by (subst nth) (auto simp: prefix_single_drop)
    show "length a = rev [0..<Suc (length ?s)] ! Suc (length t)" by (subst nth) auto
    fix j assume "j < Suc (length t)"
    then show "\<not> prefix [c] (drop (rev [0..<Suc (length ?s)] ! j) ?s)"
      using later nth[of j] by auto
  qed
qed

lemma LastIndex_none: "c \<notin> set s \<Longrightarrow> LastIndex s [c] = None"
  by (auto simp: LastIndex_def find_None_iff prefix_single_drop simp del: upt_Suc)

lemma SplitN_first_two:
  assumes "c \<notin> set a" "c \<notin> set b"
  shows "SplitN (a @ c # b @ c # r) [c] 3 = [a, b, r]" "SplitN (a @ c # b) [c] 3 = [a, b]"
  using assms by (simp_all add: numeral_3_eq_3 Index_unique Index_none)

lemma SplitN_unsplit: "c \<notin> set a \<Longrightarrow> SplitN a [c] 3 = [a]"
  by (simp add: numeral_3_eq_3 Index_none)

subsection \<open>Package strconv and the decimal verbs of fmt\<close>

definition digit_char :: "nat \<Rightarrow> char" where
  "digit_char d = char_of (48 + d)"

definition digit_val :: "char \<Rightarrow> nat option" where
  "digit_val c = (let n = of_char c in if 48 \<le> n \<and> n \<le> 57 then Some (n - 48) else None)"

fun format_nat :: "nat \<Rightarrow> string" where
  "format_nat n =
     (if n < 10 then [digit_char n] else format_nat (n div 10) @ [digit_char (n mod 10)])"

declare format_nat.simps [simp del]

text \<open>\<open>strconv.FormatInt(n, 10)\<close>, also what \<open>%d\<close> prints.\<close>

definition FormatInt :: "int \<Rightarrow> string" where
  "FormatInt n = (if n < 0 then CHR ''-'' # format_nat (nat (- n)) else format_nat (nat n))"

text \<open>The value of a string of decimal digits, \<open>None\<close> when another byte occurs.\<close>

fun digits_val :: "nat \<Rightarrow> string \<Rightarrow> nat option" where
  "digits_val acc [] = Some acc"
| "digits_val acc (c # cs) =
     (case digit_val c of None \<Rightarrow> None | Some d \<Rightarrow> digits_val (10 * acc + d) cs)"

text \<open>
  \<open>strconv.Atoi\<close>: an optional sign, at least one digit, only digits, and a value that fits in 64
  bits.  \<open>None\<close> stands for its syntax and range errors.
\<close>

definition Atoi :: "string \<Rightarrow> int option" where
  "Atoi s =
     (let neg = (s \<noteq> [] \<and> hd s = CHR ''-'');
          ds = (if s \<noteq> [] \<and> hd s \<in> {CHR ''-'', CHR ''+''} then tl s else s)
      in if ds = [] then None
         else case digits_val 0 ds of
           None \<Rightarrow> None
         | Some n \<Rightarrow>
             let v = (if neg then - int n else int n)
             in if in_int64 v then Some v else None)"

lemma digit_val_char [simp]: "d < 10 \<Longrightarrow> digit_val (digit_char d) = Some d"
  by (simp add: digit_val_def digit_char_def Let_def take_bit_eq_mod)

lemma digit_char_neq: "d < 10 \<Longrightarrow> digit_char d \<notin> {CHR ''-'', CHR ''+''}"
  using digit_val_char[of d] by (auto simp: digit_val_def)

lemma digits_val_append:
  "digits_val acc (xs @ [c]) =
     (case digits_val acc xs of None \<Rightarrow> None
      | Some n \<Rightarrow> map_option (\<lambda>d. 10 * n + d) (digit_val c))"
  by (induction xs arbitrary: acc) (auto split: option.splits)

lemma digits_val_format_nat: "digits_val 0 (format_nat n) = Some n"
proof (induction n rule: format_nat.induct)
  case (1 n)
  then show ?case
    by (cases "n < 10") (simp_all add: format_nat.simps[of n] digits_val_append)
qed

lemma format_nat_inj: "format_nat m = format_nat n \<longleftrightarrow> m = n"
  by (metis digits_val_format_nat option.inject)

lemma format_nat_not_Nil [simp]: "format_nat n \<noteq> []"
  by (subst format_nat.simps) simp

lemma format_nat_hd: "hd (format_nat n) \<notin> {CHR ''-'', CHR ''+''}"
proof (induction n rule: format_nat.induct)
  case (1 n)
  then show ?case
    by (cases "n < 10") (simp_all add: format_nat.simps[of n] digit_char_neq[simplified])
qed

lemma Atoi_FormatInt: "in_int64 n \<Longrightarrow> Atoi (FormatInt n) = Some n"
  using format_nat_hd[of "nat n"]
  by (auto simp: Atoi_def FormatInt_def digits_val_format_nat Let_def)

lemma Atoi_range: "Atoi s = Some n \<Longrightarrow> in_int64 n"
  by (auto simp: Atoi_def Let_def split: if_splits option.splits)

lemma Atoi_empty [simp]: "Atoi [] = None"
  by (simp add: Atoi_def)

text \<open>
  \<open>strconv.Quote\<close>, what \<open>%q\<close> prints, for text whose bytes above 126 form printable runes: these are
  kept, the quote and the backslash are escaped, control bytes are written as Go escapes.
\<close>

definition hex_char :: "nat \<Rightarrow> char" where
  "hex_char d = (if d < 10 then char_of (48 + d) else char_of (87 + d))"

definition quote_byte :: "char \<Rightarrow> string" where
  "quote_byte ch =
     (let n = of_char ch :: nat in
      if n = 34 then [CHR 0x5C, CHR 0x22]
      else if n = 92 then [CHR 0x5C, CHR 0x5C]
      else if n = 7 then [CHR 0x5C, CHR ''a'']
      else if n = 8 then [CHR 0x5C, CHR ''b'']
      else if n = 12 then [CHR 0x5C, CHR ''f'']
      else if n = 10 then [CHR 0x5C, CHR ''n'']
      else if n = 13 then [CHR 0x5C, CHR ''r'']
      else if n = 9 then [CHR 0x5C, CHR ''t'']
      else if n = 11 then [CHR 0x5C, CHR ''v'']
      else if n < 32 \<or> n = 127 then [CHR 0x5C, CHR ''x'', hex_char (n div 16), hex_char (n mod 16)]
      else [ch])"

definition Quote :: "string \<Rightarrow> string" where
  "Quote s = [CHR 0x22] @ concat (map quote_byte s) @ [CHR 0x22]"

subsection \<open>Package net\<close>

text \<open>\<open>JoinHostPort\<close> brackets a host that holds a colon (an IPv6 address).\<close>

definition JoinHostPort :: "string \<Rightarrow> string \<Rightarrow> string" where
  "JoinHostPort host port =
     (if CHR '':'' \<in> set host then ''['' @ host @ '']:'' @ port else host @ '':'' @ port)"

end
