(* ===== verification/MemHub.thy ===== *)
theory MemHub
  imports Hub
begin

text \<open>
  A concrete client for the witnesses of the development: the world is the list of stored objects,
  every call succeeds when the API allows it, deletion removes at once.  No property is about it;
  it shows that \<open>hub_api\<close> can hold and gives the properties an input to be evaluated on.
\<close>

definition mem_client :: "(nat hub, nat) k8s_client" where
  "mem_client = \<lparr>
     ListHostedClusters = (\<lambda>ns sel s. (Inr (filter (hc_matches ns sel) (hub_hcs s)), s)),
     ListNodePools = (\<lambda>ns sel s. (Inr (filter (np_matches ns sel) (hub_nps s)), s)),
     ListClusterImageSets = (\<lambda>s. (Inr (hub_images s), s)),
     GetSecret = (\<lambda>ns n s.
       (case find (\<lambda>x. se_Namespace x = ns \<and> se_Name x = n) (hub_secrets s) of
          None \<Rightarrow> Inl (K8sNotFound ''not found'') | Some x \<Rightarrow> Inr x, s)),
     CreateHostedCluster = (\<lambda>hc s.
       if list_ex (\<lambda>h. hc_key h = hc_key hc) (hub_hcs s) then (Some (K8sAlreadyExists ''exists''), s)
       else (None, s\<lparr>hub_hcs := hc\<lparr>hc_CreationTimestamp := 7, hc_DeletionTimestamp := None\<rparr> # hub_hcs s\<rparr>)),
     CreateNodePool = (\<lambda>np s.
       if list_ex (\<lambda>h. np_key h = np_key np) (hub_nps s) then (Some (K8sAlreadyExists ''exists''), s)
       else (None, s\<lparr>hub_nps := np\<lparr>np_DeletionTimestamp := None\<rparr> # hub_nps s\<rparr>)),
     CreateSecret = (\<lambda>x s.
       if list_ex (\<lambda>y. se_Namespace y = se_Namespace x \<and> se_Name y = se_Name x) (hub_secrets s)
       then (Some (K8sAlreadyExists ''exists''), s)
       else (None, s\<lparr>hub_secrets := x # hub_secrets s\<rparr>)),
     UpdateSecret = (\<lambda>x s.
       (None, s\<lparr>hub_secrets := map (\<lambda>y. if se_Namespace y = se_Namespace x \<and> se_Name y = se_Name x
                                       then x else y) (hub_secrets s)\<rparr>)),
     DeleteHostedCluster = (\<lambda>hc s.
       (None, s\<lparr>hub_hcs := filter (\<lambda>h. hc_key h \<noteq> hc_key hc) (hub_hcs s)\<rparr>)),
     DeleteNodePool = (\<lambda>np s.
       (None, s\<lparr>hub_nps := filter (\<lambda>h. np_key h \<noteq> np_key np) (hub_nps s)\<rparr>)),
     Recognizes = (\<lambda>g. True),
     ListKind = (\<lambda>g s. (None, s))\<rparr>"

definition mem_hc :: "HostedCluster \<Rightarrow> HostedCluster" where
  "mem_hc hc = hc\<lparr>hc_CreationTimestamp := 7, hc_DeletionTimestamp := None\<rparr>"

definition mem_np :: "nat NodePool \<Rightarrow> nat NodePool" where
  "mem_np np = np\<lparr>np_DeletionTimestamp := None\<rparr>"

lemma mem_stored: "hc_stored hc (mem_hc hc)" "np_stored np (mem_np np)"
  by (simp_all add: mem_hc_def mem_np_def hc_stored_def hc_desired_def np_stored_def np_key_def)

lemma mem_creates:
  "CreateHostedCluster mem_client hc s =
     (if hc_key hc \<in> hc_key ` set (hub_hcs s) then (Some (K8sAlreadyExists ''exists''), s)
      else (None, s\<lparr>hub_hcs := mem_hc hc # hub_hcs s\<rparr>))"
  "CreateNodePool mem_client np s =
     (if np_key np \<in> np_key ` set (hub_nps s) then (Some (K8sAlreadyExists ''exists''), s)
      else (None, s\<lparr>hub_nps := mem_np np # hub_nps s\<rparr>))"
  by (simp_all add: mem_client_def mem_hc_def mem_np_def list_ex_iff image_iff eq_commute)

lemma mem_hub_api: "hub_api mem_client id"
  unfolding hub_api_def
proof (intro conjI)
  show "api_reads mem_client id" "api_lists mem_client id"
    by (auto simp: api_reads_def api_lists_def mem_client_def)
  show "api_creates mem_client id"
    unfolding api_creates_def using mem_stored by (fastforce simp: mem_creates split: if_splits)
  show "api_deletes mem_client id"
    unfolding api_deletes_def by (auto simp: mem_client_def hc_gone_def np_gone_def obj_gone_def)
qed

end
