(* ===== verification/Versions.thy ===== *)
theory Versions
  imports GoStrings Hub MemHub
begin

text \<open>
  Version discovery and resolution: \<open>internal/registration/version.go\<close> and
  \<open>internal/cluster/version.go\<close>.  Both read the ClusterImageSets of the hub through the
  compatibility matrix, discovery to tell the registry which Kubernetes versions can be ordered,
  resolution to find the release image of an ordered version.
\<close>

definition DefaultCompatibilityMatrix :: CompatibilityMatrix where
  "DefaultCompatibilityMatrix =
     [(''4.14'', ''1.27''), (''4.15'', ''1.28''), (''4.16'', ''1.29''), (''4.17'', ''1.30''),
      (''4.18'', ''1.31''), (''4.19'', ''1.32''), (''4.20'', ''1.33''), (''4.21'', ''1.34'')]"

text \<open>Reading the file and parsing its JSON are library calls.\<close>

definition LoadCompatibilityMatrix ::
  "(string \<Rightarrow> go_error + string) \<Rightarrow> (string \<Rightarrow> go_error + CompatibilityMatrix) \<Rightarrow> string \<Rightarrow>
   go_error + CompatibilityMatrix" where
  "LoadCompatibilityMatrix ReadFile Unmarshal path =
     (if path = [] then Inr DefaultCompatibilityMatrix
      else case ReadFile path of
        Inl err \<Rightarrow>
          Inl (Wrapped (''loading compatibility matrix from '' @ path @ '': '' @ error_text err) err)
      | Inr data \<Rightarrow>
          (case Unmarshal data of
             Inl err \<Rightarrow>
               Inl (Wrapped (''parsing compatibility matrix from '' @ path @ '': '' @ error_text err) err)
           | Inr matrix \<Rightarrow> Inr matrix))"

definition ExtractOCPVersion :: "string \<Rightarrow> string" where
  "ExtractOCPVersion releaseImage =
     (case LastIndex releaseImage '':'' of
        None \<Rightarrow> []
      | Some colonIdx \<Rightarrow>
          let tag = drop (colonIdx + 1) releaseImage;
              parts = SplitN tag ''.'' 3
          in if length parts < 2 then [] else parts ! 0 @ ''.'' @ parts ! 1)"

subsection \<open>Discovery\<close>

text \<open>The loop over the items; \<open>seen\<close> is the key set of the Go map.\<close>

fun see_versions :: "CompatibilityMatrix \<Rightarrow> string list \<Rightarrow> string set \<Rightarrow> string set" where
  "see_versions matrix [] seen = seen"
| "see_versions matrix (releaseImage # items) seen =
     see_versions matrix items
       (if releaseImage = [] then seen
        else case map_of matrix (ExtractOCPVersion releaseImage) of
          None \<Rightarrow> seen
        | Some k8sVersion \<Rightarrow> insert k8sVersion seen)"

definition DiscoverVersions ::
  "('s, 'q) k8s_client \<Rightarrow> CompatibilityMatrix \<Rightarrow> 's \<Rightarrow> (go_error + string list) \<times> 's" where
  "DiscoverVersions c matrix s =
     (case ListClusterImageSets c s of
        (Inl err, s') \<Rightarrow> (Inl (K8sError err), s')
      | (Inr items, s') \<Rightarrow> (Inr (sorted_list_of_set (see_versions matrix items {})), s'))"

subsection \<open>Resolution\<close>

definition k8sToOCP :: "CompatibilityMatrix \<Rightarrow> string \<Rightarrow> go_error + string" where
  "k8sToOCP matrix k8sVersion =
     (case find (\<lambda>(ocpVersion, k8sVer). k8sVer = k8sVersion) matrix of
        Some (ocpVersion, _) \<Rightarrow> Inr ocpVersion
      | None \<Rightarrow>
          Inl (NewUnprocessableEntityError (''unsupported Kubernetes version: '' @ k8sVersion)))"

fun pick_image :: "string \<Rightarrow> string list \<Rightarrow> string option" where
  "pick_image ocpVersion [] = None"
| "pick_image ocpVersion (releaseImage # items) =
     (if releaseImage = [] then pick_image ocpVersion items
      else if ExtractOCPVersion releaseImage = ocpVersion then Some releaseImage
      else pick_image ocpVersion items)"

definition Resolve ::
  "('s, 'q) k8s_client \<Rightarrow> CompatibilityMatrix \<Rightarrow> string \<Rightarrow> 's \<Rightarrow> (go_error + string) \<times> 's" where
  "Resolve c matrix k8sVersion s =
     (case k8sToOCP matrix k8sVersion of
        Inl err \<Rightarrow> (Inl err, s)
      | Inr ocpVersion \<Rightarrow>
          (case ListClusterImageSets c s of
             (Inl err, s') \<Rightarrow>
               (Inl (NewInternalError ''failed to list cluster image sets'' (K8sError err)), s')
           | (Inr items, s') \<Rightarrow>
               (case pick_image ocpVersion items of
                  Some releaseImage \<Rightarrow> (Inr releaseImage, s')
                | None \<Rightarrow>
                    (Inl (NewUnprocessableEntityError
                       (''no ClusterImageSet found for version '' @ k8sVersion)), s'))))"

definition ReleaseImageToK8sVersion :: "string \<Rightarrow> CompatibilityMatrix \<Rightarrow> string" where
  "ReleaseImageToK8sVersion releaseImage matrix =
     (let ocpMinor = ExtractOCPVersion releaseImage in
      if ocpMinor = [] then []
      else case map_of matrix ocpMinor of Some k8sVer \<Rightarrow> k8sVer | None \<Rightarrow> [])"

subsection \<open>Facts about the loops\<close>

lemma ExtractOCPVersion_empty [simp]: "ExtractOCPVersion [] = []"
  by (simp add: ExtractOCPVersion_def Index_none LastIndex_none)

lemma see_versions_set:
  "see_versions matrix items seen =
     seen \<union> {v. \<exists>i \<in> set items. i \<noteq> [] \<and> map_of matrix (ExtractOCPVersion i) = Some v}"
  by (induction items arbitrary: seen) (auto split: option.splits)

lemma see_versions_finite: "finite seen \<Longrightarrow> finite (see_versions matrix items seen)"
  by (induction items arbitrary: seen) (auto split: option.splits)

lemma pick_image_Some:
  "pick_image v items = Some i \<Longrightarrow> i \<in> set items \<and> i \<noteq> [] \<and> ExtractOCPVersion i = v"
  by (induction items) (auto split: if_splits)

lemma pick_image_None_iff:
  "pick_image v items = None \<longleftrightarrow> (\<forall>i \<in> set items. i \<noteq> [] \<longrightarrow> ExtractOCPVersion i \<noteq> v)"
  by (induction items) auto

lemma k8sToOCP_Inr: "k8sToOCP matrix v = Inr ocp \<Longrightarrow> (ocp, v) \<in> set matrix"
  by (auto simp: k8sToOCP_def dest: find_map_Some split: option.splits)

lemma k8sToOCP_Inl_iff: "(\<exists>e. k8sToOCP matrix v = Inl e) \<longleftrightarrow> v \<notin> snd ` set matrix"
  by (force simp: k8sToOCP_def find_None_iff image_iff split: option.splits dest!: find_map_Some)

text \<open>
  A matrix as Go can hold it has each key once; it is injective when no two OCP versions stand for
  the same Kubernetes version.
\<close>

definition proper_matrix :: "CompatibilityMatrix \<Rightarrow> bool" where
  "proper_matrix m \<longleftrightarrow> distinct (map fst m) \<and> distinct (map snd m)"

lemma proper_matrix_lookup:
  "proper_matrix m \<Longrightarrow> k8sToOCP m v = Inr ocp \<longleftrightarrow> map_of m ocp = Some v"
proof
  assume m: "proper_matrix m"
  show "map_of m ocp = Some v" if "k8sToOCP m v = Inr ocp"
    using m k8sToOCP_Inr[OF that] by (simp add: proper_matrix_def)
  assume "map_of m ocp = Some v"
  then have mem: "(ocp, v) \<in> set m" by (rule map_of_SomeD)
  have "distinct (map snd m)" using m by (simp add: proper_matrix_def)
  from find_distinct_key[OF this mem] show "k8sToOCP m v = Inr ocp"
    by (simp add: k8sToOCP_def case_prod_beta' split: option.split)
qed

lemma default_proper: "proper_matrix DefaultCompatibilityMatrix"
  by (simp add: proper_matrix_def DefaultCompatibilityMatrix_def)

subsection \<open>Discovery and resolution agree\<close>

lemma advertised_iff:
  assumes "hub_api c view" "DiscoverVersions c m s = (Inr vs, s1)"
  shows "sorted vs" "distinct vs"
    "set vs = {v. \<exists>i \<in> set (hub_images (view s)). i \<noteq> [] \<and> map_of m (ExtractOCPVersion i) = Some v}"
    "view s1 = view s"
proof -
  from assms(2) obtain items where items: "ListClusterImageSets c s = (Inr items, s1)"
    and vs: "vs = sorted_list_of_set (see_versions m items {})"
    by (auto simp: DiscoverVersions_def split: prod.splits sum.splits)
  have "set items = set (hub_images (view s))"
    using list_images[OF assms(1) items] by (rule mset_eq_setD)
  then show "set vs = {v. \<exists>i \<in> set (hub_images (view s)). i \<noteq> [] \<and> map_of m (ExtractOCPVersion i) = Some v}"
    unfolding vs by (simp add: see_versions_finite) (simp add: see_versions_set)
  show "sorted vs" "distinct vs" unfolding vs by simp_all
  show "view s1 = view s" using assms(1) items by (rule read_view(3))
qed

lemma resolvable_iff:
  assumes "hub_api c view" "proper_matrix m" "ListClusterImageSets c s = (Inr items, s')"
  shows "(\<exists>img. Resolve c m v s = (Inr img, s')) \<longleftrightarrow>
    (\<exists>i \<in> set (hub_images (view s)). i \<noteq> [] \<and> map_of m (ExtractOCPVersion i) = Some v)"
proof -
  have same: "set items = set (hub_images (view s))"
    using list_images[OF assms(1,3)] by (rule mset_eq_setD)
  show ?thesis
  proof (cases "k8sToOCP m v")
    case (Inl e)
    then show ?thesis
      using proper_matrix_lookup[OF assms(2), of v] by (auto simp: Resolve_def)
  next
    case (Inr ocp)
    have key: "map_of m o' = Some v \<longleftrightarrow> o' = ocp" for o'
      using Inr proper_matrix_lookup[OF assms(2), of v o'] by auto
    show ?thesis
      using Inr pick_image_None_iff[of ocp items] unfolding key
      by (auto simp: Resolve_def assms(3) same split: option.splits)
  qed
qed

text \<open>
  C22: with an injective compatibility matrix the versions registered with the control plane are
  exactly those a create request can be resolved for, each listed once and in order.
\<close>

theorem advertised_versions_resolvable:
  assumes "hub_api c view" "proper_matrix m"
    and "DiscoverVersions c m s = (Inr vs, s1)"
    and "ListClusterImageSets c s1 = (Inr items, s2)"
  shows "sorted vs \<and> distinct vs \<and> (\<forall>v. v \<in> set vs \<longleftrightarrow> (\<exists>img. Resolve c m v s1 = (Inr img, s2)))"
  using advertised_iff[OF assms(1,3)] resolvable_iff[OF assms(1,2,4)] by auto

definition sample_hub :: "nat hub" where
  "sample_hub = \<lparr>hub_hcs = [], hub_nps = [],
     hub_images = [''quay.io/ocp-release:4.17.3-multi'', [], ''quay.io/ocp-release:4.15.1'', ''x:4.99.0''],
     hub_secrets = []\<rparr>"

lemma sample_images:
  "ListClusterImageSets mem_client sample_hub = (Inr (hub_images sample_hub), sample_hub)"
  by (simp add: mem_client_def)

lemma sample_extract:
  "ExtractOCPVersion ''quay.io/ocp-release:4.17.3-multi'' = ''4.17''"
  "ExtractOCPVersion ''quay.io/ocp-release:4.15.1'' = ''4.15''"
  "ExtractOCPVersion ''x:4.99.0'' = ''4.99''"
  by code_simp+

lemma sample_discover:
  "DiscoverVersions mem_client DefaultCompatibilityMatrix sample_hub = (Inr [''1.28'', ''1.30''], sample_hub)"
proof -
  have "see_versions DefaultCompatibilityMatrix (hub_images sample_hub) {} = {''1.28'', ''1.30''}"
    by (simp add: sample_hub_def sample_extract DefaultCompatibilityMatrix_def)
  moreover have "sorted_list_of_set {''1.28'', ''1.30''} = [''1.28'', ''1.30'']"
    by simp
  ultimately show ?thesis by (simp add: DiscoverVersions_def sample_images)
qed

theorem advertised_versions_resolvable_witness:
  "\<exists>img. Resolve mem_client DefaultCompatibilityMatrix ''1.30'' sample_hub = (Inr img, sample_hub)"
  using advertised_versions_resolvable
    [OF mem_hub_api default_proper sample_discover sample_images]
  by (metis list.set_intros)

text \<open>
  A version that resolves is read back from the created cluster: the image chosen for it is one
  the hub offers, and the inverse lookup used by Get and List gives the requested version again.
\<close>

theorem resolve_roundtrip:
  assumes "hub_api c view" "proper_matrix m" "[] \<notin> fst ` set m"
    and "Resolve c m v s = (Inr img, s')"
  shows "img \<in> set (hub_images (view s)) \<and> img \<noteq> [] \<and> ReleaseImageToK8sVersion img m = v"
proof -
  from assms(4) obtain ocp items where ocp: "k8sToOCP m v = Inr ocp"
    and items: "ListClusterImageSets c s = (Inr items, s')" and img: "pick_image ocp items = Some img"
    by (auto simp: Resolve_def split: sum.splits prod.splits option.splits)
  have "set items = set (hub_images (view s))"
    using list_images[OF assms(1) items] by (rule mset_eq_setD)
  moreover have "ocp \<noteq> []" using k8sToOCP_Inr[OF ocp] assms(3) by force
  moreover have "map_of m ocp = Some v" using ocp proper_matrix_lookup[OF assms(2)] by blast
  ultimately show ?thesis
    using pick_image_Some[OF img] by (simp add: ReleaseImageToK8sVersion_def)
qed

lemma sample_resolve:
  "Resolve mem_client DefaultCompatibilityMatrix ''1.30'' sample_hub =
     (Inr ''quay.io/ocp-release:4.17.3-multi'', sample_hub)"
  by (simp add: Resolve_def k8sToOCP_def DefaultCompatibilityMatrix_def sample_images)
    (simp add: sample_hub_def sample_extract)

theorem resolve_roundtrip_witness:
  "ReleaseImageToK8sVersion ''quay.io/ocp-release:4.17.3-multi'' DefaultCompatibilityMatrix = ''1.30''"
  using resolve_roundtrip[OF mem_hub_api default_proper _ sample_resolve]
  by (simp add: DefaultCompatibilityMatrix_def)

lemma format_two_digits:
  "''14'' = format_nat 14" "''15'' = format_nat 15" "''16'' = format_nat 16" "''17'' = format_nat 17"
  "''18'' = format_nat 18" "''19'' = format_nat 19" "''20'' = format_nat 20" "''21'' = format_nat 21"
  by code_simp+

lemma format_shifted:
  "format_nat 27 = ''27''" "format_nat 28 = ''28''" "format_nat 29 = ''29''" "format_nat 30 = ''30''"
  "format_nat 31 = ''31''" "format_nat 32 = ''32''" "format_nat 33 = ''33''" "format_nat 34 = ''34''"
  by code_simp+

lemma format_nat_two_digits:
  "format_nat x = ''14'' \<longleftrightarrow> x = 14" "format_nat x = ''15'' \<longleftrightarrow> x = 15"
  "format_nat x = ''16'' \<longleftrightarrow> x = 16" "format_nat x = ''17'' \<longleftrightarrow> x = 17"
  "format_nat x = ''18'' \<longleftrightarrow> x = 18" "format_nat x = ''19'' \<longleftrightarrow> x = 19"
  "format_nat x = ''20'' \<longleftrightarrow> x = 20" "format_nat x = ''21'' \<longleftrightarrow> x = 21"
  unfolding format_two_digits format_nat_inj by rule+

lemma default_matrix_lookup:
  "map_of DefaultCompatibilityMatrix (''4.'' @ FormatInt (int x)) =
     (if 14 \<le> x \<and> x \<le> 21 then Some (''1.'' @ FormatInt (int x + 13)) else None)"
proof (cases "14 \<le> x \<and> x \<le> 21")
  case True
  then consider "x = 14" | "x = 15" | "x = 16" | "x = 17" | "x = 18" | "x = 19" | "x = 20" | "x = 21"
    by linarith
  then show ?thesis
    by cases (simp_all add: DefaultCompatibilityMatrix_def FormatInt_def format_shifted
        format_two_digits[symmetric])
next
  case False
  then show ?thesis
    by (auto simp: DefaultCompatibilityMatrix_def FormatInt_def format_nat_two_digits)
qed

lemma ExtractOCPVersion_tag:
  "CHR '':'' \<notin> set tag \<Longrightarrow> ExtractOCPVersion (repo @ CHR '':'' # tag) =
     (let parts = SplitN tag ''.'' 3 in if length parts < 2 then [] else parts ! 0 @ ''.'' @ parts ! 1)"
  by (simp add: ExtractOCPVersion_def LastIndex_unique)

text \<open>
  The OCP version of a release image \<open>repo:major.minor.rest\<close> is \<open>major.minor\<close> whatever the
  repository holds (ports included), a reference without a tag has none, and the built-in matrix
  sends \<open>4.x\<close> to \<open>1.(x+13)\<close> for \<open>x\<close> from 14 to 21 and knows no other minor version.
\<close>

theorem release_image_version:
  assumes "CHR '':'' \<notin> set major" "CHR '':'' \<notin> set minor" "CHR '':'' \<notin> set patch"
    and "CHR ''.'' \<notin> set major" "CHR ''.'' \<notin> set minor"
    and "CHR '':'' \<notin> set untagged"
  shows "ExtractOCPVersion (repo @ '':'' @ major @ ''.'' @ minor @ ''.'' @ patch) = major @ ''.'' @ minor
    \<and> ExtractOCPVersion (repo @ '':'' @ major @ ''.'' @ minor) = major @ ''.'' @ minor
    \<and> ExtractOCPVersion untagged = []
    \<and> map_of DefaultCompatibilityMatrix (''4.'' @ FormatInt (int x)) =
        (if 14 \<le> x \<and> x \<le> 21 then Some (''1.'' @ FormatInt (int x + 13)) else None)"
proof (intro conjI)
  have "SplitN (major @ CHR ''.'' # minor @ CHR ''.'' # patch) ''.'' 3 = [major, minor, patch]" for patch
    using SplitN_first_two(1)[OF assms(4,5)] .
  then show "ExtractOCPVersion (repo @ '':'' @ major @ ''.'' @ minor @ ''.'' @ patch) = major @ ''.'' @ minor"
    using ExtractOCPVersion_tag[of "major @ CHR ''.'' # minor @ CHR ''.'' # patch" repo] assms(1-3)
    by simp
  show "ExtractOCPVersion (repo @ '':'' @ major @ ''.'' @ minor) = major @ ''.'' @ minor"
    using ExtractOCPVersion_tag[of "major @ CHR ''.'' # minor" repo] assms(1-3) assms(4,5)
    by (simp add: SplitN_first_two(2))
qed (use assms(6) in \<open>simp add: ExtractOCPVersion_def LastIndex_none\<close>, rule default_matrix_lookup)

theorem release_image_version_witness:
  "ExtractOCPVersion ''registry:5000/ocp-release:4.17.3-multi'' = ''4.17''"
  using release_image_version[of "''4''" "''17''" "''3-multi''" "''none''" "''registry:5000/ocp-release''"]
  by simp

text \<open>
  Without injectivity the two sides disagree.  Two OCP versions stand for one Kubernetes
  version, the hub offers an image of one of them only: the version is registered, and whether a
  request for it is accepted depends on the order in which the map is visited.
\<close>

theorem ambiguous_matrix_order_matters:
  "\<exists>m m'. mset m = mset m' \<and> distinct (map fst m)
    \<and> DiscoverVersions mem_client m sample_hub = DiscoverVersions mem_client m' sample_hub
    \<and> DiscoverVersions mem_client m sample_hub = (Inr [''1.30''], sample_hub)
    \<and> (\<exists>img. Resolve mem_client m ''1.30'' sample_hub = (Inr img, sample_hub))
    \<and> (\<exists>e. Resolve mem_client m' ''1.30'' sample_hub = (Inl e, sample_hub)
           \<and> domain_type e = Some ErrorTypeUNPROCESSABLEENTITY)"
proof (intro exI conjI)
  let ?m = "[(''4.17'', ''1.30''), (''4.18'', ''1.30'')]"
  let ?m' = "[(''4.18'', ''1.30''), (''4.17'', ''1.30'')]"
  have seen: "see_versions ?m (hub_images sample_hub) {} = {''1.30''}"
    "see_versions ?m' (hub_images sample_hub) {} = {''1.30''}"
    by (simp_all add: sample_hub_def sample_extract)
  show "DiscoverVersions mem_client ?m sample_hub = DiscoverVersions mem_client ?m' sample_hub"
    "DiscoverVersions mem_client ?m sample_hub = (Inr [''1.30''], sample_hub)"
    by (simp_all add: DiscoverVersions_def sample_images seen)
  show "Resolve mem_client ?m ''1.30'' sample_hub = (Inr ''quay.io/ocp-release:4.17.3-multi'', sample_hub)"
    by (simp add: Resolve_def k8sToOCP_def sample_images) (simp add: sample_hub_def sample_extract)
  show "Resolve mem_client ?m' ''1.30'' sample_hub =
      (Inl (NewUnprocessableEntityError ''no ClusterImageSet found for version 1.30''), sample_hub)"
    by (simp add: Resolve_def k8sToOCP_def sample_images) (simp add: sample_hub_def sample_extract)
qed simp_all

end
