(* ===== verification/Registration.thy ===== *)
theory Registration
  imports Versions Publish
begin

text \<open>
  \<open>internal/registration/registration.go\<close> and \<open>api/v1alpha1/paths.go\<close>: one registration attempt, the
  retry loop and the version watcher.  The registry's HTTP client, \<open>url.JoinPath\<close> and the embedded
  specification are parameters.  A wait is a function that says whether the context ended first.
  The two loops can run forever, so they are partial functions and \<open>None\<close> is "does not return".
\<close>

subsection \<open>The payload\<close>

text \<open>The paths of the specification in matching order, each with whether it defines a POST.\<close>

definition PostPath :: "go_error + (string \<times> bool) list \<Rightarrow> go_error + string" where
  "PostPath spec =
     (case spec of
        Inl err \<Rightarrow> Inl (Wrapped (''loading OpenAPI spec: '' @ error_text err) err)
      | Inr paths \<Rightarrow>
          (case find snd paths of
             Some (p, _) \<Rightarrow> Inr p
           | None \<Rightarrow> Inl (PlainError ''no POST path found in OpenAPI spec'')))"

definition mustPostPath :: "go_error + (string \<times> bool) list \<Rightarrow> string outcome" where
  "mustPostPath spec =
     (case PostPath spec of
        Inl err \<Rightarrow> Panics (''registration: resolving endpoint path from OpenAPI spec: '' @ error_text err)
      | Inr p \<Rightarrow> Returns p)"

text \<open>The additional properties of the metadata are kept as the calls of \<open>Set\<close>, in order.\<close>

record ProviderMetadata =
  pm_RegionCode :: "string option"
  pm_Zone :: "string option"
  pm_Set :: "(string \<times> string list) list"

record Provider =
  pr_Name :: string
  pr_ServiceType :: string
  pr_SchemaVersion :: string
  pr_Endpoint :: string
  pr_Operations :: "string list option"
  pr_Metadata :: "ProviderMetadata option"
  pr_DisplayName :: "string option"

record dcm_response =
  dr_StatusCode :: int
  dr_Body :: string

record ('s, 'q) Registrar =
  rg_cfg :: RegistrationConfig
  rg_CreateProvider :: "Provider \<Rightarrow> 's \<Rightarrow> (go_error + dcm_response) \<times> 's"
  rg_k8sClient :: "('s, 'q) k8s_client"
  rg_matrix :: CompatibilityMatrix
  rg_JoinPath :: "string \<Rightarrow> string \<Rightarrow> go_error + string"
  rg_endpointSuffix :: string

definition non_empty :: "string \<Rightarrow> string option" where
  "non_empty s = (if s \<noteq> [] then Some s else None)"

definition buildPayload :: "('s, 'q) Registrar \<Rightarrow> string list \<Rightarrow> Provider" where
  "buildPayload r versions =
     \<lparr>pr_Name = rc_ProviderName (rg_cfg r), pr_ServiceType = ''cluster'', pr_SchemaVersion = ''v1alpha1'',
      pr_Endpoint =
        (case rg_JoinPath r (rc_ProviderEndpoint (rg_cfg r)) (rg_endpointSuffix r) of
           Inl err \<Rightarrow> rc_ProviderEndpoint (rg_cfg r)
         | Inr endpoint \<Rightarrow> endpoint),
      pr_Operations = Some [''CREATE'', ''DELETE'', ''READ''],
      pr_Metadata = Some
        \<lparr>pm_RegionCode = non_empty (rc_ProviderRegion (rg_cfg r)),
         pm_Zone = non_empty (rc_ProviderZone (rg_cfg r)),
         pm_Set = [(''supportedPlatforms'', [''kubevirt'', ''baremetal'']),
                   (''supportedProvisioningTypes'', [''hypershift'']),
                   (''kubernetesSupportedVersions'', versions)]\<rparr>,
      pr_DisplayName = non_empty (rc_ProviderDisplayName (rg_cfg r))\<rparr>"

subsection \<open>One attempt\<close>

text \<open>\<open>errors.As\<close> for a \<open>*retryableError\<close>, along the chain of \<open>Unwrap\<close>.\<close>

fun isRetryable :: "go_error \<Rightarrow> bool" where
  "isRetryable (RetryableError e) = True"
| "isRetryable (Wrapped s e) = isRetryable e"
| "isRetryable (DomainError t msg det (Some cause)) = isRetryable cause"
| "isRetryable (DomainError t msg det None) = False"
| "isRetryable (K8sError e) = False"
| "isRetryable (PlainError s) = False"

definition truncateBody :: "string \<Rightarrow> string" where
  "truncateBody body = (if length body > 200 then take 200 body else body)"

definition Register :: "('s, 'q) Registrar \<Rightarrow> 's \<Rightarrow> go_error option \<times> 's" where
  "Register r s =
     (case DiscoverVersions (rg_k8sClient r) (rg_matrix r) s of
        (Inl err, s1) \<Rightarrow> (Some (Wrapped (''discovering versions: '' @ error_text err) err), s1)
      | (Inr versions, s1) \<Rightarrow>
          (case rg_CreateProvider r (buildPayload r versions) s1 of
             (Inl err, s2) \<Rightarrow>
               (Some (RetryableError (Wrapped (''calling DCM registry: '' @ error_text err) err)), s2)
           | (Inr resp, s2) \<Rightarrow>
               if dr_StatusCode resp = 200 \<or> dr_StatusCode resp = 201 then (None, s2)
               else if dr_StatusCode resp \<ge> 400 \<and> dr_StatusCode resp < 500
               then (Some (PlainError (''registration rejected by DCM: status '' @ FormatInt (dr_StatusCode resp)
                       @ '': '' @ truncateBody (dr_Body resp))), s2)
               else (Some (RetryableError (PlainError (''registration failed: status ''
                       @ FormatInt (dr_StatusCode resp) @ '': '' @ truncateBody (dr_Body resp)))), s2)))"

subsection \<open>The retry loop\<close>

definition next_backoff :: "RegistrationConfig \<Rightarrow> duration \<Rightarrow> duration" where
  "next_backoff cfg backoff =
     (let b = to_int64 (backoff * 2)
      in if b > rc_RegistrationMaxBackoff cfg then rc_RegistrationMaxBackoff cfg else b)"

partial_function (option) retry_loop ::
  "('s, 'q) Registrar \<Rightarrow> (duration \<Rightarrow> 's \<Rightarrow> bool \<times> 's) \<Rightarrow> duration \<Rightarrow> 's \<Rightarrow> (bool \<times> 's) option" where
  "retry_loop r wait backoff s =
     (case Register r s of (result, s1) \<Rightarrow>
       (case result of
          None \<Rightarrow> Some (True, s1)
        | Some err \<Rightarrow>
            if \<not> isRetryable err then Some (False, s1)
            else (case wait backoff s1 of (cancelled, s2) \<Rightarrow>
              if cancelled then Some (False, s2)
              else retry_loop r wait (next_backoff (rg_cfg r) backoff) s2)))"

definition registerWithRetry ::
  "('s, 'q) Registrar \<Rightarrow> (duration \<Rightarrow> 's \<Rightarrow> bool \<times> 's) \<Rightarrow> 's \<Rightarrow> (bool \<times> 's) option" where
  "registerWithRetry r wait s = retry_loop r wait (rc_RegistrationInitialBackoff (rg_cfg r)) s"

subsection \<open>The version watcher\<close>

text \<open>What one tick does: the versions remembered afterwards and the next state.\<close>

definition version_tick ::
  "('s, 'q) Registrar \<Rightarrow> (duration \<Rightarrow> 's \<Rightarrow> bool \<times> 's) \<Rightarrow> string list \<Rightarrow> 's \<Rightarrow> (string list \<times> 's) option" where
  "version_tick r wait lastVersions s =
     (case DiscoverVersions (rg_k8sClient r) (rg_matrix r) s of
        (Inl err, s1) \<Rightarrow> Some (lastVersions, s1)
      | (Inr currentVersions, s1) \<Rightarrow>
          if lastVersions = currentVersions then Some (lastVersions, s1)
          else (case registerWithRetry r wait s1 of
            None \<Rightarrow> None
          | Some (ok, s2) \<Rightarrow> Some (if ok then currentVersions else lastVersions, s2)))"

text \<open>\<open>ticker\<close> waits for the next tick; \<open>True\<close> is that the context ended.\<close>

partial_function (option) watch_loop ::
  "('s, 'q) Registrar \<Rightarrow> (duration \<Rightarrow> 's \<Rightarrow> bool \<times> 's) \<Rightarrow> ('s \<Rightarrow> bool \<times> 's) \<Rightarrow> string list \<Rightarrow> 's \<Rightarrow> 's option" where
  "watch_loop r wait ticker lastVersions s =
     (case ticker s of (cancelled, s1) \<Rightarrow>
        if cancelled then Some s1
        else Option.bind (version_tick r wait lastVersions s1)
               (\<lambda>(versions, s2). watch_loop r wait ticker versions s2))"

definition run_registrar ::
  "('s, 'q) Registrar \<Rightarrow> (duration \<Rightarrow> 's \<Rightarrow> bool \<times> 's) \<Rightarrow> ('s \<Rightarrow> bool \<times> 's) \<Rightarrow> 's \<Rightarrow> 's option" where
  "run_registrar r wait ticker s =
     (case registerWithRetry r wait s of
        None \<Rightarrow> None
      | Some (False, s1) \<Rightarrow> Some s1
      | Some (True, s1) \<Rightarrow>
          (case DiscoverVersions (rg_k8sClient r) (rg_matrix r) s1 of
             (Inl err, s2) \<Rightarrow> Some s2
           | (Inr lastVersions, s2) \<Rightarrow> watch_loop r wait ticker lastVersions s2))"


subsection \<open>Which attempts are repeated\<close>

text \<open>
  One registration attempt asks the hub for the supported versions and, when that works, makes
  exactly one call to the registry, with those versions.  Statuses 200 and 201 are success; an error
  of the hub and every 4xx answer are final; a transport error and any other status can be retried.
\<close>

theorem register_attempt:
  "case DiscoverVersions (rg_k8sClient r) (rg_matrix r) s of
     (Inl err, s1) \<Rightarrow> snd (Register r s) = s1 \<and> map_option isRetryable (fst (Register r s)) = Some False
   | (Inr versions, s1) \<Rightarrow>
       (case rg_CreateProvider r (buildPayload r versions) s1 of (answer, s2) \<Rightarrow>
          snd (Register r s) = s2 \<and>
          map_option isRetryable (fst (Register r s)) =
            (case answer of
               Inl err \<Rightarrow> Some True
             | Inr resp \<Rightarrow>
                 if dr_StatusCode resp \<in> {200, 201} then None
                 else Some (dr_StatusCode resp < 400 \<or> 500 \<le> dr_StatusCode resp)))"
proof -
  have hub: "\<not> isRetryable err"
    if "DiscoverVersions (rg_k8sClient r) (rg_matrix r) s = (Inl err, s1)" for err s1
    using that by (auto simp: DiscoverVersions_def split: prod.splits sum.splits)
  show ?thesis
    by (auto simp: Register_def hub split: prod.split sum.split)
qed

subsection \<open>The schedule of the retry loop\<close>

definition backoff_at :: "RegistrationConfig \<Rightarrow> nat \<Rightarrow> duration" where
  "backoff_at cfg i =
     (if i = 0 then rc_RegistrationInitialBackoff cfg
      else min (rc_RegistrationInitialBackoff cfg * 2 ^ i) (rc_RegistrationMaxBackoff cfg))"

definition backoff_bounded :: "RegistrationConfig \<Rightarrow> bool" where
  "backoff_bounded cfg \<longleftrightarrow>
     0 \<le> rc_RegistrationInitialBackoff cfg \<and> rc_RegistrationInitialBackoff cfg < 2 ^ 62
     \<and> 0 \<le> rc_RegistrationMaxBackoff cfg \<and> rc_RegistrationMaxBackoff cfg < 2 ^ 62"

lemma backoff_at_bounds: "backoff_bounded cfg \<Longrightarrow> 0 \<le> backoff_at cfg i \<and> backoff_at cfg i < 2 ^ 62"
  by (auto simp: backoff_at_def backoff_bounded_def)

lemma next_backoff_at:
  assumes "backoff_bounded cfg"
  shows "next_backoff cfg (backoff_at cfg i) = backoff_at cfg (Suc i)"
proof -
  have "in_int64 (backoff_at cfg i * 2)"
    using backoff_at_bounds[OF assms, of i] by (simp add: in_int64_def)
  then have "to_int64 (backoff_at cfg i * 2) = backoff_at cfg i * 2" by (rule to_int64_id)
  then show ?thesis
    using assms by (auto simp: next_backoff_def Let_def backoff_at_def backoff_bounded_def min_def algebra_simps)
qed

text \<open>The attempts \<open>0..<n\<close> failed and were waited for; \<open>st i\<close> is the world before attempt \<open>i\<close>.\<close>

definition retried ::
  "('s, 'q) Registrar \<Rightarrow> (duration \<Rightarrow> 's \<Rightarrow> bool \<times> 's) \<Rightarrow> (nat \<Rightarrow> 's) \<Rightarrow> nat \<Rightarrow> bool" where
  "retried r wait st i \<longleftrightarrow>
     (case Register r (st i) of (result, s1) \<Rightarrow>
        (case result of
           None \<Rightarrow> False
         | Some err \<Rightarrow> isRetryable err \<and> wait (backoff_at (rg_cfg r) i) s1 = (False, st (Suc i))))"

lemma retry_loop_step:
  assumes "backoff_bounded (rg_cfg r)" "retried r wait st i"
  shows "retry_loop r wait (backoff_at (rg_cfg r) i) (st i) =
    retry_loop r wait (backoff_at (rg_cfg r) (Suc i)) (st (Suc i))"
  using assms(2) next_backoff_at[OF assms(1), of i]
  by (subst retry_loop.simps) (auto simp: retried_def split: prod.splits option.splits)

lemma retry_loop_steps:
  assumes "backoff_bounded (rg_cfg r)" "\<forall>i < n. retried r wait st i"
  shows "registerWithRetry r wait (st 0) = retry_loop r wait (backoff_at (rg_cfg r) n) (st n)"
  using assms(2)
proof (induction n)
  case 0
  show ?case by (simp add: registerWithRetry_def backoff_at_def)
next
  case (Suc n)
  then show ?case using retry_loop_step[OF assms(1), of wait st n] by simp
qed

lemma retry_loop_forever:
  assumes "backoff_bounded (rg_cfg r)" "\<forall>i. retried r wait st i"
  shows "retry_loop r wait (backoff_at (rg_cfg r) i) (st i) = None"
proof -
  have "(\<exists>i. r' = r \<and> w = wait \<and> b = backoff_at (rg_cfg r) i \<and> s = st i) \<longrightarrow> False"
    if "retry_loop r' w b s = Some y" for r' w b s y
    using that
  proof (induction rule: retry_loop.raw_induct[rotated 1, consumes 1])
    case (1 f r' w b s y)
    show ?case
    proof
      assume "\<exists>i. r' = r \<and> w = wait \<and> b = backoff_at (rg_cfg r) i \<and> s = st i"
      then obtain i where [simp]: "r' = r" "w = wait" "b = backoff_at (rg_cfg r) i" "s = st i" by blast
      have "f r wait (backoff_at (rg_cfg r) (Suc i)) (st (Suc i)) = Some y"
        using "1"(2) assms(2)[rule_format, of i] next_backoff_at[OF assms(1), of i]
        by (auto simp: retried_def split: prod.splits option.splits)
      from "1"(1)[OF this] show False by blast
    qed
  qed
  then show ?thesis by (metis option.exhaust)
qed

text \<open>
  C24: the registration loop repeats an attempt exactly while it fails with a retryable error,
  waiting the initial backoff doubled each time and capped by the maximum.  It returns true with the
  first success, false with the first final error or when the context ends during a wait, and as
  long as none of these happens it does not return.
\<close>

theorem registration_retry_schedule:
  assumes "backoff_bounded (rg_cfg r)" "\<forall>i < n. retried r wait st i"
  shows "(Register r (st n) = (None, s1) \<longrightarrow> registerWithRetry r wait (st 0) = Some (True, s1))
    \<and> (Register r (st n) = (Some err, s1) \<and> \<not> isRetryable err
         \<longrightarrow> registerWithRetry r wait (st 0) = Some (False, s1))
    \<and> (Register r (st n) = (Some err, s1) \<and> isRetryable err
         \<and> wait (backoff_at (rg_cfg r) n) s1 = (True, s2)
         \<longrightarrow> registerWithRetry r wait (st 0) = Some (False, s2))
    \<and> ((\<forall>i. retried r wait st i) \<longrightarrow> registerWithRetry r wait (st 0) = None)"
  using retry_loop_steps[OF assms] retry_loop_forever[OF assms(1), of wait st n]
  by (auto simp: retry_loop.simps[of r wait "backoff_at (rg_cfg r) n" "st n"])


subsection \<open>The watcher keeps the registry in step with the hub\<close>

text \<open>
  The versions a hub offers, and a quiet environment: the registry remembers the payload it
  accepted, and neither its calls nor the waits change the hub.
\<close>

definition offered_versions :: "CompatibilityMatrix \<Rightarrow> 'q hub \<Rightarrow> string list" where
  "offered_versions m h = sorted_list_of_set (see_versions m (hub_images h) {})"

definition quiet_registry ::
  "('s, 'q) Registrar \<Rightarrow> (duration \<Rightarrow> 's \<Rightarrow> bool \<times> 's) \<Rightarrow> ('s \<Rightarrow> 'q hub) \<Rightarrow> ('s \<Rightarrow> Provider option) \<Rightarrow> bool" where
  "quiet_registry r wait view registered \<longleftrightarrow>
     (\<forall>p s resp s'. rg_CreateProvider r p s = (Inr resp, s') \<longrightarrow> dr_StatusCode resp \<in> {200, 201} \<longrightarrow>
        registered s' = Some p)
     \<and> (\<forall>p s. view (snd (rg_CreateProvider r p s)) = view s)
     \<and> (\<forall>d s. view (snd (wait d s)) = view s)"

lemma quiet_registryD:
  assumes "quiet_registry r wait view registered"
  shows "rg_CreateProvider r p s = (Inr resp, s') \<Longrightarrow> dr_StatusCode resp \<in> {200, 201} \<Longrightarrow> registered s' = Some p"
    "rg_CreateProvider r p s = (answer, s') \<Longrightarrow> view s' = view s"
    "wait d s = (cancelled, s') \<Longrightarrow> view s' = view s"
  using assms unfolding quiet_registry_def by (blast, metis snd_conv, metis snd_conv)

lemma DiscoverVersions_view:
  assumes "hub_api c view" "DiscoverVersions c m s = (answer, s1)"
  shows "view s1 = view s" "answer = Inr vs \<Longrightarrow> vs = offered_versions m (view s)"
proof -
  show "view s1 = view s"
    using assms(2) read_view(3)[OF assms(1), of s] by (auto simp: DiscoverVersions_def split: prod.splits sum.splits)
  assume "answer = Inr vs"
  then obtain items where items: "ListClusterImageSets c s = (Inr items, s1)"
    and vs: "vs = sorted_list_of_set (see_versions m items {})"
    using assms(2) by (auto simp: DiscoverVersions_def split: prod.splits sum.splits)
  have "set items = set (hub_images (view s))"
    using list_images[OF assms(1) items] by (rule mset_eq_setD)
  then show "vs = offered_versions m (view s)"
    unfolding vs offered_versions_def by (simp add: see_versions_set)
qed

lemma Register_view:
  assumes "hub_api (rg_k8sClient r) view" "quiet_registry r wait view registered" "Register r s = (result, s1)"
  shows "view s1 = view s"
    "result = None \<Longrightarrow> registered s1 = Some (buildPayload r (offered_versions (rg_matrix r) (view s)))"
proof -
  obtain answer s0 where disc: "DiscoverVersions (rg_k8sClient r) (rg_matrix r) s = (answer, s0)"
    by (cases "DiscoverVersions (rg_k8sClient r) (rg_matrix r) s")
  note d = DiscoverVersions_view[OF assms(1) disc]
  show "view s1 = view s"
    using assms(3) d(1) quiet_registryD(2)[OF assms(2)]
    by (auto simp: Register_def disc split: sum.splits prod.splits if_splits)
  assume "result = None"
  then show "registered s1 = Some (buildPayload r (offered_versions (rg_matrix r) (view s)))"
    using assms(3) d(2) quiet_registryD(1)[OF assms(2)]
    by (auto simp: Register_def disc split: sum.splits prod.splits if_splits)
qed

lemma registerWithRetry_view:
  assumes "hub_api (rg_k8sClient r) view" "quiet_registry r wait view registered"
    and "registerWithRetry r wait s = Some (ok, s')"
  shows "view s' = view s \<and>
    (ok \<longrightarrow> registered s' = Some (buildPayload r (offered_versions (rg_matrix r) (view s))))"
proof -
  let ?goal = "\<lambda>s ok s'. view s' = view s \<and>
    (ok \<longrightarrow> registered s' = Some (buildPayload r (offered_versions (rg_matrix r) (view s))))"
  have "r' = r \<longrightarrow> w = wait \<longrightarrow> ?goal s (fst y) (snd y)" if "retry_loop r' w b s = Some y" for r' w b s y
    using that
  proof (induction rule: retry_loop.raw_induct[rotated 1, consumes 1])
    case (1 f r' w b s y)
    show ?case
    proof (intro impI)
      assume [simp]: "r' = r" "w = wait"
      obtain result s1 where reg: "Register r s = (result, s1)" by (cases "Register r s")
      note v = Register_view[OF assms(1,2) reg]
      obtain c s2 where wt: "wait b s1 = (c, s2)" by (cases "wait b s1")
      have w: "view s2 = view s1" using quiet_registryD(3)[OF assms(2) wt] .
      show "?goal s (fst y) (snd y)"
      proof (cases "\<exists>err. result = Some err \<and> isRetryable err \<and> \<not> c")
        case True
        then have "f r wait (next_backoff (rg_cfg r) b) s2 = Some y" using "1"(2) by (auto simp: reg wt)
        from "1"(1)[OF this] show ?thesis using v(1) w by simp
      next
        case False
        then show ?thesis using "1"(2) v w by (auto simp: reg wt split: option.splits if_splits)
      qed
    qed
  qed
  then show ?thesis using assms(3) by (fastforce simp: registerWithRetry_def)
qed

text \<open>
  C20: a tick of the version watcher during which the hub does not change ends, when it ends, with
  the versions it remembered before, or with exactly the versions the hub offers now, sorted, each
  once, and with a payload of these versions accepted by the registry.  It keeps the old ones only when
  they are still current, the hub cannot be read, or the registration failed for good.  The registry
  keeps the payload it answers with success, and neither its calls nor the waits change the hub; without
  that the payload may differ from what is remembered, since the registration discovers the versions again.
\<close>

theorem version_tick_in_step:
  assumes "hub_api (rg_k8sClient r) view" "quiet_registry r wait view registered"
    and "version_tick r wait lastVersions s = Some (versions, s')"
  shows "view s' = view s
    \<and> (versions = lastVersions
       \<or> (versions = offered_versions (rg_matrix r) (view s) \<and> registered s' = Some (buildPayload r versions)))
    \<and> (versions = lastVersions \<longrightarrow>
         lastVersions = offered_versions (rg_matrix r) (view s)
         \<or> (\<exists>err s1. DiscoverVersions (rg_k8sClient r) (rg_matrix r) s = (Inl err, s1))
         \<or> (\<exists>s1. registerWithRetry r wait s1 = Some (False, s')))"
proof -
  obtain answer s1 where disc: "DiscoverVersions (rg_k8sClient r) (rg_matrix r) s = (answer, s1)"
    by (cases "DiscoverVersions (rg_k8sClient r) (rg_matrix r) s")
  note d = DiscoverVersions_view[OF assms(1) disc]
  show ?thesis
  proof (cases answer)
    case (Inl err)
    then show ?thesis using assms(3) d(1) by (simp add: version_tick_def disc)
  next
    case (Inr current)
    show ?thesis
    proof (cases "lastVersions = current")
      case True
      then show ?thesis using assms(3) d Inr by (simp add: version_tick_def disc)
    next
      case False
      with assms(3) Inr obtain ok where reg: "registerWithRetry r wait s1 = Some (ok, s')"
        and vs: "versions = (if ok then current else lastVersions)"
        by (auto simp: version_tick_def disc split: option.splits)
      show ?thesis
        using registerWithRetry_view[OF assms(1,2) reg] d Inr vs reg False by (cases ok) auto
    qed
  qed
qed


subsection \<open>A world with a registry\<close>

text \<open>A client of a larger world, whose calls change only the first component.\<close>

definition lift_call :: "('s \<Rightarrow> 'a \<times> 's) \<Rightarrow> 's \<times> 'e \<Rightarrow> 'a \<times> ('s \<times> 'e)" where
  "lift_call f w = (fst (f (fst w)), (snd (f (fst w)), snd w))"

definition lift_client :: "('s, 'q) k8s_client \<Rightarrow> ('s \<times> 'e, 'q) k8s_client" where
  "lift_client c = \<lparr>
     ListHostedClusters = (\<lambda>ns sel. lift_call (ListHostedClusters c ns sel)),
     ListNodePools = (\<lambda>ns sel. lift_call (ListNodePools c ns sel)),
     ListClusterImageSets = lift_call (ListClusterImageSets c),
     GetSecret = (\<lambda>ns n. lift_call (GetSecret c ns n)),
     CreateHostedCluster = (\<lambda>x. lift_call (CreateHostedCluster c x)),
     CreateNodePool = (\<lambda>x. lift_call (CreateNodePool c x)),
     CreateSecret = (\<lambda>x. lift_call (CreateSecret c x)),
     UpdateSecret = (\<lambda>x. lift_call (UpdateSecret c x)),
     DeleteHostedCluster = (\<lambda>x. lift_call (DeleteHostedCluster c x)),
     DeleteNodePool = (\<lambda>x. lift_call (DeleteNodePool c x)),
     Recognizes = Recognizes c,
     ListKind = (\<lambda>g. lift_call (ListKind c g))\<rparr>"

lemma lift_call_eq: "lift_call f w = (a, w') \<longleftrightarrow> f (fst w) = (a, fst w') \<and> snd w' = snd w"
  by (cases w') (auto simp: lift_call_def prod_eq_iff)

lemma lift_hub_api:
  assumes "hub_api c view"
  shows "hub_api (lift_client c) (\<lambda>w. view (fst w))"
proof -
  note d = hub_apiD[OF assms]
  have "api_reads (lift_client c) (\<lambda>w. view (fst w))"
    using d(1) by (simp add: api_reads_def lift_client_def lift_call_def)
  moreover have "api_lists (lift_client c) (\<lambda>w. view (fst w))"
    using d(2) by (simp add: api_lists_def lift_client_def lift_call_eq)
  moreover have "api_creates (lift_client c) (\<lambda>w. view (fst w))"
    using d(3) unfolding api_creates_def lift_client_def by (simp add: lift_call_eq)
  moreover have "api_deletes (lift_client c) (\<lambda>w. view (fst w))"
    using d(4) unfolding api_deletes_def lift_client_def by (simp add: lift_call_eq)
  ultimately show ?thesis by (simp add: hub_api_def)
qed

type_synonym registry_world = "nat hub \<times> Provider option \<times> nat"

definition sample_registration :: RegistrationConfig where
  "sample_registration = \<lparr>rc_DCMRegistrationURL = ''http://dcm'', rc_ProviderName = ''acm'',
     rc_ProviderEndpoint = ''http://sp'', rc_RegistrationInitialBackoff = 1000000000,
     rc_RegistrationMaxBackoff = 3000000000, rc_VersionCheckInterval = 60000000000,
     rc_ProviderDisplayName = [], rc_ProviderRegion = ''eu'', rc_ProviderZone = []\<rparr>"

text \<open>A registrar whose registry applies \<open>other\<close> to the hub while it handles a call.\<close>

definition sample_registrar :: "(nat hub \<Rightarrow> nat hub) \<Rightarrow> int \<Rightarrow> (registry_world, nat) Registrar" where
  "sample_registrar other code =
     \<lparr>rg_cfg = sample_registration,
      rg_CreateProvider = (\<lambda>p (h, reg, k).
        (Inr \<lparr>dr_StatusCode = code, dr_Body = []\<rparr>, (other h, if code = 201 then Some p else reg, k))),
      rg_k8sClient = lift_client mem_client, rg_matrix = DefaultCompatibilityMatrix,
      rg_JoinPath = (\<lambda>a b. Inr (a @ b)), rg_endpointSuffix = ''/clusters''\<rparr>"

lemma sample_discover_lift:
  "DiscoverVersions (lift_client mem_client) m (h, e) =
     (Inr (offered_versions m h), (h, e :: Provider option \<times> nat))"
  by (simp add: DiscoverVersions_def lift_client_def lift_call_def mem_client_def offered_versions_def)

lemma sample_offered: "offered_versions DefaultCompatibilityMatrix sample_hub = [''1.28'', ''1.30'']"
  using sample_discover by (simp add: DiscoverVersions_def sample_images offered_versions_def)

lemma sample_registrar_discover:
  "DiscoverVersions (rg_k8sClient (sample_registrar other code)) (rg_matrix (sample_registrar other code)) (h, e) =
     (Inr (offered_versions DefaultCompatibilityMatrix h), (h, e))"
  by (simp add: sample_registrar_def sample_discover_lift)

lemma sample_register:
  "Register (sample_registrar other 201) (h, reg, k) =
     (None, (other h, Some (buildPayload (sample_registrar other 201)
                              (offered_versions DefaultCompatibilityMatrix h)), k))"
  by (simp add: Register_def sample_registrar_def sample_discover_lift)

theorem registration_retry_schedule_witness:
  "registerWithRetry (sample_registrar id 503) (\<lambda>d (h, reg, k). (k = 2, (h, reg, k + 1))) (sample_hub, None, 0)
     = Some (False, (sample_hub, None, 3))"
proof -
  let ?r = "sample_registrar id 503" and ?w = "\<lambda>d (h, reg, k). (k = 2, (h :: nat hub, reg :: Provider option, k + 1))"
  have once: "\<exists>err. Register ?r (sample_hub, reg, k) = (Some err, (sample_hub, reg, k)) \<and> isRetryable err" for reg k
    by (simp add: Register_def sample_registrar_def sample_discover_lift)
  have "backoff_bounded (rg_cfg ?r)"
    by (simp add: backoff_bounded_def sample_registrar_def sample_registration_def)
  moreover have "retried ?r ?w (\<lambda>i. (sample_hub, None, i)) i" if "i < 2" for i
  proof -
    obtain err where "Register ?r (sample_hub, None, i) = (Some err, (sample_hub, None, i))" "isRetryable err"
      using once by blast
    then show ?thesis using that by (simp add: retried_def)
  qed
  moreover obtain err where "Register ?r (sample_hub, None, 2) = (Some err, (sample_hub, None, 2))" "isRetryable err"
    using once by blast
  ultimately show ?thesis
    using registration_retry_schedule[where r = ?r and wait = ?w and st = "\<lambda>i. (sample_hub, None, i)" and n = 2
        and err = err and ?s1.0 = "(sample_hub, None, 2)" and ?s2.0 = "(sample_hub, None, 3)"]
    by simp
qed

theorem version_tick_in_step_witness:
  "\<exists>w. version_tick (sample_registrar id 201) (\<lambda>d w. (False, w)) [''1.28''] (sample_hub, None, 0)
        = Some ([''1.28'', ''1.30''], w)
     \<and> fst (snd w) = Some (buildPayload (sample_registrar id 201) [''1.28'', ''1.30''])"
proof -
  let ?r = "sample_registrar id 201"
  let ?p = "Some (buildPayload ?r [''1.28'', ''1.30''])"
  have tick: "version_tick ?r (\<lambda>d w. (False, w)) [''1.28''] (sample_hub, None, 0)
      = Some ([''1.28'', ''1.30''], (sample_hub, ?p, 0))"
    by (simp add: version_tick_def registerWithRetry_def retry_loop.simps sample_register sample_offered
        sample_registrar_discover)
  have "hub_api (rg_k8sClient ?r) (\<lambda>w. id (fst w))"
    using lift_hub_api[OF mem_hub_api] by (simp add: sample_registrar_def)
  moreover have "quiet_registry ?r (\<lambda>d w. (False, w)) (\<lambda>w. id (fst w)) (\<lambda>w. fst (snd w))"
    by (auto simp: quiet_registry_def sample_registrar_def)
  ultimately show ?thesis
    using version_tick_in_step[where r = ?r and wait = "\<lambda>d w. (False, w)" and view = "\<lambda>w. id (fst w)"
        and registered = "\<lambda>w. fst (snd w)", OF _ _ tick] tick
    by auto
qed

definition add_image :: "nat hub \<Rightarrow> nat hub" where
  "add_image h = h\<lparr>hub_images := [''x:4.18.0'', ''x:4.17.1'']\<rparr>"

lemma sample_extract_added:
  "ExtractOCPVersion ''x:4.18.0'' = ''4.18''" "ExtractOCPVersion ''x:4.17.1'' = ''4.17''"
  by code_simp+

definition ticks :: "nat \<Rightarrow> registry_world \<Rightarrow> bool \<times> registry_world" where
  "ticks n w = (case w of (h, reg, k) \<Rightarrow> (n \<le> k, (h, reg, k + 1)))"

lemma watch_settled:
  assumes "\<And>k. version_tick r wait vs (h, reg, k) = Some (vs, (h, reg, k))"
  shows "watch_loop r wait (ticks n) vs (h, reg, k) = Some (h, reg, max n k + 1)"
proof (induction "n - k" arbitrary: k)
  case 0
  then show ?case by (subst watch_loop.simps) (auto simp: ticks_def)
next
  case (Suc d)
  then have "\<not> n \<le> k" by simp
  then have "watch_loop r wait (ticks n) vs (h, reg, k) = watch_loop r wait (ticks n) vs (h, reg, Suc k)"
    by (subst watch_loop.simps) (simp add: ticks_def assms)
  then show ?case using Suc(1)[of "Suc k"] Suc(2) by simp
qed

text \<open>
  The versions compared at a tick are those read after the registration, not those that were
  registered.  When an image appears in between, here while the registry handles the first call, the
  watcher takes the new set as its baseline, and however many ticks follow the registry is never
  told of the new version.
\<close>

theorem baseline_misses_update:
  "\<exists>s. run_registrar (sample_registrar add_image 201) (\<lambda>d w. (False, w)) (ticks n) (sample_hub, None, 0) = Some s
    \<and> fst (snd s) = Some (buildPayload (sample_registrar add_image 201) [''1.28'', ''1.30''])
    \<and> offered_versions DefaultCompatibilityMatrix (fst s) = [''1.30'', ''1.31'']"
proof -
  let ?r = "sample_registrar add_image 201" and ?p = "Some (buildPayload (sample_registrar add_image 201) [''1.28'', ''1.30''])"
  have "see_versions DefaultCompatibilityMatrix [''x:4.18.0'', ''x:4.17.1''] {} = {''1.30'', ''1.31''}"
    using sample_extract_added by (auto simp: DefaultCompatibilityMatrix_def)
  then have vs: "offered_versions DefaultCompatibilityMatrix (add_image sample_hub) = [''1.30'', ''1.31'']"
    by (simp add: offered_versions_def add_image_def)
  have tick: "version_tick ?r (\<lambda>d w. (False, w)) [''1.30'', ''1.31''] (add_image sample_hub, ?p, k)
      = Some ([''1.30'', ''1.31''], (add_image sample_hub, ?p, k))" for k
    by (simp add: version_tick_def sample_registrar_discover vs)
  show ?thesis
    by (simp add: run_registrar_def registerWithRetry_def retry_loop.simps sample_register sample_offered
        sample_registrar_discover vs watch_settled[OF tick])
qed

text \<open>
  A single failed list call of the hub ends the registration for good: before the registration, without
  a call to the registry, and after it, without a watcher.
\<close>

theorem list_failure_ends_registration:
  "ListClusterImageSets (rg_k8sClient r) s = (Inl err, s1) \<Longrightarrow> run_registrar r wait ticker s = Some s1"
  "registerWithRetry r wait s = Some (True, s1) \<Longrightarrow> ListClusterImageSets (rg_k8sClient r) s1 = (Inl err, s2)
    \<Longrightarrow> run_registrar r wait ticker s = Some s2"
  by (simp_all add: run_registrar_def registerWithRetry_def retry_loop.simps Register_def DiscoverVersions_def)

end
