(* ===== verification/Service.thy ===== *)
theory Service
  imports ApiTypes
begin

text \<open>
  The interface between the HTTP handler and the cluster operations, \<open>internal/service\<close>: the four
  methods of \<open>ClusterService\<close> as state-passing functions, and the kinds of error each may answer
  with.  The handler's results are proved against this contract, the dispatcher provides it.
\<close>

record 's cluster_service =
  svc_Create :: "string \<Rightarrow> Cluster \<Rightarrow> 's \<Rightarrow> (go_error + Cluster) \<times> 's"
  svc_Get :: "string \<Rightarrow> 's \<Rightarrow> (go_error + Cluster) \<times> 's"
  svc_List :: "int \<Rightarrow> string \<Rightarrow> 's \<Rightarrow> (go_error + ClusterList) outcome \<times> 's"
  svc_Delete :: "string \<Rightarrow> 's \<Rightarrow> go_error option \<times> 's"

definition create_kinds :: "ErrorType set" where
  "create_kinds = {ErrorTypeINVALIDARGUMENT, ErrorTypeUNPROCESSABLEENTITY, ErrorTypeALREADYEXISTS,
     ErrorTypeINTERNAL}"

definition lookup_kinds :: "ErrorType set" where
  "lookup_kinds = {ErrorTypeNOTFOUND, ErrorTypeINTERNAL}"

definition list_kinds :: "ErrorType set" where
  "list_kinds = {ErrorTypeINVALIDARGUMENT, ErrorTypeINTERNAL}"

lemmas error_kinds = create_kinds_def lookup_kinds_def list_kinds_def

locale cluster_service_contract =
  fixes svc :: "'s cluster_service"
  assumes create_errors: "svc_Create svc i req s = (Inl e, s') \<Longrightarrow> \<exists>t \<in> create_kinds. domain_type e = Some t"
    and get_errors: "svc_Get svc i s = (Inl e, s') \<Longrightarrow> \<exists>t \<in> lookup_kinds. domain_type e = Some t"
    and list_errors: "svc_List svc n tok s = (Returns (Inl e), s') \<Longrightarrow> \<exists>t \<in> list_kinds. domain_type e = Some t"
    and delete_errors: "svc_Delete svc i s = (Some e, s') \<Longrightarrow> \<exists>t \<in> lookup_kinds. domain_type e = Some t"
    and get_id: "svc_Get svc i s = (Inr cl, s') \<Longrightarrow> \<exists>j. cl_Id cl = Some j"
    and create_id: "svc_Create svc i req s = (Inr cl, s') \<Longrightarrow> cl_Id cl = Some i"

end
