(* ===== verification/Base64.thy ===== *)
theory Base64
  imports Prelude
begin

text \<open>
  \<open>base64.StdEncoding\<close> of Go's standard library: the padded alphabet \<open>A-Za-z0-9+/\<close>.  The decoder
  skips carriage returns and line feeds, wants complete quanta, accepts padding only in the last
  quantum, and does not look at the unused low bits of a padded quantum.
\<close>

definition b64_char :: "nat \<Rightarrow> char" where
  "b64_char n =
     (if n < 26 then char_of (65 + n)
      else if n < 52 then char_of (97 + (n - 26))
      else if n < 62 then char_of (48 + (n - 52))
      else if n = 62 then CHR ''+'' else CHR ''/'')"

definition b64_val :: "char \<Rightarrow> nat option" where
  "b64_val c =
     (let n = of_char c in
      if 65 \<le> n \<and> n \<le> 90 then Some (n - 65)
      else if 97 \<le> n \<and> n \<le> 122 then Some (n - 97 + 26)
      else if 48 \<le> n \<and> n \<le> 57 then Some (n - 48 + 52)
      else if c = CHR ''+'' then Some 62
      else if c = CHR ''/'' then Some 63
      else None)"

text \<open>The four characters of a 24-bit group, most significant first.\<close>

definition b64_group :: "nat \<Rightarrow> string" where
  "b64_group n = [b64_char (n div 262144 mod 64), b64_char (n div 4096 mod 64),
                  b64_char (n div 64 mod 64), b64_char (n mod 64)]"

fun EncodeToString :: "string \<Rightarrow> string" where
  "EncodeToString [] = []"
| "EncodeToString [a] = take 2 (b64_group (of_char a * 65536)) @ ''==''"
| "EncodeToString [a, b] = take 3 (b64_group (of_char a * 65536 + of_char b * 256)) @ ''=''"
| "EncodeToString (a # b # c # rest) =
     b64_group (of_char a * 65536 + of_char b * 256 + of_char c) @ EncodeToString rest"

text \<open>One quantum of four alphabet characters, as three bytes.\<close>

definition b64_quantum :: "nat \<Rightarrow> nat \<Rightarrow> nat \<Rightarrow> nat \<Rightarrow> string" where
  "b64_quantum v w x y =
     (let n = v * 262144 + w * 4096 + x * 64 + y
      in [char_of (n div 65536), char_of (n div 256 mod 256), char_of (n mod 256)])"

fun decode_quanta :: "string \<Rightarrow> string option" where
  "decode_quanta [] = Some []"
| "decode_quanta (p # q # r # s # rest) =
     (case (b64_val p, b64_val q) of
        (Some v, Some w) \<Rightarrow>
          (case b64_val r of
             None \<Rightarrow>
               if r = CHR ''='' \<and> s = CHR ''='' \<and> rest = []
               then Some (take 1 (b64_quantum v w 0 0)) else None
           | Some x \<Rightarrow>
               (case b64_val s of
                  None \<Rightarrow>
                    if s = CHR ''='' \<and> rest = []
                    then Some (take 2 (b64_quantum v w x 0)) else None
                | Some y \<Rightarrow> map_option ((@) (b64_quantum v w x y)) (decode_quanta rest)))
      | _ \<Rightarrow> None)"
| "decode_quanta _ = None"

definition is_newline :: "char \<Rightarrow> bool" where
  "is_newline c \<longleftrightarrow> of_char c = (13 :: nat) \<or> of_char c = (10 :: nat)"

definition DecodeString :: "string \<Rightarrow> string option" where
  "DecodeString s = decode_quanta (filter (\<lambda>c. \<not> is_newline c) s)"

subsection \<open>Decoding undoes encoding\<close>

lemma b64_val_char: "n < 64 \<Longrightarrow> b64_val (b64_char n) = Some n"
  by (auto simp: b64_val_def b64_char_def Let_def take_bit_eq_mod)

lemma b64_char_plain: "n < 64 \<Longrightarrow> \<not> is_newline (b64_char n)"
  using b64_val_char[of n] by (auto simp: is_newline_def b64_val_def split: if_splits)

lemma b64_pad [simp]: "b64_val CHR ''='' = None" "\<not> is_newline CHR ''=''"
  by (simp_all add: b64_val_def is_newline_def)

lemma b64_group_plain: "c \<in> set (b64_group n) \<Longrightarrow> \<not> is_newline c"
  by (auto simp: b64_group_def b64_char_plain)

lemma Encode_plain: "c \<in> set (EncodeToString s) \<Longrightarrow> \<not> is_newline c"
  by (induction s rule: EncodeToString.induct) (auto dest: in_set_takeD b64_group_plain)

lemma Encode_no_newline: "filter (\<lambda>c. \<not> is_newline c) (EncodeToString s) = EncodeToString s"
  by (simp add: Encode_plain)

lemma b64_regroup:
  fixes n :: nat
  assumes "n < 16777216"
  shows "n div 262144 mod 64 * 262144 + n div 4096 mod 64 * 4096 + n div 64 mod 64 * 64 + n mod 64 = n"
proof -
  have "n mod (64 * 64) = 64 * (n div 64 mod 64) + n mod 64" by (rule mod_mult2_eq)
  moreover have "n mod (4096 * 64) = 4096 * (n div 4096 mod 64) + n mod 4096" by (rule mod_mult2_eq)
  moreover have "n mod (262144 * 64) = 262144 * (n div 262144 mod 64) + n mod 262144"
    by (rule mod_mult2_eq)
  ultimately show ?thesis using assms by simp
qed

lemma b64_quantum_bytes:
  fixes x y z :: nat
  assumes "x < 256" "y < 256" "z < 256" and n: "n = x * 65536 + y * 256 + z"
  shows "b64_quantum (n div 262144 mod 64) (n div 4096 mod 64) (n div 64 mod 64) (n mod 64) =
    [char_of x, char_of y, char_of z]"
proof -
  have bound: "n < 16777216" using assms by simp
  have bytes: "n div 65536 = x" "n div 256 = x * 256 + y" "n mod 256 = z"
    using assms mod_mult_self3[of "x * 256 + y" 256 z] by (auto simp: algebra_simps)
  show ?thesis
    unfolding b64_quantum_def Let_def b64_regroup[OF bound] bytes using assms(2) by simp
qed

lemma of_char_less: "of_char (c :: char) < (256 :: nat)"
  by simp

lemma b64_quantum3:
  "n = of_char a * 65536 + of_char b * 256 + of_char c \<Longrightarrow>
   b64_quantum (n div 262144 mod 64) (n div 4096 mod 64) (n div 64 mod 64) (n mod 64) = [a, b, c]"
  using b64_quantum_bytes[OF of_char_less of_char_less of_char_less, of n a b c] by simp

lemma b64_low_zero:
  fixes m :: nat
  shows "m * 256 mod 64 = 0" "m * 65536 div 64 mod 64 = 0"
proof -
  have "m * 256 = 64 * (4 * m)" "m * 65536 div 64 = 64 * (16 * m)" by simp_all
  then show "m * 256 mod 64 = 0" "m * 65536 div 64 mod 64 = 0"
    by (simp_all only: mod_mult_self1_is_0)
qed

lemma decode_encode_quanta: "decode_quanta (EncodeToString s) = Some s"
proof (induction s rule: EncodeToString.induct)
  case (2 a)
  define n :: nat where "n = of_char a * 65536"
  have "n mod 64 = 0" "n div 64 mod 64 = 0"
    using b64_low_zero(1)[of "of_char a * 256"] b64_low_zero(2)[of "of_char a"]
    by (simp_all add: n_def)
  then show ?case
    using b64_quantum3[of n a "char_of (0 :: nat)" "char_of (0 :: nat)"]
    by (simp add: b64_group_def b64_val_char numeral_2_eq_2 n_def[symmetric])
next
  case (3 a b)
  define n :: nat where "n = of_char a * 65536 + of_char b * 256"
  have "n mod 64 = 0"
    using b64_low_zero(1)[of "of_char a * 256 + of_char b"] by (simp add: n_def algebra_simps)
  then show ?case
    using b64_quantum3[of n a b "char_of (0 :: nat)"]
    by (simp add: b64_group_def b64_val_char numeral_3_eq_3 numeral_2_eq_2 n_def[symmetric])
next
  case (4 a b c rest)
  define n :: nat where "n = of_char a * 65536 + of_char b * 256 + of_char c"
  show ?case
    using b64_quantum3[OF n_def] "4.IH"
    by (simp add: b64_group_def b64_val_char n_def[symmetric])
qed simp

lemma Decode_Encode: "DecodeString (EncodeToString s) = Some s"
  by (simp add: DecodeString_def Encode_no_newline decode_encode_quanta)

end
