(* ===== verification/Convert.thy ===== *)
theory Convert
  imports Versions Base64
begin

text \<open>
  \<open>internal/cluster/convert.go\<close>: memory strings, and the conversion of a HostedCluster to the
  resource of the API with its endpoint, console address and kubeconfig.
\<close>

text \<open>The verb \<open>%q\<close> (\<open>strconv.Quote\<close>) for the error text.\<close>

definition ParseDCMMemory :: "'q quantity_api \<Rightarrow> string \<Rightarrow> go_error + 'q" where
  "ParseDCMMemory qa s =
     (if s = [] then Inl (PlainError ''empty memory/storage value'')
      else
        let k8sValue = TrimSuffix s ''B'' in
        if k8sValue = s then Inl (PlainError (''unsupported memory/storage format: '' @ s))
        else case ParseQuantity qa k8sValue of
          Inl err \<Rightarrow>
            Inl (Wrapped (''invalid memory/storage value '' @ Quote s @ '': '' @ error_text err) err)
        | Inr q \<Rightarrow> Inr q)"

fun conditionMessage :: "condition list \<Rightarrow> string \<Rightarrow> string option" where
  "conditionMessage [] condType = None"
| "conditionMessage (c # cs) condType =
     (if co_Type c = condType \<and> co_Message c \<noteq> [] then Some (co_Message c)
      else conditionMessage cs condType)"

definition BuildAPIEndpoint :: "HostedCluster \<Rightarrow> string option" where
  "BuildAPIEndpoint hc =
     (if hc_EndpointHost hc = [] then None
      else Some (''https://'' @ JoinHostPort (hc_EndpointHost hc) (FormatInt (hc_EndpointPort hc))))"

definition BuildConsoleURI :: "string \<Rightarrow> HostedCluster \<Rightarrow> string option" where
  "BuildConsoleURI pattern hc =
     (if hc_BaseDomain hc = [] then None
      else
        let uri = pattern;
            uri = ReplaceAll uri ''{name}'' (hc_Name hc);
            uri = ReplaceAll uri ''{base_domain}'' (hc_BaseDomain hc)
        in Some uri)"

definition ExtractKubeconfig ::
  "('s, 'q) k8s_client \<Rightarrow> HostedCluster \<Rightarrow> 's \<Rightarrow> string option \<times> 's" where
  "ExtractKubeconfig c hc s =
     (case hc_KubeConfigName hc of
        None \<Rightarrow> (None, s)
      | Some n \<Rightarrow>
          if n = [] then (None, s)
          else case GetSecret c (hc_Namespace hc) n s of
            (Inl err, s') \<Rightarrow> (None, s')
          | (Inr secret, s') \<Rightarrow>
              (case se_Data secret ''kubeconfig'' of
                 None \<Rightarrow> (None, s')
               | Some data \<Rightarrow>
                   if length data = 0 then (None, s') else (Some (EncodeToString data), s')))"

text \<open>The loop for the latest transition, from the first condition on.\<close>

fun latest_transition :: "time \<Rightarrow> condition list \<Rightarrow> time" where
  "latest_transition latest [] = latest"
| "latest_transition latest (cond # conds) =
     latest_transition
       (if co_LastTransitionTime cond > latest then co_LastTransitionTime cond else latest) conds"

definition HostedClusterToCluster ::
  "('s, 'q) k8s_client \<Rightarrow> ClusterConfig \<Rightarrow> HostedCluster \<Rightarrow> 's \<Rightarrow> Cluster \<times> 's" where
  "HostedClusterToCluster c cfg hc s =
     (let instanceID = map_get (hc_Labels hc) LabelInstanceID;
          clusterStatus = MapConditionsToStatus (hc_Conditions hc) (hc_DeletionTimestamp hc);
          statusMessage =
            (case clusterStatus of
               FAILED \<Rightarrow> conditionMessage (hc_Conditions hc) ''Degraded''
             | UNAVAILABLE \<Rightarrow> conditionMessage (hc_Conditions hc) ''Available''
             | _ \<Rightarrow> None);
          createTime =
            (if hc_CreationTimestamp hc \<noteq> 0 then Some (hc_CreationTimestamp hc) else None);
          updateTime =
            (case hc_Conditions hc of
               [] \<Rightarrow> createTime
             | first # others \<Rightarrow> Some (latest_transition (co_LastTransitionTime first) others));
          cl = \<lparr>cl_ApiEndpoint = None, cl_ConsoleUri = None, cl_CreateTime = createTime,
                cl_Id = Some instanceID, cl_Kubeconfig = None,
                cl_Path = Some (''clusters/'' @ instanceID),
                cl_Spec = \<lparr>cs_Metadata = \<lparr>cm_Labels = None, cm_Name = hc_Name hc\<rparr>,
                           cs_Nodes = None, cs_ProviderHints = None,
                           cs_ServiceType = ClusterSpecServiceTypeCluster,
                           cs_Version = ReleaseImageToK8sVersion (hc_ReleaseImage hc) (cc_VersionMatrix cfg)\<rparr>,
                cl_Status = Some (status_string clusterStatus), cl_StatusMessage = statusMessage,
                cl_UpdateTime = updateTime\<rparr>
      in if clusterStatus = READY \<or> clusterStatus = UNAVAILABLE then
           let (kubeconfig, s') = ExtractKubeconfig c hc s in
           (cl\<lparr>cl_ApiEndpoint := BuildAPIEndpoint hc,
               cl_ConsoleUri := BuildConsoleURI (cc_ConsoleURIPattern cfg) hc,
               cl_Kubeconfig := kubeconfig\<rparr>, s')
         else (cl, s))"

subsection \<open>Facts\<close>

lemma ParseDCMMemory_suffix:
  "ParseDCMMemory qa (v @ ''B'') =
     (case ParseQuantity qa v of
        Inl err \<Rightarrow> Inl (Wrapped (''invalid memory/storage value '' @ Quote (v @ ''B'') @ '': '' @ error_text err) err)
      | Inr q \<Rightarrow> Inr q)"
  using TrimSuffix_append[of v "''B''"] by (simp add: ParseDCMMemory_def)

lemma ParseDCMMemory_plain:
  "\<not> HasSuffix s ''B'' \<Longrightarrow> \<exists>m. ParseDCMMemory qa s = Inl (PlainError m)"
  using TrimSuffix_same_iff[of "''B''" s] by (auto simp: ParseDCMMemory_def Let_def)

lemma latest_transition_Max:
  "latest_transition t cs = Max (set (t # map co_LastTransitionTime cs))"
proof -
  have "latest_transition t cs = fold max (map co_LastTransitionTime cs) t"
    by (induction t cs rule: latest_transition.induct) (auto simp: max_def)
  also have "\<dots> = Max (set (t # map co_LastTransitionTime cs))" by (rule Max.set_eq_fold [symmetric])
  finally show ?thesis .
qed

lemma conditionMessage_Some:
  "conditionMessage cs t = Some m \<Longrightarrow> m \<noteq> [] \<and> (\<exists>c \<in> set cs. co_Type c = t \<and> co_Message c = m)"
  by (induction cs t rule: conditionMessage.induct) (auto split: if_splits)

lemma ExtractKubeconfig_decodes:
  assumes "ExtractKubeconfig c hc s = (Some k, s')"
  shows "\<exists>n secret data. hc_KubeConfigName hc = Some n \<and> GetSecret c (hc_Namespace hc) n s = (Inr secret, s')
    \<and> se_Data secret ''kubeconfig'' = Some data \<and> data \<noteq> [] \<and> DecodeString k = Some data"
  using assms
  by (auto simp: ExtractKubeconfig_def Decode_Encode split: option.splits prod.splits sum.splits if_splits)

lemma ExtractKubeconfig_view:
  "hub_api c view \<Longrightarrow> view (snd (ExtractKubeconfig c hc s)) = view s"
  by (auto simp: ExtractKubeconfig_def split: option.split prod.split sum.split dest: read_view(4))

lemma convert_view:
  "hub_api c view \<Longrightarrow> view (snd (HostedClusterToCluster c cfg hc s)) = view s"
  using ExtractKubeconfig_view[of c view hc s]
  by (simp add: HostedClusterToCluster_def Let_def case_prod_beta')

lemma convert_fields:
  "cl_Id (fst (HostedClusterToCluster c cfg hc s)) = Some (map_get (hc_Labels hc) LabelInstanceID)"
  "cm_Name (cs_Metadata (cl_Spec (fst (HostedClusterToCluster c cfg hc s)))) = hc_Name hc"
  "cl_Status (fst (HostedClusterToCluster c cfg hc s)) =
     Some (status_string (MapConditionsToStatus (hc_Conditions hc) (hc_DeletionTimestamp hc)))"
  "cs_Version (cl_Spec (fst (HostedClusterToCluster c cfg hc s))) =
     ReleaseImageToK8sVersion (hc_ReleaseImage hc) (cc_VersionMatrix cfg)"
  by (simp_all add: HostedClusterToCluster_def Let_def case_prod_beta')

text \<open>
  C32: a cluster shows its endpoint, console address and kubeconfig only while it is ready or
  unavailable; in every other status no Secret is read.  A kubeconfig is the base64 form of the
  non-empty entry of the Secret the HostedCluster names in its own namespace, and a status message
  is the message of a condition of a failed or unavailable cluster.
\<close>

theorem cluster_access_by_status:
  assumes "HostedClusterToCluster c cfg hc s = (cl, s')"
    and "st = MapConditionsToStatus (hc_Conditions hc) (hc_DeletionTimestamp hc)"
  shows "cl_Status cl = Some (status_string st)
    \<and> (st \<notin> {READY, UNAVAILABLE} \<longrightarrow>
         cl_ApiEndpoint cl = None \<and> cl_ConsoleUri cl = None \<and> cl_Kubeconfig cl = None \<and> s' = s)
    \<and> (st \<in> {READY, UNAVAILABLE} \<longrightarrow>
         cl_ApiEndpoint cl = BuildAPIEndpoint hc \<and> (cl_ApiEndpoint cl = None \<longleftrightarrow> hc_EndpointHost hc = []))
    \<and> (\<forall>k. cl_Kubeconfig cl = Some k \<longrightarrow>
         (\<exists>n secret data. hc_KubeConfigName hc = Some n \<and> GetSecret c (hc_Namespace hc) n s = (Inr secret, s')
            \<and> se_Data secret ''kubeconfig'' = Some data \<and> data \<noteq> [] \<and> DecodeString k = Some data))
    \<and> (\<forall>m. cl_StatusMessage cl = Some m \<longrightarrow>
         st \<in> {FAILED, UNAVAILABLE} \<and> m \<noteq> [] \<and> (\<exists>co \<in> set (hc_Conditions hc). co_Message co = m))"
    (is "?status \<and> ?hidden \<and> ?shown \<and> ?kube \<and> ?msg")
proof (intro conjI)
  note conv = assms(1)[unfolded HostedClusterToCluster_def Let_def, folded assms(2)]
  show ?status using conv by (auto split: if_splits prod.splits)
  show ?hidden using conv by (auto split: if_splits prod.splits)
  show ?shown using conv by (auto simp: BuildAPIEndpoint_def split: if_splits prod.splits)
  show ?kube using conv ExtractKubeconfig_decodes[of c hc s] by (auto split: if_splits prod.splits)
  show ?msg
    using conv conditionMessage_Some[of "hc_Conditions hc"]
    by (auto split: if_splits prod.splits ClusterStatus.splits; blast)
qed

definition ready_hc :: HostedCluster where
  "ready_hc = \<lparr>hc_Name = ''demo'', hc_Namespace = ''clusters'', hc_Labels = DCMLabels ''id-1'',
     hc_Annotations = Map.empty, hc_CreationTimestamp = 5, hc_DeletionTimestamp = None,
     hc_PlatformType = KubevirtPlatform, hc_AgentNamespace = None,
     hc_ReleaseImage = ''r:4.17.3'', hc_BaseDomain = ''example.com'', hc_Services = [],
     hc_Etcd = None, hc_PullSecretName = ''ps'',
     hc_Conditions =
       [\<lparr>co_Type = ''Available'', co_Status = ''True'', co_Message = [], co_LastTransitionTime = 9\<rparr>,
        \<lparr>co_Type = ''Progressing'', co_Status = ''False'', co_Message = [], co_LastTransitionTime = 8\<rparr>],
     hc_KubeConfigName = Some ''kc'', hc_EndpointHost = ''10.0.0.1'', hc_EndpointPort = 6443\<rparr>"

definition ready_hub :: "nat hub" where
  "ready_hub = \<lparr>hub_hcs = [ready_hc], hub_nps = [], hub_images = [],
     hub_secrets = [\<lparr>se_Name = ''kc'', se_Namespace = ''clusters'', se_Labels = Map.empty,
        se_Data = [''kubeconfig'' \<mapsto> ''yaml''], se_Type = ''Opaque''\<rparr>]\<rparr>"

definition sample_cfg :: ClusterConfig where
  "sample_cfg = \<lparr>cc_ClusterNamespace = ''clusters'', cc_BaseDomain = ''example.com'',
     cc_PullSecret = ''{}'', cc_PullSecretName = ''ps'',
     cc_ConsoleURIPattern = ''https://console.{name}.{base_domain}'', cc_VersionMatrixPath = [],
     cc_DefaultInfraEnv = ''infra'', cc_AgentNamespace = ''agents'', cc_InfraEnvLabelKey = ''infraenv'',
     cc_VersionMatrix = DefaultCompatibilityMatrix\<rparr>"

lemma ready_status: "MapConditionsToStatus (hc_Conditions ready_hc) (hc_DeletionTimestamp ready_hc) = READY"
  by (simp add: ready_hc_def MapConditionsToStatus_def ConditionTrue_def)

theorem cluster_access_by_status_witness:
  "cl_Status (fst (HostedClusterToCluster mem_client sample_cfg ready_hc ready_hub)) = Some ''READY''
   \<and> cl_ApiEndpoint (fst (HostedClusterToCluster mem_client sample_cfg ready_hc ready_hub)) =
      BuildAPIEndpoint ready_hc"
  using cluster_access_by_status[OF surjective_pairing ready_status[symmetric],
      of mem_client sample_cfg ready_hub] by simp

text \<open>
  The update time is the latest transition of any condition, and without conditions the
  creation time; a cluster that was never stored has neither.
\<close>

theorem cluster_update_time:
  "cl_UpdateTime (fst (HostedClusterToCluster c cfg hc s)) =
     (if hc_Conditions hc \<noteq> [] then Some (Max (set (map co_LastTransitionTime (hc_Conditions hc))))
      else if hc_CreationTimestamp hc \<noteq> 0 then Some (hc_CreationTimestamp hc) else None)"
proof (cases "hc_Conditions hc")
  case (Cons first others)
  then show ?thesis
    using latest_transition_Max[of "co_LastTransitionTime first" others]
    by (simp add: HostedClusterToCluster_def Let_def case_prod_beta')
qed (simp add: HostedClusterToCluster_def Let_def case_prod_beta')

end
