(* ===== verification/Operations.thy ===== *)
theory Operations
  imports Convert
begin

text \<open>
  \<open>internal/cluster/operations.go\<close>: the operations every platform shares.  A cluster is found by the
  instance id label, listed in pages whose token is the base64 form of an offset, and deleted
  node pools first.
\<close>

definition findByInstanceID ::
  "('s, 'q) k8s_client \<Rightarrow> string \<Rightarrow> string \<Rightarrow> 's \<Rightarrow> (go_error + HostedCluster) \<times> 's" where
  "findByInstanceID c ns iid s =
     (case ListHostedClusters c ns [(LabelInstanceID, iid)] s of
        (Inl err, s') \<Rightarrow> (Inl (NewInternalError ''failed to list clusters'' (K8sError err)), s')
      | (Inr items, s') \<Rightarrow>
          (case items of
             [] \<Rightarrow> (Inl (NewNotFoundError (''cluster '' @ iid @ '' not found'')), s')
           | hc # _ \<Rightarrow> (Inr hc, s')))"

fun delete_each ::
  "('s, 'q) k8s_client \<Rightarrow> 'q NodePool list \<Rightarrow> 's \<Rightarrow> go_error option \<times> 's" where
  "delete_each c [] s = (None, s)"
| "delete_each c (np # nps) s =
     (case DeleteNodePool c np s of
        (None, s') \<Rightarrow> delete_each c nps s'
      | (Some err, s') \<Rightarrow>
          if \<not> IsNotFound err
          then (Some (NewInternalError ''failed to delete node pool'' (K8sError err)), s')
          else delete_each c nps s')"

definition deleteNodePools ::
  "('s, 'q) k8s_client \<Rightarrow> string \<Rightarrow> string \<Rightarrow> 's \<Rightarrow> go_error option \<times> 's" where
  "deleteNodePools c ns instanceID s =
     (case ListNodePools c ns [(LabelInstanceID, instanceID)] s of
        (Inl err, s') \<Rightarrow>
          (Some (NewInternalError ''failed to list node pools for deletion'' (K8sError err)), s')
      | (Inr items, s') \<Rightarrow> delete_each c items s')"

definition GetCluster ::
  "('s, 'q) k8s_client \<Rightarrow> ClusterConfig \<Rightarrow> string \<Rightarrow> 's \<Rightarrow> (go_error + Cluster) \<times> 's" where
  "GetCluster c cfg iid s =
     (case findByInstanceID c (cc_ClusterNamespace cfg) iid s of
        (Inl err, s') \<Rightarrow> (Inl err, s')
      | (Inr hc, s') \<Rightarrow> (let (result, s'') = HostedClusterToCluster c cfg hc s' in (Inr result, s'')))"

text \<open>The offset a page token stands for; an empty token is offset \<open>0\<close>.\<close>

definition page_offset :: "string \<Rightarrow> go_error + int" where
  "page_offset pageToken =
     (if pageToken = [] then Inr 0
      else case DecodeString pageToken of
        None \<Rightarrow> Inl (NewInvalidArgumentError ''invalid page_token'')
      | Some decoded \<Rightarrow>
          (case Atoi decoded of
             None \<Rightarrow> Inl (NewInvalidArgumentError ''invalid page_token'')
           | Some v \<Rightarrow>
               if v < 0 then Inl (NewInvalidArgumentError ''invalid page_token'') else Inr v))"

fun convert_each ::
  "('s, 'q) k8s_client \<Rightarrow> ClusterConfig \<Rightarrow> HostedCluster list \<Rightarrow> 's \<Rightarrow> Cluster list \<times> 's" where
  "convert_each c cfg [] s = ([], s)"
| "convert_each c cfg (hc # hcs) s =
     (let (cl, s') = HostedClusterToCluster c cfg hc s;
          (cls, s'') = convert_each c cfg hcs s'
      in (cl # cls, s''))"

text \<open>
  The slice expression \<open>items[offset:end]\<close> panics when its bounds are out of order; the sum of
  offset and page size is one of 64-bit integers.  \<open>sort.Slice\<close> need not be stable, \<open>sort_key\<close> is: they
  agree as the API server lists no name of a namespace twice.
\<close>

definition ListClusters ::
  "('s, 'q) k8s_client \<Rightarrow> ClusterConfig \<Rightarrow> int \<Rightarrow> string \<Rightarrow> 's \<Rightarrow>
   (go_error + ClusterList) outcome \<times> 's" where
  "ListClusters c cfg pageSize pageToken s =
     (case ListHostedClusters c (cc_ClusterNamespace cfg)
             [(LabelManagedBy, ValueManagedBy), (LabelServiceType, ValueServiceType)] s of
        (Inl err, s') \<Rightarrow>
          (Returns (Inl (NewInternalError ''failed to list clusters'' (K8sError err))), s')
      | (Inr hcList, s') \<Rightarrow>
          let items = sort_key hc_Name hcList in
          (case page_offset pageToken of
             Inl err \<Rightarrow> (Returns (Inl err), s')
           | Inr v \<Rightarrow>
               let total = int (length items);
                   offset = (if v > total then total else v);
                   sum = to_int64 (offset + pageSize);
                   end' = (if sum > total then total else sum)
               in if end' < offset then (Panics ''slice bounds out of range'', s')
                  else
                    let page = drop (nat offset) (take (nat end') items);
                        (clusters, s'') = convert_each c cfg page s';
                        nextToken = (if end' < total then Some (EncodeToString (FormatInt end')) else None)
                    in (Returns (Inr \<lparr>li_Clusters = Some clusters, li_NextPageToken = nextToken\<rparr>), s'')))"

definition DeleteCluster ::
  "('s, 'q) k8s_client \<Rightarrow> ClusterConfig \<Rightarrow> string \<Rightarrow> 's \<Rightarrow> go_error option \<times> 's" where
  "DeleteCluster c cfg iid s =
     (case findByInstanceID c (cc_ClusterNamespace cfg) iid s of
        (Inl err, s1) \<Rightarrow> (Some err, s1)
      | (Inr hc, s1) \<Rightarrow>
          (case deleteNodePools c (hc_Namespace hc) iid s1 of
             (Some err, s2) \<Rightarrow> (Some err, s2)
           | (None, s2) \<Rightarrow>
               (case DeleteHostedCluster c hc s2 of
                  (Some err, s3) \<Rightarrow>
                    (Some (NewInternalError ''failed to delete cluster'' (K8sError err)), s3)
                | (None, s3) \<Rightarrow> (None, s3))))"

subsection \<open>Finding and reading one cluster\<close>

definition has_instance :: "string \<Rightarrow> string \<Rightarrow> HostedCluster \<Rightarrow> bool" where
  "has_instance ns iid hc \<longleftrightarrow> hc_Namespace hc = ns \<and> hc_Labels hc LabelInstanceID = Some iid"

lemma matches_instance: "hc_matches ns [(LabelInstanceID, iid)] hc \<longleftrightarrow> has_instance ns iid hc"
  by (simp add: hc_matches_def selects_def has_instance_def)

lemma find_view: "hub_api c view \<Longrightarrow> findByInstanceID c ns iid s = (r, s') \<Longrightarrow> view s' = view s"
  by (auto simp: findByInstanceID_def split: prod.splits sum.splits list.splits dest: read_view(1))

lemma find_ok:
  assumes "hub_api c view" "findByInstanceID c ns iid s = (Inr hc, s')"
  shows "hc \<in> set (hub_hcs (view s))" "has_instance ns iid hc"
proof -
  from assms(2) obtain items where l: "ListHostedClusters c ns [(LabelInstanceID, iid)] s = (Inr items, s')"
    and "hc \<in> set items"
    by (auto simp: findByInstanceID_def split: prod.splits sum.splits list.splits)
  then show "hc \<in> set (hub_hcs (view s))" "has_instance ns iid hc"
    using mset_eq_setD[OF list_hcs[OF assms(1) l]] by (auto simp: matches_instance)
qed

lemma find_error:
  assumes "hub_api c view" "findByInstanceID c ns iid s = (Inl e, s')"
  shows "domain_type e = Some ErrorTypeNOTFOUND \<and> (\<forall>hc \<in> set (hub_hcs (view s)). \<not> has_instance ns iid hc)
    \<or> domain_type e = Some ErrorTypeINTERNAL"
  using assms(2) list_hcs[OF assms(1), of ns "[(LabelInstanceID, iid)]" s "[]" s']
  by (auto simp: findByInstanceID_def matches_instance filter_empty_conv
      split: prod.splits sum.splits list.splits)

text \<open>
  C28: Get answers with a stored HostedCluster that carries the requested instance id in the
  configured namespace, under that id and with its mapped status; it reports not-found only
  when there is none, every other error is internal, and it changes nothing on the hub.
\<close>

theorem get_cluster_correct:
  assumes "hub_api c view" "GetCluster c cfg iid s = (r, s')"
  shows "view s' = view s \<and>
    (case r of
       Inr cl \<Rightarrow> \<exists>hc \<in> set (hub_hcs (view s)). has_instance (cc_ClusterNamespace cfg) iid hc
         \<and> cl_Id cl = Some iid \<and> cm_Name (cs_Metadata (cl_Spec cl)) = hc_Name hc
         \<and> cl_Status cl = Some (status_string (MapConditionsToStatus (hc_Conditions hc) (hc_DeletionTimestamp hc)))
     | Inl e \<Rightarrow> domain_type e = Some ErrorTypeINTERNAL
         \<or> domain_type e = Some ErrorTypeNOTFOUND
           \<and> (\<forall>hc \<in> set (hub_hcs (view s)). \<not> has_instance (cc_ClusterNamespace cfg) iid hc))"
proof (cases "findByInstanceID c (cc_ClusterNamespace cfg) iid s")
  case (Pair f s1)
  note v = find_view[OF assms(1) Pair]
  show ?thesis
  proof (cases f)
    case (Inl e)
    then have "r = Inl e" "s' = s1" using assms(2) Pair by (simp_all add: GetCluster_def)
    then show ?thesis using v find_error[OF assms(1) Pair[unfolded Inl]] by auto
  next
    case (Inr hc)
    note found = find_ok[OF assms(1) Pair[unfolded Inr]]
    have "r = Inr (fst (HostedClusterToCluster c cfg hc s1))" "view s' = view s1"
      using assms(2) Pair Inr convert_view[OF assms(1), of cfg hc s1]
      by (auto simp: GetCluster_def split: prod.splits)
    then show ?thesis
      using found v by (auto simp: convert_fields has_instance_def map_get_SomeI intro!: bexI[of _ hc])
  qed
qed

lemma sample_ns [simp]: "cc_ClusterNamespace sample_cfg = ''clusters''"
  by (simp add: sample_cfg_def)

lemma ready_find: "findByInstanceID mem_client ''clusters'' ''id-1'' ready_hub = (Inr ready_hc, ready_hub)"
  by (simp add: findByInstanceID_def mem_client_def ready_hub_def matches_instance has_instance_def
      ready_hc_def)

theorem get_cluster_correct_witness:
  "\<exists>cl s'. GetCluster mem_client sample_cfg ''id-1'' ready_hub = (Inr cl, s') \<and> cl_Id cl = Some ''id-1''"
proof -
  obtain cl s' where "GetCluster mem_client sample_cfg ''id-1'' ready_hub = (Inr cl, s')"
    using ready_find by (simp add: GetCluster_def case_prod_beta' Let_def sample_ns)
  with get_cluster_correct[OF mem_hub_api this] show ?thesis by auto
qed

subsection \<open>Deletion\<close>

lemma filter_mark:
  assumes "\<And>t x. key (mark t x) = key x" "k \<in> K"
  shows "filter (\<lambda>x. key x \<notin> K) (map (\<lambda>h. if key h = k then mark t h else h) xs)
    = filter (\<lambda>x. key x \<notin> K) xs"
  using assms by (induction xs) auto

lemma obj_gone_outside:
  assumes "obj_gone key mark k before after" "\<And>t x. key (mark t x) = key x" "k \<in> K"
  shows "filter (\<lambda>x. key x \<notin> K) after = filter (\<lambda>x. key x \<notin> K) before"
  using assms(1) unfolding obj_gone_def
proof (elim disjE exE)
  assume "after = filter (\<lambda>h. key h \<noteq> k) before"
  with assms(3) show ?thesis by (auto simp: filter_filter intro!: filter_cong)
qed (simp add: filter_mark[of key mark, OF assms(2,3)])

lemma obj_gone_at:
  assumes "obj_gone key mark k before after" "\<And>t x. key (mark t x) = key x"
    and "x \<in> set after" "key x = k"
  shows "\<exists>t y. y \<in> set before \<and> x = mark t y"
  using assms(1,3,4) unfolding obj_gone_def
  by (elim disjE exE) (auto split: if_splits)

lemma obj_gone_origin:
  assumes "obj_gone key mark k before after" "x \<in> set after"
  shows "\<exists>y \<in> set before. x = y \<or> (\<exists>t. x = mark t y)"
  using assms unfolding obj_gone_def
  by (elim disjE exE) (auto split: if_splits)

lemma np_mark_fields [simp]:
  "np_key (np_mark t x) = np_key x" "np_matches ns sel (np_mark t x) = np_matches ns sel x"
  "np_DeletionTimestamp (np_mark t x) = Some t"
  by (simp_all add: np_key_def np_mark_def np_matches_def)

lemma hc_mark_fields [simp]:
  "hc_key (hc_mark t x) = hc_key x" "has_instance ns i (hc_mark t x) = has_instance ns i x"
  "hc_Labels (hc_mark t x) = hc_Labels x" "hc_Namespace (hc_mark t x) = hc_Namespace x"
  "hc_DeletionTimestamp (hc_mark t x) = Some t"
  by (simp_all add: hc_key_def hc_mark_def has_instance_def)

text \<open>
  What a partly done deletion may leave: node pools outside \<open>K\<close> as they were, those inside
  possibly marked, and nothing that was not there.
\<close>

definition np_progress :: "(string \<times> string) set \<Rightarrow> 'q NodePool list \<Rightarrow> 'q NodePool list \<Rightarrow> bool" where
  "np_progress K before after \<longleftrightarrow>
     filter (\<lambda>x. np_key x \<notin> K) after = filter (\<lambda>x. np_key x \<notin> K) before
     \<and> (\<forall>x \<in> set after. \<exists>y \<in> set before. x = y \<or> (\<exists>t. x = np_mark t y))"

lemma np_progress_refl [simp]: "np_progress K nps nps"
  by (auto simp: np_progress_def)

lemma np_mark_mark: "np_mark t (np_mark u x) = np_mark t x"
  by (simp add: np_mark_def)

lemma np_progress_trans: "np_progress K a b \<Longrightarrow> np_progress K b d \<Longrightarrow> np_progress K a d"
  unfolding np_progress_def by (metis np_mark_mark)

lemma np_gone_progress:
  assumes "np_gone k before after" "k \<in> K"
  shows "np_progress K before after"
  using obj_gone_outside[OF assms(1)[unfolded np_gone_def] _ assms(2)]
    obj_gone_origin[OF assms(1)[unfolded np_gone_def]]
  by (simp add: np_progress_def)

lemma np_gone_marked:
  "np_gone k before after \<Longrightarrow> x \<in> set after \<Longrightarrow> np_key x = k \<Longrightarrow> np_DeletionTimestamp x \<noteq> None"
  using obj_gone_at[of np_key np_mark k before after x] by (auto simp: np_gone_def)

text \<open>A marked or missing node pool stays so under further deletions.\<close>

definition nps_done :: "(string \<times> string) set \<Rightarrow> 'q NodePool list \<Rightarrow> bool" where
  "nps_done K nps \<longleftrightarrow> (\<forall>x \<in> set nps. np_key x \<in> K \<longrightarrow> np_DeletionTimestamp x \<noteq> None)"

lemma nps_done_progress: "nps_done K before \<Longrightarrow> np_progress L before after \<Longrightarrow> nps_done K after"
  by (fastforce simp: nps_done_def np_progress_def)

lemma delete_np_step:
  assumes "hub_api c view" "DeleteNodePool c np s = (e, s1)" "np_key np \<in> K"
  shows "\<exists>mid. view s1 = (view s)\<lparr>hub_nps := mid\<rparr> \<and> np_progress K (hub_nps (view s)) mid
    \<and> ((case e of None \<Rightarrow> True | Some err \<Rightarrow> IsNotFound err) \<longrightarrow> nps_done {np_key np} mid)"
proof (cases e)
  case None
  from delete_np_ok[OF assms(1) assms(2)[unfolded None]]
  obtain mid where "np_gone (np_key np) (hub_nps (view s)) mid" "view s1 = (view s)\<lparr>hub_nps := mid\<rparr>" .
  then show ?thesis
    using np_gone_progress[of _ "hub_nps (view s)" mid K] np_gone_marked[of _ "hub_nps (view s)" mid] assms(3)
    by (intro exI[of _ mid]) (simp add: nps_done_def)
next
  case (Some err)
  note same = delete_np_error[OF assms(1) assms(2)[unfolded Some]]
  show ?thesis
    using same Some by (intro exI[of _ "hub_nps (view s)"]) (fastforce simp: nps_done_def image_iff)
qed

lemma delete_each_effect:
  assumes "hub_api c view" "delete_each c nps s = (r, s')" "np_key ` set nps \<subseteq> K"
  shows "\<exists>after. view s' = (view s)\<lparr>hub_nps := after\<rparr> \<and> np_progress K (hub_nps (view s)) after
    \<and> (r = None \<longrightarrow> nps_done (np_key ` set nps) after)"
  using assms(2,3)
proof (induction nps arbitrary: s)
  case Nil
  then show ?case by (auto simp: nps_done_def intro!: exI[of _ "hub_nps (view s)"])
next
  case (Cons np nps)
  obtain e s1 where del: "DeleteNodePool c np s = (e, s1)" by fastforce
  have k: "np_key np \<in> K" "np_key ` set nps \<subseteq> K" using Cons.prems by auto
  obtain mid where mid: "view s1 = (view s)\<lparr>hub_nps := mid\<rparr>" "np_progress K (hub_nps (view s)) mid"
    "(case e of None \<Rightarrow> True | Some err \<Rightarrow> IsNotFound err) \<longrightarrow> nps_done {np_key np} mid"
    using delete_np_step[OF assms(1) del k(1)] by blast
  show ?case
  proof (cases "case e of None \<Rightarrow> True | Some err \<Rightarrow> IsNotFound err")
    case True
    then have "delete_each c nps s1 = (r, s')" using Cons.prems(1) del by (auto split: option.splits)
    from Cons.IH[OF this k(2)] obtain after where
      after: "view s' = (view s1)\<lparr>hub_nps := after\<rparr>" "np_progress K (hub_nps (view s1)) after"
        "r = None \<longrightarrow> nps_done (np_key ` set nps) after" by blast
    have prog: "np_progress K mid after" using after(2) mid(1) by simp
    have "nps_done {np_key np} after" using nps_done_progress[OF _ prog] mid(3) True by blast
    then show ?thesis
      using after mid np_progress_trans[OF mid(2) prog]
      by (intro exI[of _ after]) (auto simp: nps_done_def)
  next
    case False
    then have "s' = s1" "r \<noteq> None" using Cons.prems(1) del by (auto split: option.splits)
    then show ?thesis using mid by auto
  qed
qed

lemma deleteNodePools_effect:
  assumes "hub_api c view" "deleteNodePools c ns i s = (r, s')" "distinct (map np_key (hub_nps (view s)))"
  defines "target \<equiv> np_matches ns [(LabelInstanceID, i)]"
  shows "\<exists>after. view s' = (view s)\<lparr>hub_nps := after\<rparr>
    \<and> filter (\<lambda>x. \<not> target x) after = filter (\<lambda>x. \<not> target x) (hub_nps (view s))
    \<and> (r = None \<longrightarrow> (\<forall>x \<in> set after. target x \<longrightarrow> np_DeletionTimestamp x \<noteq> None))"
proof (cases "ListNodePools c ns [(LabelInstanceID, i)] s")
  case (Pair l s1)
  note v = read_view(2)[OF assms(1) Pair]
  show ?thesis
  proof (cases l)
    case (Inl err)
    then show ?thesis
      using assms(2) Pair v by (intro exI[of _ "hub_nps (view s)"]) (auto simp: deleteNodePools_def)
  next
    case (Inr items)
    let ?B = "hub_nps (view s)" and ?K = "np_key ` set items"
    have items: "set items = {x \<in> set ?B. target x}"
      using mset_eq_setD[OF list_nps[OF assms(1) Pair[unfolded Inr]]] by (auto simp: target_def)
    have del: "delete_each c items s1 = (r, s')" using assms(2) Pair Inr by (simp add: deleteNodePools_def)
    obtain after where after: "view s' = (view s1)\<lparr>hub_nps := after\<rparr>" "np_progress ?K ?B after"
      "r = None \<longrightarrow> nps_done ?K after"
      using delete_each_effect[OF assms(1) del order_refl] v by auto
    have inj: "inj_on np_key (set ?B)" using assms(3) by (simp add: distinct_map)
    have key: "np_key x \<in> ?K \<longleftrightarrow> target x" if "x \<in> set ?B" for x
      using inj that items by (auto simp: inj_on_def)
    have key': "np_key x \<in> ?K \<longleftrightarrow> target x" if "x \<in> set after" for x
      using after(2) that key unfolding np_progress_def target_def by (metis np_mark_fields(1,2))
    have "filter (\<lambda>x. \<not> target x) after = filter (\<lambda>x. np_key x \<notin> ?K) after"
      by (rule filter_cong) (simp_all add: key')
    also have "\<dots> = filter (\<lambda>x. np_key x \<notin> ?K) ?B" using after(2) by (simp add: np_progress_def)
    also have "\<dots> = filter (\<lambda>x. \<not> target x) ?B" by (rule filter_cong) (simp_all add: key)
    finally show ?thesis
      using after key' v by (intro exI[of _ after]) (auto simp: nps_done_def)
  qed
qed

lemma delete_each_error:
  "delete_each c nps s = (Some e, s') \<Longrightarrow> domain_type e = Some ErrorTypeINTERNAL"
  by (induction nps arbitrary: s) (auto split: prod.splits option.splits if_splits)

lemma deleteNodePools_error:
  "deleteNodePools c ns i s = (Some e, s') \<Longrightarrow> domain_type e = Some ErrorTypeINTERNAL"
  by (auto simp: deleteNodePools_def delete_each_error split: prod.splits sum.splits)

lemma delete_on_hub:
  assumes "hub_api c view" "distinct (map np_key (hub_nps (view s)))"
    and "DeleteCluster c cfg iid s = (r, s')"
    and "ns = cc_ClusterNamespace cfg" "target = np_matches ns [(LabelInstanceID, iid)]"
  shows "hub_images (view s') = hub_images (view s) \<and> hub_secrets (view s') = hub_secrets (view s)
    \<and> filter (\<lambda>x. \<not> target x) (hub_nps (view s')) = filter (\<lambda>x. \<not> target x) (hub_nps (view s))
    \<and> (case r of
        None \<Rightarrow> (\<forall>np \<in> set (hub_nps (view s')). target np \<longrightarrow> np_DeletionTimestamp np \<noteq> None)
          \<and> (\<exists>hc \<in> set (hub_hcs (view s)). has_instance ns iid hc
               \<and> hc_gone (hc_key hc) (hub_hcs (view s)) (hub_hcs (view s')))
      | Some e \<Rightarrow> hub_hcs (view s') = hub_hcs (view s)
          \<and> (domain_type e = Some ErrorTypeNOTFOUND \<longrightarrow>
               view s' = view s \<and> (\<forall>hc \<in> set (hub_hcs (view s)). \<not> has_instance ns iid hc)))"
proof (cases "findByInstanceID c ns iid s")
  case (Pair f s1)
  note v1 = find_view[OF assms(1) Pair]
  show ?thesis
  proof (cases f)
    case (Inl e)
    then have "r = Some e" "s' = s1" using assms(3,4) Pair by (simp_all add: DeleteCluster_def)
    then show ?thesis using v1 find_error[OF assms(1) Pair[unfolded Inl]] by auto
  next
    case (Inr hc)
    note hc = find_ok[OF assms(1) Pair[unfolded Inr]]
    obtain r2 s2 where nps: "deleteNodePools c ns iid s1 = (r2, s2)" by fastforce
    have ns: "hc_Namespace hc = ns" using hc(2) by (simp add: has_instance_def)
    obtain after where after: "view s2 = (view s)\<lparr>hub_nps := after\<rparr>"
      "filter (\<lambda>x. \<not> target x) after = filter (\<lambda>x. \<not> target x) (hub_nps (view s))"
      "r2 = None \<longrightarrow> (\<forall>x \<in> set after. target x \<longrightarrow> np_DeletionTimestamp x \<noteq> None)"
      using deleteNodePools_effect[OF assms(1) nps] assms(2,5) v1 by auto
    show ?thesis
    proof (cases r2)
      case (Some e)
      have "r = Some e" "s' = s2" using assms(3,4) Pair Inr nps ns Some by (simp_all add: DeleteCluster_def)
      moreover have "domain_type e = Some ErrorTypeINTERNAL" using nps Some deleteNodePools_error by metis
      ultimately show ?thesis using after by simp
    next
      case None
      obtain r3 where del: "DeleteHostedCluster c hc s2 = (r3, s')"
        and r: "r = map_option (\<lambda>err. NewInternalError ''failed to delete cluster'' (K8sError err)) r3"
        using assms(3,4) Pair Inr nps ns None by (auto simp: DeleteCluster_def split: prod.splits option.splits)
      show ?thesis
      proof (cases r3)
        case None
        obtain hcs where "hc_gone (hc_key hc) (hub_hcs (view s2)) hcs" "view s' = (view s2)\<lparr>hub_hcs := hcs\<rparr>"
          using delete_hc_ok[OF assms(1) del[unfolded None]] .
        then show ?thesis using after r None hc \<open>r2 = None\<close> by auto
      next
        case (Some err)
        then show ?thesis using after r delete_hc_error[OF assms(1) del[unfolded Some]] by simp
      qed
    qed
  qed
qed

text \<open>
  C11: a delete that reports success has removed or marked every node pool of the instance and one
  HostedCluster of it; one that fails has left every HostedCluster untouched, so a cluster can be
  deleted again.  Node pools of other instances, images and secrets never change, and not-found
  is reported only for an instance that has no HostedCluster, with the hub unchanged.
\<close>

theorem delete_cluster_effect:
  assumes "hub_api c view" "distinct (map np_key (hub_nps (view s)))"
    and "DeleteCluster c cfg iid s = (r, s')"
    and "ns = cc_ClusterNamespace cfg" "target = np_matches ns [(LabelInstanceID, iid)]"
  shows "hub_images (view s') = hub_images (view s) \<and> hub_secrets (view s') = hub_secrets (view s)
    \<and> filter (\<lambda>x. \<not> target x) (hub_nps (view s')) = filter (\<lambda>x. \<not> target x) (hub_nps (view s))
    \<and> (case r of
        None \<Rightarrow> (\<forall>np \<in> set (hub_nps (view s')). target np \<longrightarrow> np_DeletionTimestamp np \<noteq> None)
          \<and> (\<exists>hc \<in> set (hub_hcs (view s)). has_instance ns iid hc
               \<and> hc_gone (hc_key hc) (hub_hcs (view s)) (hub_hcs (view s')))
      | Some e \<Rightarrow> hub_hcs (view s') = hub_hcs (view s)
          \<and> (domain_type e = Some ErrorTypeNOTFOUND \<longrightarrow>
               view s' = view s \<and> (\<forall>hc \<in> set (hub_hcs (view s)). \<not> has_instance ns iid hc)))"
  by (rule delete_on_hub[OF assms])

theorem delete_cluster_effect_witness:
  "\<exists>s'. DeleteCluster mem_client sample_cfg ''id-1'' ready_hub = (None, s') \<and> hub_hcs s' = []
    \<and> hc_gone (hc_key ready_hc) [ready_hc] (hub_hcs s')"
proof -
  have "deleteNodePools mem_client ''clusters'' ''id-1'' ready_hub = (None, ready_hub)"
    by (simp add: deleteNodePools_def mem_client_def ready_hub_def)
  then have del: "DeleteCluster mem_client sample_cfg ''id-1'' ready_hub = (None, ready_hub\<lparr>hub_hcs := []\<rparr>)"
    using ready_find by (simp add: DeleteCluster_def) (simp add: ready_hc_def mem_client_def ready_hub_def)
  have "distinct (map np_key (hub_nps (id ready_hub)))" by (simp add: ready_hub_def)
  from delete_cluster_effect[OF mem_hub_api this del refl refl] show ?thesis
    using del by (simp add: ready_hub_def)
qed

end
