(* ===== verification/Create.thy ===== *)
theory Create
  imports Operations
begin

text \<open>
  \<open>internal/cluster/create.go\<close> and \<open>create_helpers.go\<close>: the creation flow both platforms share.  A
  platform brings a builder of the two resources; the flow resolves domain and image, refuses a
  duplicate id, and creates the HostedCluster and then the NodePool, taking the first back when
  the second fails.  What the flow needs of a builder is the locale \<open>platform_builder\<close>, which the
  platform theories interpret.
\<close>

subsection \<open>Helpers\<close>

definition ResolveBaseDomain :: "Cluster \<Rightarrow> string \<Rightarrow> string" where
  "ResolveBaseDomain req configDefault =
     (case acm_hint ah_BaseDomain req of Some d \<Rightarrow> d | None \<Rightarrow> configDefault)"

definition ResolveReleaseImage ::
  "('s, 'q) k8s_client \<Rightarrow> ClusterConfig \<Rightarrow> Cluster \<Rightarrow> 's \<Rightarrow> (go_error + string) \<times> 's" where
  "ResolveReleaseImage c cfg req s =
     (case acm_hint ah_ReleaseImage req of
        Some img \<Rightarrow> (Inr img, s)
      | None \<Rightarrow>
          let matrix = cc_VersionMatrix cfg;
              matrix = (if length matrix = 0 then DefaultCompatibilityMatrix else matrix)
          in Resolve c matrix (cs_Version (cl_Spec req)) s)"

definition DefaultServicePublishingStrategies :: "(service_type \<times> publishing_type) list" where
  "DefaultServicePublishingStrategies =
     [(OAuthServer, Route), (Konnectivity, Route), (Ignition, Route), (APIServer, LoadBalancer)]"

text \<open>The prefix is a constant of the HyperShift API, with the value the design decisions document.\<close>

definition ResourceRequestOverrideAnnotationPrefix :: string where
  "ResourceRequestOverrideAnnotationPrefix = ''resource-request-override.hypershift.openshift.io''"

definition override_parts :: "ControlPlaneSpec \<Rightarrow> string list" where
  "override_parts cp =
     (case cp_Cpu cp of None \<Rightarrow> [] | Some n \<Rightarrow> [''cpu='' @ FormatInt n])
     @ (case cp_Memory cp of None \<Rightarrow> [] | Some m \<Rightarrow> [''memory='' @ TrimSuffix m ''B''])"

definition applyControlPlaneResourceOverrides :: "HostedCluster \<Rightarrow> Cluster \<Rightarrow> HostedCluster" where
  "applyControlPlaneResourceOverrides hc req =
     (case Option.bind (cs_Nodes (cl_Spec req)) cn_ControlPlane of
        None \<Rightarrow> hc
      | Some cp \<Rightarrow>
          let parts = override_parts cp in
          if length parts = 0 then hc
          else
            let val = Join parts '','' in
            hc\<lparr>hc_Annotations := (hc_Annotations hc)
                 (ResourceRequestOverrideAnnotationPrefix @ ''/kube-apiserver.kube-apiserver'' \<mapsto> val,
                  ResourceRequestOverrideAnnotationPrefix @ ''/etcd.etcd'' \<mapsto> val)\<rparr>)"

subsection \<open>The creation flow\<close>

text \<open>The interface \<open>PlatformBuilder\<close>.\<close>

record 'q platform_builder =
  BuildHostedCluster :: "Cluster \<Rightarrow> string \<Rightarrow> string \<Rightarrow> str_map \<Rightarrow> HostedCluster"
  BuildNodePool :: "Cluster \<Rightarrow> string \<Rightarrow> str_map \<Rightarrow> 'q NodePool"

text \<open>
  The second half of \<open>CreateCluster\<close>: the two writes, the rollback, and the answer.  \<open>now\<close> is the
  reading of the clock at the end.
\<close>

definition create_resources ::
  "('s, 'q) k8s_client \<Rightarrow> time \<Rightarrow> string \<Rightarrow> Cluster \<Rightarrow> HostedCluster \<Rightarrow> 'q NodePool \<Rightarrow> 's \<Rightarrow>
   (go_error + Cluster) \<times> 's" where
  "create_resources c now iid req hc np s =
     (case CreateHostedCluster c hc s of
        (Some err, s1) \<Rightarrow>
          if IsAlreadyExists err
          then (Inl (NewAlreadyExistsError (''cluster with name ''
                  @ Quote (cm_Name (cs_Metadata (cl_Spec req))) @ '' already exists'')), s1)
          else (Inl (NewInternalError ''failed to create cluster resources'' (K8sError err)), s1)
      | (None, s1) \<Rightarrow>
          (case CreateNodePool c np s1 of
             (Some err, s2) \<Rightarrow>
               (case DeleteHostedCluster c hc s2 of
                  (Some delErr, s3) \<Rightarrow>
                    (Inl (NewInternalError
                       ''failed to create node pool and rollback of hosted cluster failed''
                       (Wrapped (''create: '' @ k8s_error_text err @ '', rollback: ''
                          @ k8s_error_text delErr) (K8sError err))), s3)
                | (None, s3) \<Rightarrow>
                    (Inl (NewInternalError ''failed to create cluster resources'' (K8sError err)), s3))
           | (None, s2) \<Rightarrow>
               (Inr \<lparr>cl_ApiEndpoint = None, cl_ConsoleUri = None, cl_CreateTime = Some now,
                     cl_Id = Some iid, cl_Kubeconfig = None,
                     cl_Path = Some (''clusters/'' @ iid), cl_Spec = cl_Spec req,
                     cl_Status = Some (status_string PENDING), cl_StatusMessage = None,
                     cl_UpdateTime = Some now\<rparr>, s2)))"

definition CreateCluster ::
  "('s, 'q) k8s_client \<Rightarrow> ClusterConfig \<Rightarrow> time \<Rightarrow> string \<Rightarrow> Cluster \<Rightarrow> 'q platform_builder \<Rightarrow> 's \<Rightarrow>
   (go_error + Cluster) \<times> 's" where
  "CreateCluster c cfg now iid req pb s =
     (let baseDomain = ResolveBaseDomain req (cc_BaseDomain cfg) in
      if baseDomain = [] then (Inl (NewInvalidArgumentError ''base_domain is required''), s)
      else case ResolveReleaseImage c cfg req s of
        (Inl err, s1) \<Rightarrow> (Inl err, s1)
      | (Inr releaseImage, s1) \<Rightarrow>
          (case findByInstanceID c (cc_ClusterNamespace cfg) iid s1 of
             (Inr _, s2) \<Rightarrow> (Inl (NewAlreadyExistsError ''cluster with this ID already exists''), s2)
           | (Inl err, s2) \<Rightarrow>
               if domain_type err \<noteq> Some ErrorTypeNOTFOUND then (Inl err, s2)
               else
                 let labels = DCMLabels iid;
                     hc = BuildHostedCluster pb req baseDomain releaseImage labels;
                     hc = applyControlPlaneResourceOverrides hc req;
                     hc = hc\<lparr>hc_PullSecretName := cc_PullSecretName cfg\<rparr>;
                     np = BuildNodePool pb req releaseImage labels
                 in create_resources c now iid req hc np s2))"

subsection \<open>Control plane overrides\<close>

lemma overrides_only_annotations:
  "hc_key (applyControlPlaneResourceOverrides hc req) = hc_key hc"
  "hc_Labels (applyControlPlaneResourceOverrides hc req) = hc_Labels hc"
  "hc_Name (applyControlPlaneResourceOverrides hc req) = hc_Name hc"
  "hc_Namespace (applyControlPlaneResourceOverrides hc req) = hc_Namespace hc"
  "hc_ReleaseImage (applyControlPlaneResourceOverrides hc req) = hc_ReleaseImage hc"
  "hc_BaseDomain (applyControlPlaneResourceOverrides hc req) = hc_BaseDomain hc"
  "hc_Services (applyControlPlaneResourceOverrides hc req) = hc_Services hc"
  "hc_Etcd (applyControlPlaneResourceOverrides hc req) = hc_Etcd hc"
  "hc_PlatformType (applyControlPlaneResourceOverrides hc req) = hc_PlatformType hc"
  by (simp_all add: applyControlPlaneResourceOverrides_def hc_key_def Let_def split: option.split)

text \<open>
  The resource requests of the hosted control plane.  With a CPU count and a memory size \<open>vB\<close>
  both targeted components get \<open>cpu=n,memory=v\<close>; with one of the two they get that one alone; with
  neither no annotation is written; and no annotation of another name is touched.
\<close>

theorem control_plane_overrides:
  assumes "cs_Nodes (cl_Spec req) = Some nodes" "cn_ControlPlane nodes = Some cp"
    and "out = hc_Annotations (applyControlPlaneResourceOverrides hc req)"
    and "kas = ResourceRequestOverrideAnnotationPrefix @ ''/kube-apiserver.kube-apiserver''"
    and "etcd = ResourceRequestOverrideAnnotationPrefix @ ''/etcd.etcd''"
  shows "(\<forall>k. k \<notin> {kas, etcd} \<longrightarrow> out k = hc_Annotations hc k)
    \<and> (cp_Cpu cp = None \<and> cp_Memory cp = None \<longrightarrow> out = hc_Annotations hc)
    \<and> (\<forall>n v. cp_Cpu cp = Some n \<and> cp_Memory cp = Some (v @ ''B'') \<longrightarrow>
         (\<forall>k \<in> {kas, etcd}. out k = Some (''cpu='' @ FormatInt n @ '',memory='' @ v)))
    \<and> (\<forall>n. cp_Cpu cp = Some n \<and> cp_Memory cp = None \<longrightarrow>
         (\<forall>k \<in> {kas, etcd}. out k = Some (''cpu='' @ FormatInt n)))
    \<and> (\<forall>v. cp_Cpu cp = None \<and> cp_Memory cp = Some (v @ ''B'') \<longrightarrow>
         (\<forall>k \<in> {kas, etcd}. out k = Some (''memory='' @ v)))"
  using assms TrimSuffix_append[of _ "''B''"]
  by (auto simp: applyControlPlaneResourceOverrides_def override_parts_def Let_def)

definition sized_req :: Cluster where
  "sized_req = \<lparr>cl_ApiEndpoint = None, cl_ConsoleUri = None, cl_CreateTime = None, cl_Id = None,
     cl_Kubeconfig = None, cl_Path = None,
     cl_Spec = \<lparr>cs_Metadata = \<lparr>cm_Labels = None, cm_Name = ''demo''\<rparr>,
       cs_Nodes = Some \<lparr>
         cn_ControlPlane = Some \<lparr>cp_Count = Some 3, cp_Cpu = Some 4, cp_Memory = Some ''16GB'', cp_Storage = None\<rparr>,
         cn_Workers = Some \<lparr>wk_Count = Some 2, wk_Cpu = Some 8, wk_Memory = Some ''32GB'', wk_Storage = None\<rparr>\<rparr>,
       cs_ProviderHints = None, cs_ServiceType = ''cluster'', cs_Version = ''1.30''\<rparr>,
     cl_Status = None, cl_StatusMessage = None, cl_UpdateTime = None\<rparr>"

theorem control_plane_overrides_witness:
  "hc_Annotations (applyControlPlaneResourceOverrides ready_hc sized_req)
     (ResourceRequestOverrideAnnotationPrefix @ ''/etcd.etcd'') = Some ''cpu=4,memory=16G''"
proof -
  define nodes where "nodes = the (cs_Nodes (cl_Spec sized_req))"
  define cp where "cp = the (cn_ControlPlane nodes)"
  have some: "cs_Nodes (cl_Spec sized_req) = Some nodes" "cn_ControlPlane nodes = Some cp"
    by (simp_all add: nodes_def cp_def sized_req_def)
  have "cp_Cpu cp = Some 4" "cp_Memory cp = Some (''16G'' @ ''B'')"
    by (simp_all add: nodes_def cp_def sized_req_def)
  moreover have "FormatInt 4 = ''4''" by code_simp
  ultimately show ?thesis
    using control_plane_overrides[OF some refl refl refl, of ready_hc] by fastforce
qed

subsection \<open>What a creation does to the hub\<close>

definition effective_matrix :: "ClusterConfig \<Rightarrow> CompatibilityMatrix" where
  "effective_matrix cfg =
     (if length (cc_VersionMatrix cfg) = 0 then DefaultCompatibilityMatrix else cc_VersionMatrix cfg)"

text \<open>The release image is the one of the hint, or one the hub offers for the requested version.\<close>

definition chosen_image :: "ClusterConfig \<Rightarrow> Cluster \<Rightarrow> 'q hub \<Rightarrow> string \<Rightarrow> bool" where
  "chosen_image cfg req h i \<longleftrightarrow>
     (case acm_hint ah_ReleaseImage req of
        Some img \<Rightarrow> i = img
      | None \<Rightarrow> i \<in> set (hub_images h) \<and> i \<noteq> []
          \<and> (ExtractOCPVersion i, cs_Version (cl_Spec req)) \<in> set (effective_matrix cfg))"

definition created_hc :: "ClusterConfig \<Rightarrow> string \<Rightarrow> Cluster \<Rightarrow> string \<Rightarrow> HostedCluster \<Rightarrow> bool" where
  "created_hc cfg iid req i hc \<longleftrightarrow>
     hc_key hc = (cc_ClusterNamespace cfg, cm_Name (cs_Metadata (cl_Spec req)))
     \<and> hc_Labels hc = DCMLabels iid \<and> hc_ReleaseImage hc = i
     \<and> hc_BaseDomain hc = ResolveBaseDomain req (cc_BaseDomain cfg)
     \<and> ResolveBaseDomain req (cc_BaseDomain cfg) \<noteq> []
     \<and> hc_PullSecretName hc = cc_PullSecretName cfg
     \<and> hc_Services hc = DefaultServicePublishingStrategies
     \<and> hc_Etcd hc = Some (Managed, PersistentVolumeEtcdStorage)"

definition created_np :: "ClusterConfig \<Rightarrow> string \<Rightarrow> Cluster \<Rightarrow> string \<Rightarrow> 'q NodePool \<Rightarrow> bool" where
  "created_np cfg iid req i np \<longleftrightarrow>
     np_key np = (cc_ClusterNamespace cfg, cm_Name (cs_Metadata (cl_Spec req)))
     \<and> np_Labels np = DCMLabels iid \<and> np_ReleaseImage np = i
     \<and> np_ClusterName np = cm_Name (cs_Metadata (cl_Spec req))
     \<and> np_UpgradeType np = UpgradeTypeInPlace \<and> np_DeletionTimestamp np = None"

definition rollback_failed :: "go_error \<Rightarrow> bool" where
  "rollback_failed e \<longleftrightarrow>
     (\<exists>cause. e = NewInternalError
        ''failed to create node pool and rollback of hosted cluster failed'' cause)"

definition no_instance :: "ClusterConfig \<Rightarrow> string \<Rightarrow> 'q hub \<Rightarrow> bool" where
  "no_instance cfg iid h \<longleftrightarrow> (\<forall>hc \<in> set (hub_hcs h). \<not> has_instance (cc_ClusterNamespace cfg) iid hc)"

text \<open>
  The contract of a creation, from the hub before to the hub after.  Success adds the two resources
  and nothing else.  Failure leaves the hub alone, except when the node pool was refused: then the
  new HostedCluster has been taken back, is being deleted, or the error says that it remains.
\<close>

definition create_ok :: "ClusterConfig \<Rightarrow> time \<Rightarrow> string \<Rightarrow> Cluster \<Rightarrow> 'q hub \<Rightarrow> Cluster \<Rightarrow> 'q hub \<Rightarrow> bool" where
  "create_ok cfg now iid req h cl h' \<longleftrightarrow>
     no_instance cfg iid h
     \<and> (\<exists>i hc np. chosen_image cfg req h i \<and> created_hc cfg iid req i hc \<and> created_np cfg iid req i np
          \<and> hc_DeletionTimestamp hc = None
          \<and> hc_key hc \<notin> hc_key ` set (hub_hcs h) \<and> np_key np \<notin> np_key ` set (hub_nps h)
          \<and> h' = h\<lparr>hub_hcs := hc # hub_hcs h, hub_nps := np # hub_nps h\<rparr>)
     \<and> cl_Id cl = Some iid \<and> cl_Path cl = Some (''clusters/'' @ iid) \<and> cl_Status cl = Some (status_string PENDING)
     \<and> cl_Spec cl = cl_Spec req \<and> cl_CreateTime cl = Some now \<and> cl_UpdateTime cl = Some now"

definition create_failed :: "ClusterConfig \<Rightarrow> string \<Rightarrow> Cluster \<Rightarrow> 'q hub \<Rightarrow> go_error \<Rightarrow> 'q hub \<Rightarrow> bool" where
  "create_failed cfg iid req h e h' \<longleftrightarrow>
     (h' = h \<or> domain_type e = Some ErrorTypeINTERNAL \<and> no_instance cfg iid h
        \<and> (\<exists>i hc. chosen_image cfg req h i \<and> created_hc cfg iid req i hc
             \<and> hc_key hc \<notin> hc_key ` set (hub_hcs h) \<and> h' = h\<lparr>hub_hcs := hc # hub_hcs h\<rparr>
             \<and> (hc_DeletionTimestamp hc \<noteq> None \<or> rollback_failed e)))
     \<and> (domain_type e = Some ErrorTypeALREADYEXISTS \<longrightarrow>
          \<not> no_instance cfg iid h
          \<or> (cc_ClusterNamespace cfg, cm_Name (cs_Metadata (cl_Spec req))) \<in> hc_key ` set (hub_hcs h))
     \<and> domain_type e \<in> Some ` {ErrorTypeINVALIDARGUMENT, ErrorTypeUNPROCESSABLEENTITY,
          ErrorTypeALREADYEXISTS, ErrorTypeINTERNAL}"

lemma resolve_image:
  assumes "hub_api c view" "ResolveReleaseImage c cfg req s = (r, s')"
  shows "view s' = view s"
    "r = Inr i \<Longrightarrow> chosen_image cfg req (view s) i"
    "r = Inl e \<Longrightarrow> domain_type e \<in> Some ` {ErrorTypeUNPROCESSABLEENTITY, ErrorTypeINTERNAL}"
proof -
  have resolve: "ResolveReleaseImage c cfg req s = (case acm_hint ah_ReleaseImage req of
      Some img \<Rightarrow> (Inr img, s) | None \<Rightarrow> Resolve c (effective_matrix cfg) (cs_Version (cl_Spec req)) s)"
    by (simp add: ResolveReleaseImage_def effective_matrix_def Let_def split: option.split)
  show "view s' = view s"
    using assms(2) read_view(3)[OF assms(1)] unfolding resolve
    by (auto simp: Resolve_def split: option.splits sum.splits prod.splits)
  show "r = Inl e \<Longrightarrow> domain_type e \<in> Some ` {ErrorTypeUNPROCESSABLEENTITY, ErrorTypeINTERNAL}"
    using assms(2) unfolding resolve
    by (auto simp: Resolve_def k8sToOCP_def split: option.splits sum.splits prod.splits)
  show "chosen_image cfg req (view s) i" if ri: "r = Inr i"
  proof (cases "acm_hint ah_ReleaseImage req")
    case None
    then obtain ocp items where ocp: "k8sToOCP (effective_matrix cfg) (cs_Version (cl_Spec req)) = Inr ocp"
      and items: "ListClusterImageSets c s = (Inr items, s')" and img: "pick_image ocp items = Some i"
      using assms(2) unfolding resolve ri
      by (auto simp: Resolve_def split: sum.splits prod.splits option.splits)
    show ?thesis
      using k8sToOCP_Inr[OF ocp] pick_image_Some[OF img] mset_eq_setD[OF list_images[OF assms(1) items]] None
      by (simp add: chosen_image_def)
  qed (use assms(2) ri resolve in \<open>simp add: chosen_image_def\<close>)
qed

lemma created_stored: "hc_stored hc hc' \<Longrightarrow> created_hc cfg iid req i hc \<Longrightarrow> created_hc cfg iid req i hc'"
  by (cases hc; cases hc'; auto simp: hc_stored_def hc_desired_def created_hc_def hc_key_def)

lemma created_mark: "created_hc cfg iid req i hc \<Longrightarrow> created_hc cfg iid req i (hc_mark t hc)"
  by (simp add: created_hc_def hc_mark_def hc_key_def)

lemma created_np_stored: "np_stored np np' \<Longrightarrow> created_np cfg iid req i np \<Longrightarrow> created_np cfg iid req i np'"
  by (simp add: np_stored_def created_np_def)

lemma hc_gone_fresh:
  assumes "hc_gone k (hc # hcs) after" "hc_key hc = k" "k \<notin> hc_key ` set hcs"
  shows "after = hcs \<or> (\<exists>t. after = hc_mark t hc # hcs)"
proof -
  have "filter (\<lambda>h. hc_key h \<noteq> k) hcs = hcs" using assms(3) by (intro filter_True) auto
  moreover have "map (\<lambda>h. if hc_key h = k then hc_mark t h else h) hcs = hcs" for t
    using assms(3) by (intro map_idI) auto
  ultimately show ?thesis using assms(1,2) by (auto simp: hc_gone_def obj_gone_def)
qed

lemma rollback_effect:
  assumes "hub_api c view" "DeleteHostedCluster c hc s2 = (d, s3)"
    and "view s2 = h\<lparr>hub_hcs := hc' # hub_hcs h\<rparr>" "hc_key hc' = hc_key hc"
    and "created_hc cfg iid req i hc'" "hc_key hc \<notin> hc_key ` set (hub_hcs h)"
  shows "view s3 = h \<or> (\<exists>x. created_hc cfg iid req i x \<and> hc_key x = hc_key hc
     \<and> view s3 = h\<lparr>hub_hcs := x # hub_hcs h\<rparr> \<and> (d = None \<longrightarrow> hc_DeletionTimestamp x \<noteq> None))"
proof (cases d)
  case (Some e)
  then show ?thesis using delete_hc_error[OF assms(1) assms(2)[unfolded Some]] assms(3-5) by auto
next
  case None
  obtain hcs where gone: "hc_gone (hc_key hc) (hub_hcs (view s2)) hcs"
    and v3: "view s3 = (view s2)\<lparr>hub_hcs := hcs\<rparr>"
    using delete_hc_ok[OF assms(1) assms(2)[unfolded None]] .
  have "hcs = hub_hcs h \<or> (\<exists>t. hcs = hc_mark t hc' # hub_hcs h)"
    using hc_gone_fresh[of "hc_key hc" hc' "hub_hcs h" hcs] gone assms(3,4,6) by simp
  then show ?thesis
  proof (elim disjE exE)
    fix t assume "hcs = hc_mark t hc' # hub_hcs h"
    then show ?thesis
      using v3 assms(3,4) created_mark[OF assms(5), of t] by (intro disjI2 exI[of _ "hc_mark t hc'"]) simp
  qed (use v3 assms(3) in simp)
qed

text \<open>The two writes of the flow and the rollback, once the checks have passed.\<close>

lemma create_resources_effect:
  assumes "hub_api c view" "created_hc cfg iid req i hc" "created_np cfg iid req i np"
    and "chosen_image cfg req (view s) i" "no_instance cfg iid (view s)"
    and run: "create_resources c now iid req hc np s = (r, s')"
  shows "case r of Inr cl \<Rightarrow> create_ok cfg now iid req (view s) cl (view s')
    | Inl e \<Rightarrow> create_failed cfg iid req (view s) e (view s')"
proof -
  obtain r1 s1 where made: "CreateHostedCluster c hc s = (r1, s1)" by fastforce
  have key: "hc_key hc = (cc_ClusterNamespace cfg, cm_Name (cs_Metadata (cl_Spec req)))"
    using assms(2) by (simp add: created_hc_def)
  show ?thesis
  proof (cases r1)
    case (Some err)
    then show ?thesis
      using run made key create_hc_error[OF assms(1) made[unfolded Some]]
      by (auto simp: create_resources_def create_failed_def split: if_splits)
  next
    case None
    obtain hc' where fresh: "hc_key hc \<notin> hc_key ` set (hub_hcs (view s))" and st: "hc_stored hc hc'"
      and v1: "view s1 = (view s)\<lparr>hub_hcs := hc' # hub_hcs (view s)\<rparr>"
      using create_hc_ok[OF assms(1) made[unfolded None]] .
    note same = hc_stored_fields[OF st] and c' = created_stored[OF st assms(2)]
    obtain r2 s2 where made2: "CreateNodePool c np s1 = (r2, s2)" by fastforce
    show ?thesis
    proof (cases r2)
      case None
      obtain np' where "np_key np \<notin> np_key ` set (hub_nps (view s1))" "np_stored np np'"
        "view s2 = (view s1)\<lparr>hub_nps := np' # hub_nps (view s1)\<rparr>"
        using create_np_ok[OF assms(1) made2[unfolded None]] .
      moreover from this have "created_np cfg iid req i np'" "np_key np' = np_key np"
        using created_np_stored[OF _ assms(3)] by (simp_all add: np_stored_def)
      ultimately have "create_ok cfg now iid req (view s) cl (view s2)"
        if "cl_Id cl = Some iid" "cl_Path cl = Some (''clusters/'' @ iid)" "cl_Status cl = Some (status_string PENDING)"
          "cl_Spec cl = cl_Spec req" "cl_CreateTime cl = Some now" "cl_UpdateTime cl = Some now" for cl
        unfolding create_ok_def using that assms(4,5) c' same fresh v1
        by (intro conjI exI[of _ i] exI[of _ hc'] exI[of _ np']) simp_all
      then show ?thesis using run made \<open>r1 = None\<close> made2 None by (auto simp: create_resources_def)
    next
      case (Some err)
      have v2: "view s2 = (view s)\<lparr>hub_hcs := hc' # hub_hcs (view s)\<rparr>"
        using create_np_error[OF assms(1) made2[unfolded Some]] v1 by simp
      obtain d s3 where del: "DeleteHostedCluster c hc s2 = (d, s3)" by fastforce
      have left: "view s3 = view s \<or> (\<exists>h. created_hc cfg iid req i h \<and> hc_key h = hc_key hc
         \<and> view s3 = (view s)\<lparr>hub_hcs := h # hub_hcs (view s)\<rparr> \<and> (d = None \<longrightarrow> hc_DeletionTimestamp h \<noteq> None))"
        using rollback_effect[OF assms(1) del v2 same(1) c' fresh] .
      have "\<exists>e. r = Inl e \<and> s' = s3 \<and> domain_type e = Some ErrorTypeINTERNAL \<and> (d \<noteq> None \<longrightarrow> rollback_failed e)"
        using run made None made2 Some del
        by (auto simp: create_resources_def rollback_failed_def split: option.splits)
      then obtain e where e: "r = Inl e" "s' = s3" "domain_type e = Some ErrorTypeINTERNAL"
        "d \<noteq> None \<longrightarrow> rollback_failed e" by blast
      from left show ?thesis
      proof (elim disjE exE conjE)
        fix h assume "created_hc cfg iid req i h" "hc_key h = hc_key hc"
          "view s3 = (view s)\<lparr>hub_hcs := h # hub_hcs (view s)\<rparr>" "d = None \<longrightarrow> hc_DeletionTimestamp h \<noteq> None"
        then have "\<exists>i h. chosen_image cfg req (view s) i \<and> created_hc cfg iid req i h
            \<and> hc_key h \<notin> hc_key ` set (hub_hcs (view s)) \<and> view s3 = (view s)\<lparr>hub_hcs := h # hub_hcs (view s)\<rparr>
            \<and> (hc_DeletionTimestamp h \<noteq> None \<or> rollback_failed e)"
          using assms(4) fresh e(4) by (intro exI[of _ i] exI[of _ h]) auto
        then show ?thesis using e assms(5) by (simp add: create_failed_def)
      qed (simp add: e create_failed_def)
    qed
  qed
qed

subsection \<open>The flow against any builder\<close>

locale platform_builder =
  fixes namespace :: string and pb :: "'q platform_builder"
  assumes built_hc:
    "hc_key (BuildHostedCluster pb req d i l) = (namespace, cm_Name (cs_Metadata (cl_Spec req)))"
    "hc_Labels (BuildHostedCluster pb req d i l) = l"
    "hc_ReleaseImage (BuildHostedCluster pb req d i l) = i"
    "hc_BaseDomain (BuildHostedCluster pb req d i l) = d"
    "hc_Services (BuildHostedCluster pb req d i l) = DefaultServicePublishingStrategies"
    "hc_Etcd (BuildHostedCluster pb req d i l) = Some (Managed, PersistentVolumeEtcdStorage)"
    and built_np:
    "np_key (BuildNodePool pb req i l) = (namespace, cm_Name (cs_Metadata (cl_Spec req)))"
    "np_Labels (BuildNodePool pb req i l) = l"
    "np_ReleaseImage (BuildNodePool pb req i l) = i"
    "np_ClusterName (BuildNodePool pb req i l) = cm_Name (cs_Metadata (cl_Spec req))"
    "np_UpgradeType (BuildNodePool pb req i l) = UpgradeTypeInPlace"
    "np_DeletionTimestamp (BuildNodePool pb req i l) = None"
begin

definition sent_hc :: "ClusterConfig \<Rightarrow> string \<Rightarrow> Cluster \<Rightarrow> string \<Rightarrow> HostedCluster" where
  "sent_hc cfg iid req i =
     (applyControlPlaneResourceOverrides
        (BuildHostedCluster pb req (ResolveBaseDomain req (cc_BaseDomain cfg)) i (DCMLabels iid)) req)
     \<lparr>hc_PullSecretName := cc_PullSecretName cfg\<rparr>"

lemma sent_hc_created:
  "namespace = cc_ClusterNamespace cfg \<Longrightarrow> ResolveBaseDomain req (cc_BaseDomain cfg) \<noteq> [] \<Longrightarrow>
   created_hc cfg iid req i (sent_hc cfg iid req i)"
  using built_hc overrides_only_annotations
  by (simp add: created_hc_def sent_hc_def hc_key_def)

lemma built_np_created:
  "namespace = cc_ClusterNamespace cfg \<Longrightarrow> created_np cfg iid req i (BuildNodePool pb req i (DCMLabels iid))"
  by (simp add: created_np_def built_np)

text \<open>Both outcomes of the flow meet the contract.\<close>

lemma create_cluster_effect:
  assumes "hub_api c view" "namespace = cc_ClusterNamespace cfg"
    and run: "CreateCluster c cfg now iid req pb s = (r, s')"
  shows "case r of Inr cl \<Rightarrow> create_ok cfg now iid req (view s) cl (view s')
    | Inl e \<Rightarrow> create_failed cfg iid req (view s) e (view s')"
proof (cases "ResolveBaseDomain req (cc_BaseDomain cfg) = []")
  case True
  then show ?thesis using run by (auto simp: CreateCluster_def create_failed_def)
next
  case dom: False
  obtain ri s1 where img: "ResolveReleaseImage c cfg req s = (ri, s1)" by fastforce
  note img' = resolve_image[OF assms(1) img]
  obtain rf s2 where find: "findByInstanceID c (cc_ClusterNamespace cfg) iid s1 = (rf, s2)" by fastforce
  have v2: "view s2 = view s" using find_view[OF assms(1) find] img'(1) by simp
  show ?thesis
  proof (cases ri)
    case (Inl e)
    then show ?thesis using run dom img img' by (auto simp: CreateCluster_def create_failed_def)
  next
    case (Inr i)
    note image = img'(2)[OF Inr]
    show ?thesis
    proof (cases rf)
      case (Inr hc)
      then show ?thesis
        using run dom img \<open>ri = Inr i\<close> find find_ok[OF assms(1) find[unfolded Inr]] v2 img'(1)
        by (auto simp: CreateCluster_def create_failed_def no_instance_def)
    next
      case (Inl e)
      note missing = find_error[OF assms(1) find[unfolded Inl]]
      show ?thesis
      proof (cases "domain_type e = Some ErrorTypeNOTFOUND")
        case False
        then show ?thesis
          using run dom img \<open>ri = Inr i\<close> find Inl missing v2
          by (auto simp: CreateCluster_def create_failed_def)
      next
        case True
        then have fresh: "no_instance cfg iid (view s)"
          using missing img'(1) by (auto simp: no_instance_def)
        have "create_resources c now iid req (sent_hc cfg iid req i) (BuildNodePool pb req i (DCMLabels iid)) s2
            = (r, s')"
          using run dom img \<open>ri = Inr i\<close> find Inl True by (simp add: CreateCluster_def sent_hc_def Let_def)
        from create_resources_effect[OF assms(1) sent_hc_created[OF assms(2) dom]
            built_np_created[OF assms(2)] _ _ this]
        show ?thesis using image fresh v2 by (simp split: sum.splits)
      qed
    qed
  qed
qed

end

end
