(* ===== verification/Kubevirt.thy ===== *)
theory Kubevirt
  imports Create
begin

text \<open>
  The KubeVirt platform, \<open>internal/cluster/kubevirtprovider\<close>: the two resources it builds for a
  request.  Sizes are parsed quantities; counts and cores are narrowed to 32 bits by the code.
\<close>

definition kubevirt_BuildHostedCluster ::
  "ClusterConfig \<Rightarrow> Cluster \<Rightarrow> string \<Rightarrow> string \<Rightarrow> str_map \<Rightarrow> HostedCluster" where
  "kubevirt_BuildHostedCluster config req baseDomain releaseImage labels =
     \<lparr>hc_Name = cm_Name (cs_Metadata (cl_Spec req)),
      hc_Namespace = cc_ClusterNamespace config,
      hc_Labels = labels, hc_Annotations = Map.empty,
      hc_CreationTimestamp = 0, hc_DeletionTimestamp = None,
      hc_PlatformType = KubevirtPlatform, hc_AgentNamespace = None,
      hc_ReleaseImage = releaseImage, hc_BaseDomain = baseDomain,
      hc_Services = DefaultServicePublishingStrategies,
      hc_Etcd = Some (Managed, PersistentVolumeEtcdStorage),
      hc_PullSecretName = [], hc_Conditions = [], hc_KubeConfigName = None,
      hc_EndpointHost = [], hc_EndpointPort = 0\<rparr>"

text \<open>The quantity of a size string; the code drops the error and goes on with the zero quantity.\<close>

definition size_or_zero :: "'q quantity_api \<Rightarrow> string \<Rightarrow> 'q" where
  "size_or_zero qa v = (case ParseDCMMemory qa v of Inr q \<Rightarrow> q | Inl _ \<Rightarrow> ZeroQuantity qa)"

definition worker_compute :: "'q quantity_api \<Rightarrow> WorkerSpec \<Rightarrow> 'q KubevirtCompute option" where
  "worker_compute qa w =
     (let compute = (case wk_Memory w of
            None \<Rightarrow> None
          | Some m \<Rightarrow> Some \<lparr>kc_Memory = Some (size_or_zero qa m), kc_Cores = None\<rparr>)
      in case wk_Cpu w of
           None \<Rightarrow> compute
         | Some n \<Rightarrow>
             let compute = (case compute of None \<Rightarrow> \<lparr>kc_Memory = None, kc_Cores = None\<rparr> | Some k \<Rightarrow> k)
             in Some (compute\<lparr>kc_Cores := Some (to_uint32 n)\<rparr>))"

definition persistent_volume :: "'q \<Rightarrow> 'q KubevirtRootVolume" where
  "persistent_volume q = \<lparr>kr_Type = KubevirtVolumeTypePersistent, kr_Size = Some q\<rparr>"

definition worker_platform :: "'q quantity_api \<Rightarrow> WorkerSpec \<Rightarrow> 'q KubevirtNodePoolPlatform option" where
  "worker_platform qa w =
     (let hasPlatform = (wk_Memory w \<noteq> None \<or> wk_Cpu w \<noteq> None \<or> wk_Storage w \<noteq> None);
          rootVolume = (case wk_Storage w of
              None \<Rightarrow> None
            | Some v \<Rightarrow> Some (persistent_volume (size_or_zero qa v)))
      in if hasPlatform
         then Some \<lparr>kp_Compute = worker_compute qa w,
                    kp_RootVolume = (case rootVolume of
                       None \<Rightarrow> Some (persistent_volume (MustParse qa ''32Gi''))
                     | Some v \<Rightarrow> Some v)\<rparr>
         else None)"

definition kubevirt_BuildNodePool ::
  "ClusterConfig \<Rightarrow> 'q quantity_api \<Rightarrow> Cluster \<Rightarrow> string \<Rightarrow> str_map \<Rightarrow> 'q NodePool" where
  "kubevirt_BuildNodePool config qa req releaseImage labels =
     (let np = \<lparr>np_Name = cm_Name (cs_Metadata (cl_Spec req)),
                np_Namespace = cc_ClusterNamespace config,
                np_Labels = labels, np_DeletionTimestamp = None,
                np_ClusterName = cm_Name (cs_Metadata (cl_Spec req)),
                np_ReleaseImage = releaseImage, np_UpgradeType = UpgradeTypeInPlace,
                np_PlatformType = KubevirtPlatform, np_Kubevirt = None,
                np_AgentMatchLabels = None, np_Replicas = None\<rparr>
      in case Option.bind (cs_Nodes (cl_Spec req)) cn_Workers of
           None \<Rightarrow> np
         | Some w \<Rightarrow>
             let np = np\<lparr>np_Replicas := Some (case wk_Count w of Some n \<Rightarrow> to_int32 n | None \<Rightarrow> 1)\<rparr>
             in (case worker_platform qa w of
                   None \<Rightarrow> np
                 | Some kvPlatform \<Rightarrow> np\<lparr>np_Kubevirt := Some kvPlatform\<rparr>))"

definition kubevirt_builder :: "ClusterConfig \<Rightarrow> 'q quantity_api \<Rightarrow> 'q platform_builder" where
  "kubevirt_builder config qa =
     \<lparr>BuildHostedCluster = kubevirt_BuildHostedCluster config,
      BuildNodePool = kubevirt_BuildNodePool config qa\<rparr>"

definition kubevirt_Create ::
  "('s, 'q) k8s_client \<Rightarrow> ClusterConfig \<Rightarrow> 'q quantity_api \<Rightarrow> time \<Rightarrow> string \<Rightarrow> Cluster \<Rightarrow> 's \<Rightarrow>
   (go_error + Cluster) \<times> 's" where
  "kubevirt_Create c config qa now iid req s =
     CreateCluster c config now iid req (kubevirt_builder config qa) s"

subsection \<open>The builder keeps its contract\<close>

lemma kubevirt_np_fields:
  "np_key (kubevirt_BuildNodePool config qa req i l) = (cc_ClusterNamespace config, cm_Name (cs_Metadata (cl_Spec req)))"
  "np_Labels (kubevirt_BuildNodePool config qa req i l) = l"
  "np_ReleaseImage (kubevirt_BuildNodePool config qa req i l) = i"
  "np_ClusterName (kubevirt_BuildNodePool config qa req i l) = cm_Name (cs_Metadata (cl_Spec req))"
  "np_UpgradeType (kubevirt_BuildNodePool config qa req i l) = UpgradeTypeInPlace"
  "np_DeletionTimestamp (kubevirt_BuildNodePool config qa req i l) = None"
  by (simp_all add: kubevirt_BuildNodePool_def np_key_def Let_def split: option.split)

interpretation kubevirt: platform_builder "cc_ClusterNamespace config" "kubevirt_builder config qa"
  for config qa
  by unfold_locales
    (simp_all add: kubevirt_builder_def kubevirt_BuildHostedCluster_def hc_key_def kubevirt_np_fields)

subsection \<open>What the workers get\<close>

text \<open>
  C37: a worker request whose sizes parse and whose counts fit their Go types (the replicas 32 bits
  with a sign, the cores 32 bits without) is carried over as asked: as many replicas as the count
  (one when it is left out), the CPU count as cores, memory and root disk with their parsed sizes.
  As soon as one of the three sizes is given the root disk is set, to 32Gi when no storage was
  asked for; without any of them the platform defaults are kept.
\<close>

theorem kubevirt_worker_sizes:
  assumes "cs_Nodes (cl_Spec req) = Some nodes" "cn_Workers nodes = Some w"
    and "\<forall>n. wk_Count w = Some n \<longrightarrow> 1 \<le> n \<and> n < 2 ^ 31" "\<forall>n. wk_Cpu w = Some n \<longrightarrow> 1 \<le> n \<and> n < 2 ^ 32"
    and "\<forall>v. wk_Memory w = Some v \<or> wk_Storage w = Some v \<longrightarrow> ParseDCMMemory qa v = Inr (sz v)"
    and "np = kubevirt_BuildNodePool config qa req i l"
  shows "np_Replicas np = Some (case wk_Count w of Some n \<Rightarrow> n | None \<Rightarrow> 1)
    \<and> (wk_Memory w = None \<and> wk_Cpu w = None \<and> wk_Storage w = None \<longrightarrow> np_Kubevirt np = None)
    \<and> (wk_Memory w \<noteq> None \<or> wk_Cpu w \<noteq> None \<or> wk_Storage w \<noteq> None \<longrightarrow>
        (\<exists>p. np_Kubevirt np = Some p
          \<and> map_option kc_Memory (kp_Compute p) =
              (if wk_Memory w = None \<and> wk_Cpu w = None then None else Some (map_option sz (wk_Memory w)))
          \<and> map_option kc_Cores (kp_Compute p) =
              (if wk_Memory w = None \<and> wk_Cpu w = None then None else Some (wk_Cpu w))
          \<and> kp_RootVolume p = Some (persistent_volume
              (case wk_Storage w of Some v \<Rightarrow> sz v | None \<Rightarrow> MustParse qa ''32Gi''))))"
  using assms
  by (auto simp: kubevirt_BuildNodePool_def worker_platform_def worker_compute_def size_or_zero_def
      Let_def to_int32_id to_uint32_id split: option.splits)

definition nat_quantities :: "nat quantity_api" where
  "nat_quantities = \<lparr>ParseQuantity = (\<lambda>v. if v = ''32G'' then Inr 32 else Inl (PlainError ''bad'')),
     MustParse = (\<lambda>v. 1), ZeroQuantity = 0\<rparr>"

theorem kubevirt_worker_sizes_witness:
  "np_Replicas (kubevirt_BuildNodePool sample_cfg nat_quantities sized_req ''r:4.17.3'' (DCMLabels ''id-1'')) = Some 2"
proof -
  define nodes where "nodes = the (cs_Nodes (cl_Spec sized_req))"
  define w where "w = the (cn_Workers nodes)"
  have some: "cs_Nodes (cl_Spec sized_req) = Some nodes" "cn_Workers nodes = Some w"
    by (simp_all add: nodes_def w_def sized_req_def)
  have w: "wk_Count w = Some 2" "wk_Cpu w = Some 8" "wk_Memory w = Some ''32GB''" "wk_Storage w = None"
    by (simp_all add: nodes_def w_def sized_req_def)
  have "ParseDCMMemory nat_quantities ''32GB'' = Inr 32"
    using ParseDCMMemory_suffix[of nat_quantities "''32G''"] by (simp add: nat_quantities_def)
  then show ?thesis
    using kubevirt_worker_sizes[OF some _ _ _ refl, of nat_quantities "\<lambda>_. 32" sample_cfg "''r:4.17.3''"]
    by (simp add: w)
qed

text \<open>
  The narrowing of the worker count is not checked.  A count from \<open>2^31\<close> on that a 64-bit integer
  holds becomes a negative replica count, and one that is a multiple of \<open>2^32\<close> asks for no worker.
\<close>

theorem worker_count_wraps:
  assumes "cs_Nodes (cl_Spec req) = Some nodes" "cn_Workers nodes = Some w" "wk_Count w = Some n"
    and "np = kubevirt_BuildNodePool config qa req i l"
  shows "(2 ^ 31 \<le> n \<and> n < 2 ^ 32 \<longrightarrow> np_Replicas np = Some (n - 2 ^ 32))
    \<and> (n mod 2 ^ 32 = 0 \<longrightarrow> np_Replicas np = Some 0)"
proof -
  have "np_Replicas np = Some (to_int32 n)"
    using assms by (simp add: kubevirt_BuildNodePool_def Let_def split: option.split)
  moreover have "to_int32 n = n - 2 ^ 32" if "2 ^ 31 \<le> n" "n < 2 ^ 32"
  proof -
    have "(n + 2147483648) mod 4294967296 = ((n - 2147483648) + 4294967296) mod 4294967296"
      by (simp add: add.commute)
    also have "\<dots> = n - 2147483648" using that by (simp only: mod_add_self2) (simp add: mod_pos_pos_trivial)
    finally show ?thesis by (simp add: to_int32_def)
  qed
  moreover have "to_int32 n = 0" if "n mod 2 ^ 32 = 0"
  proof -
    have "(n + 2147483648) mod 4294967296 = (n mod 4294967296 + 2147483648) mod 4294967296"
      by (rule mod_add_left_eq[symmetric])
    then show ?thesis using that by (simp add: to_int32_def)
  qed
  ultimately show ?thesis by simp
qed

definition huge_req :: "int \<Rightarrow> Cluster" where
  "huge_req n = sized_req\<lparr>cl_Spec := (cl_Spec sized_req)\<lparr>cs_Nodes := Some
     \<lparr>cn_ControlPlane = None, cn_Workers = Some
        \<lparr>wk_Count = Some n, wk_Cpu = None, wk_Memory = None, wk_Storage = None\<rparr>\<rparr>\<rparr>\<rparr>"

theorem worker_count_wraps_witness:
  "np_Replicas (kubevirt_BuildNodePool sample_cfg nat_quantities (huge_req 4294967295) ''r:4.17.3'' Map.empty)
     = Some (- 1)"
  using worker_count_wraps[of "huge_req 4294967295" _ _ 4294967295, OF _ _ _ refl,
      of _ _ sample_cfg nat_quantities "''r:4.17.3''" Map.empty]
  by (simp add: huge_req_def)

end
