(* ===== verification/BaremetalProvider.thy ===== *)
theory BaremetalProvider
  imports Create
begin

text \<open>
  The BareMetal (Agent) platform, \<open>internal/cluster/baremetal\<close>: the InfraEnv is resolved first, then
  the shared flow runs with a builder that selects agents by label.
\<close>

definition resolveInfraEnv :: "ClusterConfig \<Rightarrow> Cluster \<Rightarrow> go_error + string" where
  "resolveInfraEnv config req =
     (case acm_hint ah_InfraEnv req of
        Some e \<Rightarrow> Inr e
      | None \<Rightarrow>
          if cc_DefaultInfraEnv config \<noteq> [] then Inr (cc_DefaultInfraEnv config)
          else Inl (NewInvalidArgumentError
            ''infra_env is required: set provider_hints.acm.infra_env or SP_DEFAULT_INFRA_ENV''))"

definition baremetal_BuildHostedCluster ::
  "ClusterConfig \<Rightarrow> Cluster \<Rightarrow> string \<Rightarrow> string \<Rightarrow> str_map \<Rightarrow> HostedCluster" where
  "baremetal_BuildHostedCluster config req baseDomain releaseImage labels =
     \<lparr>hc_Name = cm_Name (cs_Metadata (cl_Spec req)),
      hc_Namespace = cc_ClusterNamespace config,
      hc_Labels = labels, hc_Annotations = Map.empty,
      hc_CreationTimestamp = 0, hc_DeletionTimestamp = None,
      hc_PlatformType = AgentPlatform, hc_AgentNamespace = Some (cc_AgentNamespace config),
      hc_ReleaseImage = releaseImage, hc_BaseDomain = baseDomain,
      hc_Services = DefaultServicePublishingStrategies,
      hc_Etcd = Some (Managed, PersistentVolumeEtcdStorage),
      hc_PullSecretName = [], hc_Conditions = [], hc_KubeConfigName = None,
      hc_EndpointHost = [], hc_EndpointPort = 0\<rparr>"

text \<open>The entries of the agent labels are written over the InfraEnv label.\<close>

definition agent_match_labels :: "ClusterConfig \<Rightarrow> string \<Rightarrow> Cluster \<Rightarrow> str_map" where
  "agent_match_labels config infraEnv req =
     (let matchLabels = [cc_InfraEnvLabelKey config \<mapsto> infraEnv] in
      case acm_hint ah_AgentLabels req of
        None \<Rightarrow> matchLabels
      | Some agentLabels \<Rightarrow> matchLabels ++ agentLabels)"

definition baremetal_BuildNodePool ::
  "ClusterConfig \<Rightarrow> string \<Rightarrow> Cluster \<Rightarrow> string \<Rightarrow> str_map \<Rightarrow> 'q NodePool" where
  "baremetal_BuildNodePool config infraEnv req releaseImage labels =
     \<lparr>np_Name = cm_Name (cs_Metadata (cl_Spec req)),
      np_Namespace = cc_ClusterNamespace config,
      np_Labels = labels, np_DeletionTimestamp = None,
      np_ClusterName = cm_Name (cs_Metadata (cl_Spec req)),
      np_ReleaseImage = releaseImage, np_UpgradeType = UpgradeTypeInPlace,
      np_PlatformType = AgentPlatform, np_Kubevirt = None,
      np_AgentMatchLabels = Some (agent_match_labels config infraEnv req),
      np_Replicas = Some
        (case Option.bind (Option.bind (cs_Nodes (cl_Spec req)) cn_Workers) wk_Count of
           Some n \<Rightarrow> to_int32 n
         | None \<Rightarrow> 1)\<rparr>"

definition baremetal_builder :: "ClusterConfig \<Rightarrow> string \<Rightarrow> 'q platform_builder" where
  "baremetal_builder config infraEnv =
     \<lparr>BuildHostedCluster = baremetal_BuildHostedCluster config,
      BuildNodePool = baremetal_BuildNodePool config infraEnv\<rparr>"

definition baremetal_Create ::
  "('s, 'q) k8s_client \<Rightarrow> ClusterConfig \<Rightarrow> time \<Rightarrow> string \<Rightarrow> Cluster \<Rightarrow> 's \<Rightarrow> (go_error + Cluster) \<times> 's" where
  "baremetal_Create c config now iid req s =
     (case resolveInfraEnv config req of
        Inl err \<Rightarrow> (Inl err, s)
      | Inr infraEnv \<Rightarrow> CreateCluster c config now iid req (baremetal_builder config infraEnv) s)"

interpretation baremetal: platform_builder "cc_ClusterNamespace config" "baremetal_builder config infraEnv"
  for config infraEnv
  by unfold_locales
    (simp_all add: baremetal_builder_def baremetal_BuildHostedCluster_def baremetal_BuildNodePool_def
      hc_key_def np_key_def)

text \<open>
  The agents of a bare metal cluster.  The InfraEnv comes from the hint, then from the settings,
  and its absence is an invalid argument; the node pool selects agents by every agent label of the
  request, and by the InfraEnv unless an agent label of the same key replaces it.
\<close>

theorem baremetal_agent_selection:
  assumes "l = agent_match_labels config env req"
  shows "(\<forall>e. acm_hint ah_InfraEnv req = Some e \<longrightarrow> resolveInfraEnv config req = Inr e)
    \<and> (acm_hint ah_InfraEnv req = None \<and> cc_DefaultInfraEnv config \<noteq> [] \<longrightarrow>
        resolveInfraEnv config req = Inr (cc_DefaultInfraEnv config))
    \<and> (acm_hint ah_InfraEnv req = None \<and> cc_DefaultInfraEnv config = [] \<longrightarrow>
        (\<exists>e. resolveInfraEnv config req = Inl e \<and> domain_type e = Some ErrorTypeINVALIDARGUMENT))
    \<and> (\<forall>ls k v. acm_hint ah_AgentLabels req = Some ls \<and> ls k = Some v \<longrightarrow> l k = Some v)
    \<and> (Option.bind (acm_hint ah_AgentLabels req) (\<lambda>ls. ls (cc_InfraEnvLabelKey config)) = None \<longrightarrow>
        l (cc_InfraEnvLabelKey config) = Some env)
    \<and> dom l = insert (cc_InfraEnvLabelKey config)
        (case acm_hint ah_AgentLabels req of Some ls \<Rightarrow> dom ls | None \<Rightarrow> {})"
  using assms
  by (auto simp: resolveInfraEnv_def agent_match_labels_def Let_def map_add_def
      split: option.splits if_splits)

definition agent_req :: Cluster where
  "agent_req = sized_req\<lparr>cl_Spec := (cl_Spec sized_req)\<lparr>cs_ProviderHints := Some
     \<lparr>ph_Acm = Some \<lparr>ah_AgentLabels = Some [''rack'' \<mapsto> ''r1''], ah_BaseDomain = None, ah_InfraEnv = None,
        ah_Platform = Some Baremetal, ah_ReleaseImage = None\<rparr>, ph_AdditionalProperties = []\<rparr>\<rparr>\<rparr>"

theorem baremetal_agent_selection_witness:
  "agent_match_labels sample_cfg ''infra'' agent_req ''rack'' = Some ''r1''
   \<and> agent_match_labels sample_cfg ''infra'' agent_req ''infraenv'' = Some ''infra''
   \<and> resolveInfraEnv sample_cfg agent_req = Inr ''infra''"
proof -
  have "acm_hint ah_AgentLabels agent_req = Some [''rack'' \<mapsto> ''r1'']" "acm_hint ah_InfraEnv agent_req = None"
    by (simp_all add: acm_hint_def acm_hints_def agent_req_def)
  moreover have "cc_InfraEnvLabelKey sample_cfg = ''infraenv''" "cc_DefaultInfraEnv sample_cfg = ''infra''"
    by (simp_all add: sample_cfg_def)
  ultimately show ?thesis
    using baremetal_agent_selection[of _ sample_cfg "''infra''" agent_req, OF refl] by simp
qed

end
