(* ===== verification/Pagination.thy ===== *)
theory Pagination
  imports Operations
begin

text \<open>
  What paging through \<open>ListClusters\<close> gives.  The specification is the list of all managed clusters
  of the namespace in the order of their names; one call returns a slice of it, and following the
  tokens enumerates it.
\<close>

definition managed_selector :: selector where
  "managed_selector = [(LabelManagedBy, ValueManagedBy), (LabelServiceType, ValueServiceType)]"

definition managed :: "ClusterConfig \<Rightarrow> 'q hub \<Rightarrow> HostedCluster list" where
  "managed cfg h = sort_key hc_Name (filter (hc_matches (cc_ClusterNamespace cfg) managed_selector) (hub_hcs h))"

text \<open>What a caller sees of a listed cluster: its name and its id.\<close>

definition listed :: "Cluster \<Rightarrow> string \<times> string option" where
  "listed cl = (cm_Name (cs_Metadata (cl_Spec cl)), cl_Id cl)"

definition listing :: "HostedCluster \<Rightarrow> string \<times> string option" where
  "listing hc = (hc_Name hc, Some (map_get (hc_Labels hc) LabelInstanceID))"

lemma convert_each_listed: "map listed (fst (convert_each c cfg hcs s)) = map listing hcs"
  by (induction hcs arbitrary: s)
    (simp_all add: Let_def case_prod_beta' listed_def listing_def convert_fields)

lemma convert_each_view:
  "hub_api c view \<Longrightarrow> view (snd (convert_each c cfg hcs s)) = view s"
  by (induction hcs arbitrary: s) (simp_all add: Let_def case_prod_beta' convert_view)

lemma managed_items:
  assumes "hub_api c view" "distinct (map hc_key (hub_hcs (view s)))"
    and "ListHostedClusters c (cc_ClusterNamespace cfg) managed_selector s = (Inr hcs, s')"
  shows "sort_key hc_Name hcs = managed cfg (view s)"
proof -
  let ?sel = "hc_matches (cc_ClusterNamespace cfg) managed_selector"
  let ?xs = "filter ?sel (hub_hcs (view s))"
  have "distinct (map hc_key ?xs)"
    using assms(2) by (simp add: distinct_map_filter)
  moreover have "hc_Namespace h = cc_ClusterNamespace cfg" if "h \<in> set ?xs" for h
    using that by (simp add: hc_matches_def)
  ultimately have "distinct (map hc_Name ?xs)"
    by (auto simp: distinct_map inj_on_def hc_key_def)
  moreover have perm: "mset hcs = mset ?xs" by (rule list_hcs[OF assms(1,3)])
  ultimately have "distinct (map hc_Name (sort_key hc_Name hcs))"
    by (metis mset_eq_imp_distinct_iff mset_map mset_sort)
  then show ?thesis
    unfolding managed_def using perm by (intro sorted_key_unique[of _ _ hc_Name]) simp_all
qed

lemma page_offset_nonneg: "page_offset tok = Inr v \<Longrightarrow> 0 \<le> v \<and> v < 2 ^ 63"
  by (auto simp: page_offset_def in_int64_def dest!: Atoi_range split: if_splits option.splits)

lemma page_offset_Inl: "page_offset tok = Inl e \<Longrightarrow> e = NewInvalidArgumentError ''invalid page_token''"
  by (auto simp: page_offset_def split: if_splits option.splits)

lemma Encode_not_Nil: "s \<noteq> [] \<Longrightarrow> EncodeToString s \<noteq> []"
  by (cases s rule: EncodeToString.cases) (simp_all add: b64_group_def)

lemma FormatInt_not_Nil: "FormatInt n \<noteq> []"
  by (simp add: FormatInt_def)

lemma page_offset_token: "0 \<le> n \<Longrightarrow> n < 2 ^ 63 \<Longrightarrow> page_offset (EncodeToString (FormatInt n)) = Inr n"
  by (simp add: page_offset_def Encode_not_Nil FormatInt_not_Nil Decode_Encode Atoi_FormatInt in_int64_def)

lemma list_clusters_slice:
  assumes "hub_api c view" "distinct (map hc_key (hub_hcs (view s)))"
    and "ListHostedClusters c (cc_ClusterNamespace cfg) managed_selector s = (Inr hcs, s1)"
    and "page_offset tok = Inr v" "0 < pageSize" "int (length (managed cfg (view s))) + pageSize < 2 ^ 63"
  shows "\<exists>clusters s'. ListClusters c cfg pageSize tok s = (Returns (Inr
      \<lparr>li_Clusters = Some clusters,
       li_NextPageToken = (if v + pageSize < int (length (managed cfg (view s)))
         then Some (EncodeToString (FormatInt (v + pageSize))) else None)\<rparr>), s')
    \<and> map listed clusters = map listing (take (nat pageSize) (drop (nat v) (managed cfg (view s))))
    \<and> view s' = view s"
proof -
  let ?m = "managed cfg (view s)"
  define off where "off = (if v > int (length ?m) then int (length ?m) else v)"
  have v: "0 \<le> v" using page_offset_nonneg[OF assms(4)] by simp
  have "in_int64 (off + pageSize)" using assms(5,6) v by (auto simp: in_int64_def off_def)
  then have sum: "to_int64 (off + pageSize) = off + pageSize" by (rule to_int64_id)
  define stop where "stop = (if off + pageSize > int (length ?m) then int (length ?m) else off + pageSize)"
  define page where "page = drop (nat off) (take (nat stop) ?m)"
  have page: "page = take (nat pageSize) (drop (nat v) ?m)"
    using v assms(5) by (auto simp: page_def stop_def off_def take_drop nat_add_distrib add.commute)
  have run: "ListClusters c cfg pageSize tok s =
     (Returns (Inr \<lparr>li_Clusters = Some (fst (convert_each c cfg page s1)),
        li_NextPageToken = (if stop < int (length ?m) then Some (EncodeToString (FormatInt stop)) else None)\<rparr>),
      snd (convert_each c cfg page s1))"
    using assms(3,4,5) managed_items[OF assms(1-3)] v
    unfolding ListClusters_def managed_selector_def[symmetric]
    by (simp add: Let_def case_prod_beta' off_def[symmetric] sum) (auto simp: page_def stop_def off_def)
  have "stop < int (length ?m) \<longleftrightarrow> v + pageSize < int (length ?m)"
    "v + pageSize < int (length ?m) \<Longrightarrow> stop = v + pageSize"
    using v assms(5) by (auto simp: stop_def off_def split: if_splits)
  then show ?thesis
    unfolding run using convert_each_listed[of c cfg page s1] convert_each_view[OF assms(1), of cfg page s1]
      read_view(1)[OF assms(1,3)] page by auto
qed

lemma list_clusters_length:
  assumes "hub_api c view" "distinct (map hc_key (hub_hcs (view s)))"
    and "0 < pageSize" "int (length (managed cfg (view s))) + pageSize < 2 ^ 63"
    and "ListClusters c cfg pageSize tok s = (r, s')"
  shows "\<exists>x. r = Returns x \<and> (\<forall>v cls. x = Inr v \<and> li_Clusters v = Some cls \<longrightarrow> int (length cls) \<le> pageSize)"
proof (cases "ListHostedClusters c (cc_ClusterNamespace cfg) managed_selector s")
  case (Pair l s1)
  show ?thesis
  proof (cases l)
    case (Inl err)
    then show ?thesis using assms(5) Pair by (auto simp: ListClusters_def managed_selector_def[symmetric])
  next
    case (Inr hcs)
    show ?thesis
    proof (cases "page_offset tok")
      case (Inl e)
      then show ?thesis
        using assms(5) Pair \<open>l = Inr hcs\<close> by (auto simp: ListClusters_def managed_selector_def[symmetric] Let_def)
    next
      case (Inr v)
      from list_clusters_slice[OF assms(1,2) Pair[unfolded \<open>l = Inr hcs\<close>] Inr assms(3,4)]
      obtain clusters t where r: "r = Returns (Inr \<lparr>li_Clusters = Some clusters, li_NextPageToken = t\<rparr>)"
        and cls: "map listed clusters = map listing (take (nat pageSize) (drop (nat v) (managed cfg (view s))))"
        using assms(5) by auto
      have "length clusters \<le> nat pageSize" using arg_cong[OF cls, of length] by simp
      then show ?thesis using r assms(3) by auto
    qed
  qed
qed

text \<open>
  One page.  Within the bounds of 64-bit arithmetic \<open>ListClusters\<close> does not panic, does not
  change the hub, and returns the slice of the sorted managed clusters that starts at the token's
  offset; it hands out a next token exactly when clusters remain, and that token stands for the
  end of the page.  A bad token is the only invalid-argument error.
\<close>

theorem list_clusters_page:
  assumes "hub_api c view" "distinct (map hc_key (hub_hcs (view s)))"
    and "0 < pageSize" "int (length (managed cfg (view s))) + pageSize < 2 ^ 63"
    and "ListClusters c cfg pageSize tok s = (r, s')"
  shows "view s' = view s \<and>
    (case r of
       Panics m \<Rightarrow> False
     | Returns (Inl e) \<Rightarrow> domain_type e = Some ErrorTypeINTERNAL
         \<or> domain_type e = Some ErrorTypeINVALIDARGUMENT \<and> (\<nexists>v. page_offset tok = Inr v)
     | Returns (Inr l) \<Rightarrow> \<exists>v clusters. page_offset tok = Inr v \<and> li_Clusters l = Some clusters
         \<and> map listed clusters = map listing (take (nat pageSize) (drop (nat v) (managed cfg (view s))))
         \<and> (case li_NextPageToken l of
              None \<Rightarrow> int (length (managed cfg (view s))) \<le> v + pageSize
            | Some t \<Rightarrow> v + pageSize < int (length (managed cfg (view s))) \<and> page_offset t = Inr (v + pageSize)))"
proof (cases "ListHostedClusters c (cc_ClusterNamespace cfg) managed_selector s")
  case (Pair l s1)
  note v1 = read_view(1)[OF assms(1) Pair]
  show ?thesis
  proof (cases l)
    case (Inl err)
    then show ?thesis
      using assms(5) Pair v1 by (auto simp: ListClusters_def managed_selector_def[symmetric])
  next
    case (Inr hcs)
    show ?thesis
    proof (cases "page_offset tok")
      case (Inl e)
      then show ?thesis
        using assms(5) Pair \<open>l = Inr hcs\<close> v1 page_offset_Inl[OF Inl]
        by (auto simp: ListClusters_def managed_selector_def[symmetric] Let_def)
    next
      case (Inr v)
      obtain clusters where run: "r = Returns (Inr \<lparr>li_Clusters = Some clusters,
          li_NextPageToken = (if v + pageSize < int (length (managed cfg (view s)))
            then Some (EncodeToString (FormatInt (v + pageSize))) else None)\<rparr>)"
        "map listed clusters = map listing (take (nat pageSize) (drop (nat v) (managed cfg (view s))))"
        "view s' = view s"
        using list_clusters_slice[OF assms(1,2) Pair[unfolded \<open>l = Inr hcs\<close>] Inr assms(3,4)] assms(5)
        by auto
      have "page_offset (EncodeToString (FormatInt (v + pageSize))) = Inr (v + pageSize)"
        if "v + pageSize < int (length (managed cfg (view s)))"
        using page_offset_token[of "v + pageSize"] page_offset_nonneg[OF Inr] assms(3,4) that by linarith
      then show ?thesis using run Inr by auto
    qed
  qed
qed

subsection \<open>Following the tokens\<close>

text \<open>A client that asks for pages until no token comes back; \<open>None\<close> when a call fails or the fuel ends.\<close>

fun walk_pages ::
  "('s, 'q) k8s_client \<Rightarrow> ClusterConfig \<Rightarrow> int \<Rightarrow> nat \<Rightarrow> string \<Rightarrow> 's \<Rightarrow> Cluster list list option" where
  "walk_pages c cfg pageSize 0 tok s = None"
| "walk_pages c cfg pageSize (Suc fuel) tok s =
     (case ListClusters c cfg pageSize tok s of
        (Returns (Inr l), s') \<Rightarrow>
          (case (li_Clusters l, li_NextPageToken l) of
             (Some page, None) \<Rightarrow> Some [page]
           | (Some page, Some t) \<Rightarrow> map_option ((#) page) (walk_pages c cfg pageSize fuel t s')
           | (None, _) \<Rightarrow> None)
      | _ \<Rightarrow> None)"

definition lists_available :: "('s, 'q) k8s_client \<Rightarrow> bool" where
  "lists_available c \<longleftrightarrow> (\<forall>ns sel s. \<exists>xs s'. ListHostedClusters c ns sel s = (Inr xs, s'))"

lemma walk_from:
  assumes "hub_api c view" "lists_available c" "0 < pageSize"
    and "distinct (map hc_key (hub_hcs (view s)))"
    and "int (length (managed cfg (view s))) + pageSize < 2 ^ 63"
    and "page_offset tok = Inr v" "length (managed cfg (view s)) < nat v + fuel" "0 < fuel"
  shows "\<exists>pages. walk_pages c cfg pageSize fuel tok s = Some pages
    \<and> map listed (concat pages) = map listing (drop (nat v) (managed cfg (view s)))
    \<and> (\<forall>p \<in> set pages. length p \<le> nat pageSize)"
  using assms(4-8)
proof (induction fuel arbitrary: tok s v)
  case (Suc fuel)
  let ?m = "managed cfg (view s)"
  have v: "0 \<le> v" using page_offset_nonneg[OF Suc.prems(3)] by simp
  obtain hcs s1 where l: "ListHostedClusters c (cc_ClusterNamespace cfg) managed_selector s = (Inr hcs, s1)"
    using assms(2) unfolding lists_available_def by blast
  from list_clusters_slice[OF assms(1) Suc.prems(1) l Suc.prems(3) assms(3) Suc.prems(2)]
  obtain page s' where run: "ListClusters c cfg pageSize tok s = (Returns (Inr
      \<lparr>li_Clusters = Some page,
       li_NextPageToken = (if v + pageSize < int (length ?m)
         then Some (EncodeToString (FormatInt (v + pageSize))) else None)\<rparr>), s')"
    and page: "map listed page = map listing (take (nat pageSize) (drop (nat v) ?m))"
    and view: "view s' = view s" by blast
  have len: "length page \<le> nat pageSize" using arg_cong[OF page, of length] by simp
  show ?case
  proof (cases "v + pageSize < int (length ?m)")
    case False
    then have "take (nat pageSize) (drop (nat v) ?m) = drop (nat v) ?m" using v by simp
    then show ?thesis using run False page len by simp
  next
    case True
    let ?t = "EncodeToString (FormatInt (v + pageSize))"
    have t: "page_offset ?t = Inr (v + pageSize)"
      using page_offset_token[of "v + pageSize"] v assms(3) Suc.prems(2) True by linarith
    have "length ?m < nat (v + pageSize) + fuel" "0 < fuel"
      using Suc.prems(4) True v assms(3) by auto
    from Suc.IH[OF _ _ t, of s', unfolded view, OF Suc.prems(1,2) this] obtain pages where
      rest: "walk_pages c cfg pageSize fuel ?t s' = Some pages"
      "map listed (concat pages) = map listing (drop (nat (v + pageSize)) ?m)"
      "\<forall>p \<in> set pages. length p \<le> nat pageSize" by blast
    have "drop (nat v) ?m = take (nat pageSize) (drop (nat v) ?m) @ drop (nat (v + pageSize)) ?m"
      using v assms(3) by (metis append_take_drop_id drop_drop nat_add_distrib add.commute less_imp_le)
    then show ?thesis
      using run True len rest page by (intro exI[of _ "page # pages"]) (simp, metis map_append)
  qed
qed simp

text \<open>
  C8: paging is complete.  A client that starts without a token and follows the next tokens comes
  to an end after at most one call more than there are clusters, no page is longer than asked for,
  and the pages together are every managed cluster of the namespace exactly once, in name order.
\<close>

theorem paging_enumerates_all:
  assumes "hub_api c view" "lists_available c" "0 < pageSize"
    and "distinct (map hc_key (hub_hcs (view s)))"
    and "int (length (managed cfg (view s))) + pageSize < 2 ^ 63"
    and "length (managed cfg (view s)) < fuel"
  shows "\<exists>pages. walk_pages c cfg pageSize fuel [] s = Some pages
    \<and> map listed (concat pages) = map listing (managed cfg (view s))
    \<and> sorted (map fst (map listed (concat pages)))
    \<and> (\<forall>p \<in> set pages. length p \<le> nat pageSize)"
proof -
  have "page_offset [] = Inr 0" by (simp add: page_offset_def)
  from walk_from[OF assms(1-5) this, of fuel] assms(6) obtain pages where
    pages: "walk_pages c cfg pageSize fuel [] s = Some pages"
      "map listed (concat pages) = map listing (managed cfg (view s))"
      "\<forall>p \<in> set pages. length p \<le> nat pageSize" by auto
  have "map fst (map listed (concat pages)) = map hc_Name (managed cfg (view s))"
    unfolding pages(2) by (simp add: listing_def comp_def)
  moreover have "sorted (map hc_Name (managed cfg (view s)))" by (simp add: managed_def)
  ultimately show ?thesis using pages by metis
qed

definition two_hub :: "nat hub" where
  "two_hub = ready_hub\<lparr>hub_hcs := [ready_hc, ready_hc\<lparr>hc_Name := ''alpha'', hc_Labels := DCMLabels ''id-2''\<rparr>]\<rparr>"

lemma two_facts:
  "distinct (map hc_key (hub_hcs (id two_hub)))" "length (managed sample_cfg (id two_hub)) = 2"
  "lists_available mem_client"
  by (simp_all add: two_hub_def managed_def ready_hc_def hc_key_def managed_selector_def hc_matches_def
      selects_def lists_available_def mem_client_def ready_hub_def)

theorem list_clusters_page_witness:
  "snd (ListClusters mem_client sample_cfg 1 [] two_hub) = two_hub"
  using list_clusters_page[OF mem_hub_api two_facts(1) _ _ surjective_pairing, of 1 sample_cfg "[]"]
  by (simp add: two_facts(2)[simplified])

theorem paging_enumerates_all_witness:
  "\<exists>pages. walk_pages mem_client sample_cfg 1 3 [] two_hub = Some pages \<and> length (concat pages) = 2"
proof -
  have "int (length (managed sample_cfg (id two_hub))) + 1 < 2 ^ 63" "length (managed sample_cfg (id two_hub)) < 3"
    by (simp_all add: two_facts(2)[simplified])
  from paging_enumerates_all[OF mem_hub_api two_facts(3) zero_less_one two_facts(1) this]
  obtain pages where "walk_pages mem_client sample_cfg 1 3 [] two_hub = Some pages"
    "map listed (concat pages) = map listing (managed sample_cfg two_hub)" by auto
  then show ?thesis
    using arg_cong[of "map listed (concat pages)" _ length] two_facts(2)
    by (metis id_apply length_map)
qed

end
