(* ===== verification/Dispatcher.thy ===== *)
theory Dispatcher
  imports Service Kubevirt BaremetalProvider Pagination
begin

text \<open>
  \<open>internal/cluster/dispatcher\<close>: the \<open>ClusterService\<close> of the program.  Creation goes to the service of
  the requested platform, the other operations are shared.  The properties here are about the
  composed service: the effect of a creation on the hub, reading a cluster back, and the
  invariant every sequence of operations keeps.
\<close>

datatype platform_creator = KubevirtService | BaremetalService

text \<open>The map \<open>services\<close> of the constructor.\<close>

definition dispatcher_New :: "string list \<Rightarrow> string \<rightharpoonup> platform_creator" where
  "dispatcher_New enabledPlatforms =
     (let services = Map.empty;
          services = (if ''kubevirt'' \<in> set enabledPlatforms
                      then services(Kubevirt \<mapsto> KubevirtService) else services)
      in if ''baremetal'' \<in> set enabledPlatforms
         then services(Baremetal \<mapsto> BaremetalService) else services)"

definition serviceForPlatform ::
  "(string \<rightharpoonup> platform_creator) \<Rightarrow> Cluster \<Rightarrow> string \<times> platform_creator option" where
  "serviceForPlatform services req =
     (let platform = (case acm_hint ah_Platform req of Some p \<Rightarrow> p | None \<Rightarrow> Kubevirt)
      in (platform, services platform))"

definition dispatcher_Create ::
  "('s, 'q) k8s_client \<Rightarrow> ClusterConfig \<Rightarrow> 'q quantity_api \<Rightarrow> (string \<rightharpoonup> platform_creator) \<Rightarrow> time \<Rightarrow>
   string \<Rightarrow> Cluster \<Rightarrow> 's \<Rightarrow> (go_error + Cluster) \<times> 's" where
  "dispatcher_Create c config qa services now iid req s =
     (case serviceForPlatform services req of
        (platform, None) \<Rightarrow>
          (Inl (NewUnprocessableEntityError (''unsupported platform '' @ Quote platform)), s)
      | (platform, Some KubevirtService) \<Rightarrow> kubevirt_Create c config qa now iid req s
      | (platform, Some BaremetalService) \<Rightarrow> baremetal_Create c config now iid req s)"

definition dispatcher_service ::
  "('s, 'q) k8s_client \<Rightarrow> ClusterConfig \<Rightarrow> 'q quantity_api \<Rightarrow> string list \<Rightarrow> time \<Rightarrow> 's cluster_service" where
  "dispatcher_service c config qa enabledPlatforms now =
     \<lparr>svc_Create = dispatcher_Create c config qa (dispatcher_New enabledPlatforms) now,
      svc_Get = GetCluster c config,
      svc_List = ListClusters c config,
      svc_Delete = DeleteCluster c config\<rparr>"

subsection \<open>Dispatch\<close>

lemma platforms_differ [simp]: "Kubevirt \<noteq> Baremetal" "Baremetal \<noteq> Kubevirt"
  by (simp_all add: Kubevirt_def Baremetal_def)

text \<open>
  A request runs on the platform it names, on KubeVirt when it names none, and only when that
  platform is enabled; every other platform string is refused as unprocessable and leaves the hub
  as it was.
\<close>

theorem dispatch_by_platform:
  assumes "p = (case acm_hint ah_Platform req of Some p \<Rightarrow> p | None \<Rightarrow> Kubevirt)"
    and "create = dispatcher_Create c config qa (dispatcher_New enabled) now iid req s"
  shows "(p = ''kubevirt'' \<and> ''kubevirt'' \<in> set enabled \<longrightarrow> create = kubevirt_Create c config qa now iid req s)
    \<and> (p = ''baremetal'' \<and> ''baremetal'' \<in> set enabled \<longrightarrow> create = baremetal_Create c config now iid req s)
    \<and> (p \<notin> set enabled \<or> p \<notin> {''kubevirt'', ''baremetal''} \<longrightarrow>
        (\<exists>e. create = (Inl e, s) \<and> domain_type e = Some ErrorTypeUNPROCESSABLEENTITY))"
  using assms
  by (auto simp: dispatcher_Create_def serviceForPlatform_def dispatcher_New_def Let_def
      Kubevirt_def Baremetal_def)

theorem dispatch_by_platform_witness:
  "dispatcher_Create mem_client sample_cfg nat_quantities (dispatcher_New [''kubevirt'']) 1 ''id-9'' sized_req two_hub
     = kubevirt_Create mem_client sample_cfg nat_quantities 1 ''id-9'' sized_req two_hub
   \<and> (\<exists>e. dispatcher_Create mem_client sample_cfg nat_quantities (dispatcher_New [''kubevirt'']) 1 ''id-9'' agent_req two_hub
       = (Inl e, two_hub))"
proof -
  have "acm_hint ah_Platform sized_req = None" "acm_hint ah_Platform agent_req = Some ''baremetal''"
    by (simp_all add: acm_hint_def acm_hints_def sized_req_def agent_req_def Baremetal_def)
  then show ?thesis
    using dispatch_by_platform[OF refl refl, where req = sized_req and enabled = "[''kubevirt'']"
        and c = mem_client and config = sample_cfg and qa = nat_quantities and now = 1 and iid = "''id-9''"
        and s = two_hub]
      dispatch_by_platform[OF refl refl, where req = agent_req and enabled = "[''kubevirt'']"
        and c = mem_client and config = sample_cfg and qa = nat_quantities and now = 1 and iid = "''id-9''"
        and s = two_hub]
    by (auto simp: Kubevirt_def)
qed

subsection \<open>Creation\<close>

lemma create_on_hub:
  assumes "hub_api c view" "dispatcher_Create c config qa services now iid req s = (r, s')"
  shows "case r of Inr cl \<Rightarrow> create_ok config now iid req (view s) cl (view s')
    | Inl e \<Rightarrow> create_failed config iid req (view s) e (view s')"
proof -
  obtain p sv where sv: "serviceForPlatform services req = (p, sv)" by fastforce
  show ?thesis
  proof (cases sv)
    case None
    then show ?thesis using assms(2) sv by (auto simp: dispatcher_Create_def create_failed_def)
  next
    case (Some k)
    then show ?thesis
    proof (cases k)
      case KubevirtService
      then show ?thesis
        using assms(2) sv Some kubevirt.create_cluster_effect[OF assms(1) refl]
        by (simp add: dispatcher_Create_def kubevirt_Create_def)
    next
      case BaremetalService
      then show ?thesis
        using assms(2) sv Some baremetal.create_cluster_effect[OF assms(1) refl]
        by (auto simp: dispatcher_Create_def baremetal_Create_def resolveInfraEnv_def create_failed_def
            split: option.splits if_splits)
    qed
  qed
qed

text \<open>
  C1: the effect of a creation on the hub, on every path.  Success adds one HostedCluster and one
  NodePool with the DCM labels, the chosen image and the configured settings, to a hub that had
  neither the instance id nor the name, changes nothing else, and answers with the request's spec
  in status PENDING.  A failure leaves the hub as it was, except that the new HostedCluster may be
  left being deleted, or left in place with an error that says so; already-exists is only reported
  when the id or the name is taken.
\<close>

theorem create_effect:
  assumes "hub_api c view" "dispatcher_Create c config qa services now iid req s = (r, s')"
  shows "(\<forall>cl. r = Inr cl \<longrightarrow> create_ok config now iid req (view s) cl (view s'))
    \<and> (\<forall>e. r = Inl e \<longrightarrow> create_failed config iid req (view s) e (view s'))"
  using create_on_hub[OF assms] by auto

text \<open>A creation that runs through, for the witnesses.\<close>

lemma sample_find: "findByInstanceID mem_client ''clusters'' ''id-9'' sample_hub =
    (Inl (NewNotFoundError ''cluster id-9 not found''), sample_hub)"
  by (simp add: findByInstanceID_def mem_client_def sample_hub_def)

lemma sample_hints: "acm_hint f sized_req = None"
  by (simp add: acm_hint_def acm_hints_def sized_req_def)

lemma sample_settings: "cs_Version (cl_Spec sized_req) = ''1.30''"
  "cc_VersionMatrix sample_cfg = DefaultCompatibilityMatrix" "DefaultCompatibilityMatrix \<noteq> []"
  by (simp_all add: sized_req_def sample_cfg_def DefaultCompatibilityMatrix_def)

definition built_hc :: HostedCluster where
  "built_hc = (applyControlPlaneResourceOverrides
     (kubevirt_BuildHostedCluster sample_cfg sized_req ''example.com'' ''quay.io/ocp-release:4.17.3-multi'' (DCMLabels ''id-9''))
     sized_req)\<lparr>hc_PullSecretName := ''ps''\<rparr>"

definition built_np :: "nat NodePool" where
  "built_np = kubevirt_BuildNodePool sample_cfg nat_quantities sized_req ''quay.io/ocp-release:4.17.3-multi'' (DCMLabels ''id-9'')"

definition made_cluster :: Cluster where
  "made_cluster = sized_req\<lparr>cl_CreateTime := Some 1, cl_UpdateTime := Some 1, cl_Id := Some ''id-9'',
     cl_Path := Some ''clusters/id-9'', cl_Status := Some ''PENDING''\<rparr>"

definition hub_created :: "nat hub" where
  "hub_created = sample_hub\<lparr>hub_hcs := [mem_hc built_hc], hub_nps := [mem_np built_np]\<rparr>"

lemma built_run: "dispatcher_Create mem_client sample_cfg nat_quantities (dispatcher_New [''kubevirt'']) 1 ''id-9'' sized_req sample_hub
   = (Inr made_cluster, hub_created)"
proof -
  have "ResolveReleaseImage mem_client sample_cfg sized_req sample_hub =
      (Inr ''quay.io/ocp-release:4.17.3-multi'', sample_hub)"
    using sample_resolve by (simp add: ResolveReleaseImage_def sample_hints sample_settings Let_def)
  moreover have "ResolveBaseDomain sized_req (cc_BaseDomain sample_cfg) = ''example.com''"
    by (simp add: ResolveBaseDomain_def sample_hints sample_cfg_def)
  moreover have "cc_PullSecretName sample_cfg = ''ps''" by (simp add: sample_cfg_def)
  moreover have "create_resources mem_client 1 ''id-9'' sized_req built_hc built_np sample_hub = (Inr made_cluster, hub_created)"
    by (simp add: create_resources_def mem_creates sample_hub_def made_cluster_def sized_req_def hub_created_def)
  ultimately show ?thesis
    using sample_find
    by (simp add: dispatcher_Create_def serviceForPlatform_def sample_hints dispatcher_New_def
        kubevirt_Create_def CreateCluster_def Let_def kubevirt_builder_def built_hc_def built_np_def)
qed

lemma sample_create:
  "\<exists>cl s'. dispatcher_Create mem_client sample_cfg nat_quantities (dispatcher_New [''kubevirt'']) 1
     ''id-9'' sized_req sample_hub = (Inr cl, s')"
  using built_run by blast

theorem create_effect_witness:
  "\<exists>cl s'. dispatcher_Create mem_client sample_cfg nat_quantities (dispatcher_New [''kubevirt'']) 1
     ''id-9'' sized_req sample_hub = (Inr cl, s') \<and> create_ok sample_cfg 1 ''id-9'' sized_req sample_hub cl s'"
proof -
  from sample_create obtain cl s' where run: "dispatcher_Create mem_client sample_cfg nat_quantities
      (dispatcher_New [''kubevirt'']) 1 ''id-9'' sized_req sample_hub = (Inr cl, s')" by blast
  with create_effect[OF mem_hub_api run] show ?thesis by auto
qed

text \<open>
  What an instance keeps while only other instances are worked on: its HostedClusters have the name,
  release image and deletion mark they had, none appears, and only one that is being deleted may go.
\<close>

definition hc_kept :: "HostedCluster \<Rightarrow> HostedCluster \<Rightarrow> bool" where
  "hc_kept x y \<longleftrightarrow> hc_key y = hc_key x \<and> hc_ReleaseImage y = hc_ReleaseImage x
     \<and> (hc_DeletionTimestamp y = None \<longleftrightarrow> hc_DeletionTimestamp x = None)"

definition instance_kept :: "ClusterConfig \<Rightarrow> string \<Rightarrow> 'q hub \<Rightarrow> 'q hub \<Rightarrow> bool" where
  "instance_kept cfg iid h h' \<longleftrightarrow>
     (let mine = (\<lambda>h. {x \<in> set (hub_hcs h). has_instance (cc_ClusterNamespace cfg) iid x})
      in (\<forall>y \<in> mine h'. \<exists>x \<in> mine h. hc_kept x y)
         \<and> (\<forall>x \<in> mine h. hc_DeletionTimestamp x = None \<longrightarrow> (\<exists>y \<in> mine h'. hc_kept x y)))"

lemma instance_kept_same:
  assumes "filter (has_instance (cc_ClusterNamespace cfg) iid) (hub_hcs h') = filter (has_instance (cc_ClusterNamespace cfg) iid) (hub_hcs h)"
  shows "instance_kept cfg iid h h'"
proof -
  have "{x \<in> set (hub_hcs h'). has_instance (cc_ClusterNamespace cfg) iid x} =
      {x \<in> set (hub_hcs h). has_instance (cc_ClusterNamespace cfg) iid x}"
    using arg_cong[OF assms, of set] by simp
  then show ?thesis unfolding instance_kept_def Let_def hc_kept_def by blast
qed

lemma instance_kept_refl [simp]: "instance_kept cfg iid h h"
  by (rule instance_kept_same) simp

lemma instance_kept_trans:
  assumes "instance_kept cfg iid a b" "instance_kept cfg iid b d"
  shows "instance_kept cfg iid a d"
proof -
  have kept: "hc_kept x y \<Longrightarrow> hc_kept y z \<Longrightarrow> hc_kept x z" for x y z by (simp add: hc_kept_def)
  have mark: "hc_kept x y \<Longrightarrow> hc_DeletionTimestamp x = None \<Longrightarrow> hc_DeletionTimestamp y = None" for x y
    by (simp add: hc_kept_def)
  show ?thesis
    using assms unfolding instance_kept_def Let_def by (meson kept mark)
qed

text \<open>
  The versions that can be read back: no release image is asked for, and the configured matrix gives no
  two Kubernetes versions the same OCP version and has no empty key.
\<close>

definition version_readable :: "ClusterConfig \<Rightarrow> Cluster \<Rightarrow> bool" where
  "version_readable cfg req \<longleftrightarrow>
     (let m = cc_VersionMatrix cfg
      in m \<noteq> [] \<and> proper_matrix m \<and> [] \<notin> fst ` set m \<and> acm_hint ah_ReleaseImage req = None)"

lemma created_is_read:
  assumes "hub_api c view" "create_ok config now iid req h cl h1" "instance_kept config iid h1 (view s)"
    and "GetCluster c config iid s = (r, s')"
    and "\<And>e. r = Inl e \<Longrightarrow> domain_type e \<noteq> Some ErrorTypeINTERNAL"
  shows "\<exists>got. r = Inr got \<and> cl_Id got = Some iid
    \<and> cm_Name (cs_Metadata (cl_Spec got)) = cm_Name (cs_Metadata (cl_Spec req))
    \<and> (version_readable config req \<longrightarrow> cs_Version (cl_Spec got) = cs_Version (cl_Spec req))"
proof -
  let ?mine = "has_instance (cc_ClusterNamespace config) iid"
  obtain i hc np where fresh: "no_instance config iid h" and img: "chosen_image config req h i"
    and hc: "created_hc config iid req i hc" "hc_DeletionTimestamp hc = None"
    and h1: "hub_hcs h1 = hc # hub_hcs h"
    using assms(2) by (auto simp: create_ok_def)
  have inst: "?mine hc" using hc(1) by (simp add: created_hc_def has_instance_def hc_key_def)
  then have only: "{x \<in> set (hub_hcs h1). ?mine x} = {hc}" using fresh by (auto simp: h1 no_instance_def)
  obtain rf sf where find: "findByInstanceID c (cc_ClusterNamespace config) iid s = (rf, sf)" by fastforce
  show ?thesis
  proof (cases rf)
    case (Inl e)
    then have "r = Inl e" using assms(4) find by (simp add: GetCluster_def)
    moreover have "\<exists>y \<in> set (hub_hcs (view s)). ?mine y"
      using assms(3) hc(2) unfolding instance_kept_def Let_def only by blast
    ultimately show ?thesis
      using find_error[OF assms(1) find[unfolded Inl]] assms(5)[of e] by auto
  next
    case (Inr x)
    note found = find_ok[OF assms(1) find[unfolded Inr]]
    have kept: "hc_kept hc x" using assms(3) found unfolding instance_kept_def Let_def only by blast
    have got: "r = Inr (fst (HostedClusterToCluster c config x sf))"
      using assms(4) find Inr by (simp add: GetCluster_def case_prod_beta' Let_def)
    have "ReleaseImageToK8sVersion i (cc_VersionMatrix config) = cs_Version (cl_Spec req)"
      if "version_readable config req"
    proof -
      note readable = that[unfolded version_readable_def Let_def]
      have "map_of (cc_VersionMatrix config) (ExtractOCPVersion i) = Some (cs_Version (cl_Spec req))"
        using img readable by (simp add: chosen_image_def effective_matrix_def proper_matrix_def)
      moreover from this have "ExtractOCPVersion i \<noteq> []"
        using readable by (force dest: map_of_SomeD)
      ultimately show ?thesis by (simp add: ReleaseImageToK8sVersion_def)
    qed
    then show ?thesis
      unfolding got using hc(1) kept found
      by (simp add: convert_fields created_hc_def hc_kept_def hc_key_def has_instance_def map_get_SomeI)
  qed
qed

text \<open>
  C12: what was created can be read.  After a successful creation a Get of the same id, if it does not
  fail with an internal error, finds that cluster with its id and its name; and with the Kubernetes
  version that was ordered, when the request has no release image hint and the configured matrix is
  not empty, injective and without an empty key.
\<close>

theorem create_then_get:
  assumes "hub_api c view"
    and "dispatcher_Create c config qa services now iid req s = (Inr cl, s1)"
    and "GetCluster c config iid s1 = (r, s2)"
    and "\<And>e. r = Inl e \<Longrightarrow> domain_type e \<noteq> Some ErrorTypeINTERNAL"
  shows "\<exists>got. r = Inr got \<and> cl_Id got = Some iid
    \<and> cm_Name (cs_Metadata (cl_Spec got)) = cm_Name (cs_Metadata (cl_Spec req))
    \<and> (version_readable config req \<longrightarrow> cs_Version (cl_Spec got) = cs_Version (cl_Spec req))"
proof -
  have "create_ok config now iid req (view s) cl (view s1)" using create_on_hub[OF assms(1,2)] by simp
  from created_is_read[OF assms(1) this instance_kept_refl assms(3,4)] show ?thesis .
qed

lemma sample_readable: "version_readable sample_cfg sized_req"
  using default_proper sample_hints
  by (simp add: version_readable_def sample_cfg_def DefaultCompatibilityMatrix_def)

theorem create_then_get_witness:
  "\<exists>cl s1 got s2. dispatcher_Create mem_client sample_cfg nat_quantities (dispatcher_New [''kubevirt'']) 1
     ''id-9'' sized_req sample_hub = (Inr cl, s1)
   \<and> GetCluster mem_client sample_cfg ''id-9'' s1 = (Inr got, s2) \<and> cs_Version (cl_Spec got) = ''1.30''"
proof -
  from sample_create obtain cl s1 where run: "dispatcher_Create mem_client sample_cfg nat_quantities
      (dispatcher_New [''kubevirt'']) 1 ''id-9'' sized_req sample_hub = (Inr cl, s1)" by blast
  obtain r s2 where got: "GetCluster mem_client sample_cfg ''id-9'' s1 = (r, s2)" by fastforce
  have no_internal: "domain_type e \<noteq> Some ErrorTypeINTERNAL" if "r = Inl e" for e
    using got that
    by (auto simp: GetCluster_def findByInstanceID_def mem_client_def Let_def
        split: list.splits prod.splits sum.splits)
  show ?thesis
    using create_then_get[OF mem_hub_api run got no_internal] sample_readable run got
    by (auto simp: sized_req_def)
qed

subsection \<open>The invariant of the hub\<close>

text \<open>
  Resource names are unique, as the API server guarantees, and no two HostedClusters of the
  provider's namespace carry the same instance id, which only the provider's own check guarantees.
\<close>

definition consistent :: "ClusterConfig \<Rightarrow> 'q hub \<Rightarrow> bool" where
  "consistent cfg h \<longleftrightarrow>
     distinct (map hc_key (hub_hcs h)) \<and> distinct (map np_key (hub_nps h))
     \<and> (\<forall>x \<in> set (hub_hcs h). \<forall>y \<in> set (hub_hcs h). \<forall>i.
          has_instance (cc_ClusterNamespace cfg) i x \<and> has_instance (cc_ClusterNamespace cfg) i y \<longrightarrow> x = y)"

text \<open>What the controllers do meanwhile: rewrite specs and status, and remove finished objects.\<close>

definition hub_evolves :: "'q hub \<Rightarrow> 'q hub \<Rightarrow> bool" where
  "hub_evolves h h' \<longleftrightarrow>
     (\<exists>P f. hub_hcs h' = map f (filter P (hub_hcs h))
        \<and> (\<forall>x. hc_key (f x) = hc_key x \<and> hc_Labels (f x) = hc_Labels x))
     \<and> (\<exists>P f. hub_nps h' = map f (filter P (hub_nps h)) \<and> (\<forall>x. np_key (f x) = np_key x))"

lemma hub_evolves_refl [simp]: "hub_evolves h h"
  unfolding hub_evolves_def
  by (intro conjI exI[of _ "\<lambda>_. True"] exI[of _ id]) simp_all

lemma has_instance_key: "hc_key x = hc_key y \<Longrightarrow> hc_Labels x = hc_Labels y \<Longrightarrow> has_instance ns i x = has_instance ns i y"
  by (simp add: has_instance_def hc_key_def)

lemma distinct_keys_map:
  assumes "\<And>x. key (f x) = key x" "distinct (map key xs)"
  shows "distinct (map key (map f (filter P xs)))"
proof -
  have "key \<circ> f = key" using assms(1) by (simp add: fun_eq_iff)
  then show ?thesis using distinct_map_filter[OF assms(2), of P] by simp
qed

lemma consistent_evolves:
  assumes "consistent cfg h" "hub_evolves h h'"
  shows "consistent cfg h'"
proof -
  obtain P f where hcs: "hub_hcs h' = map f (filter P (hub_hcs h))"
    and f: "\<And>x. hc_key (f x) = hc_key x" "\<And>x. hc_Labels (f x) = hc_Labels x"
    using assms(2) unfolding hub_evolves_def by metis
  obtain Q g where nps: "hub_nps h' = map g (filter Q (hub_nps h))" and g: "\<And>x. np_key (g x) = np_key x"
    using assms(2) unfolding hub_evolves_def by metis
  have "has_instance ns i (f x) = has_instance ns i x" for ns i x
    using has_instance_key[OF f] .
  then show ?thesis
    using assms(1) distinct_keys_map[of hc_key f "hub_hcs h" P, OF f(1)]
      distinct_keys_map[of np_key g "hub_nps h" Q, OF g]
    unfolding consistent_def hcs nps by (auto simp del: map_map) metis
qed

lemma obj_gone_evolves:
  assumes "obj_gone key mark k before after"
  shows "\<exists>P f. after = map f (filter P before) \<and> (\<forall>x. f x = x \<or> (\<exists>t. f x = mark t x))"
  using assms unfolding obj_gone_def
proof (elim disjE exE)
  assume "after = filter (\<lambda>h. key h \<noteq> k) before"
  then show ?thesis by (intro exI[of _ "\<lambda>h. key h \<noteq> k"] exI[of _ id]) simp
next
  fix t assume "after = map (\<lambda>h. if key h = k then mark t h else h) before"
  then show ?thesis
    by (intro exI[of _ "\<lambda>_. True"] exI[of _ "\<lambda>h. if key h = k then mark t h else h"]) auto
qed

lemma hc_gone_evolves:
  assumes "hc_gone k (hub_hcs h) hcs"
  shows "hub_evolves h (h\<lparr>hub_hcs := hcs\<rparr>)"
proof -
  obtain P f where "hcs = map f (filter P (hub_hcs h))" and f: "\<forall>x. f x = x \<or> (\<exists>t. f x = hc_mark t x)"
    using obj_gone_evolves[OF assms[unfolded hc_gone_def]] by blast
  moreover have "hc_key (f x) = hc_key x \<and> hc_Labels (f x) = hc_Labels x" for x
    using f hc_mark_fields(1,3) by metis
  moreover have "\<exists>P f. hub_nps h = map f (filter P (hub_nps h)) \<and> (\<forall>x. np_key (f x) = np_key x)"
    by (intro exI[of _ "\<lambda>_. True"] exI[of _ "\<lambda>x. x"]) simp
  ultimately show ?thesis unfolding hub_evolves_def by auto
qed

lemma np_gone_evolves:
  assumes "np_gone k (hub_nps h) nps"
  shows "hub_evolves h (h\<lparr>hub_nps := nps\<rparr>)"
proof -
  obtain P f where "nps = map f (filter P (hub_nps h))" and f: "\<forall>x. f x = x \<or> (\<exists>t. f x = np_mark t x)"
    using obj_gone_evolves[OF assms[unfolded np_gone_def]] by blast
  moreover have "np_key (f x) = np_key x" for x using f np_mark_fields(1) by metis
  moreover have "\<exists>P f. hub_hcs h = map f (filter P (hub_hcs h))
      \<and> (\<forall>x. hc_key (f x) = hc_key x \<and> hc_Labels (f x) = hc_Labels x)"
    by (intro exI[of _ "\<lambda>_. True"] exI[of _ "\<lambda>x. x"]) simp
  ultimately show ?thesis unfolding hub_evolves_def by auto
qed

lemma delete_each_consistent:
  assumes "hub_api c view" "consistent cfg (view s)" "delete_each c nps s = (r, s')"
  shows "consistent cfg (view s')"
  using assms(2,3)
proof (induction nps arbitrary: s)
  case (Cons np nps)
  obtain e s1 where del: "DeleteNodePool c np s = (e, s1)" by fastforce
  have "consistent cfg (view s1)"
  proof (cases e)
    case None
    obtain mid where "np_gone (np_key np) (hub_nps (view s)) mid" "view s1 = (view s)\<lparr>hub_nps := mid\<rparr>"
      using delete_np_ok[OF assms(1) del[unfolded None]] .
    then show ?thesis using consistent_evolves[OF Cons.prems(1) np_gone_evolves] by metis
  qed (use delete_np_error[OF assms(1)] del Cons.prems in metis)
  then show ?case
    using Cons.IH[of s1] Cons.prems(2) del by (auto split: option.splits if_splits)
qed simp

lemma delete_consistent:
  assumes "hub_api c view" "consistent cfg (view s)" "DeleteCluster c cfg iid s = (r, s')"
  shows "consistent cfg (view s')"
proof -
  obtain f s1 where find: "findByInstanceID c (cc_ClusterNamespace cfg) iid s = (f, s1)" by fastforce
  note v1 = find_view[OF assms(1) find]
  show ?thesis
  proof (cases f)
    case (Inr hc)
    obtain r2 s2 where nps: "deleteNodePools c (hc_Namespace hc) iid s1 = (r2, s2)" by fastforce
    have c2: "consistent cfg (view s2)"
      using nps assms(2) v1 delete_each_consistent[OF assms(1)]
      by (auto simp: deleteNodePools_def read_view(2)[OF assms(1)] split: prod.splits sum.splits)
        (metis assms(1) read_view(2))+
    show ?thesis
    proof (cases r2)
      case None
      obtain d where del: "DeleteHostedCluster c hc s2 = (d, s')"
        using assms(3) find Inr nps None by (auto simp: DeleteCluster_def split: prod.splits option.splits)
      show ?thesis
      proof (cases d)
        case None
        obtain hcs where "hc_gone (hc_key hc) (hub_hcs (view s2)) hcs" "view s' = (view s2)\<lparr>hub_hcs := hcs\<rparr>"
          using delete_hc_ok[OF assms(1) del[unfolded None]] .
        then show ?thesis using consistent_evolves[OF c2 hc_gone_evolves] by metis
      qed (use delete_hc_error[OF assms(1)] del c2 in metis)
    qed (use assms(3) find Inr nps c2 in \<open>auto simp: DeleteCluster_def\<close>)
  qed (use assms find v1 in \<open>auto simp: DeleteCluster_def\<close>)
qed

lemma add_consistent:
  assumes "consistent cfg h" "no_instance cfg iid h" "created_hc cfg iid req i hc"
    "hc_key hc \<notin> hc_key ` set (hub_hcs h)"
  shows "consistent cfg (h\<lparr>hub_hcs := hc # hub_hcs h\<rparr>)"
    "np_key np \<notin> np_key ` set (hub_nps h) \<Longrightarrow> consistent cfg (h\<lparr>hub_hcs := hc # hub_hcs h, hub_nps := np # hub_nps h\<rparr>)"
proof -
  have "i' = iid" if "has_instance (cc_ClusterNamespace cfg) i' hc" for i'
    using that assms(3) by (simp add: has_instance_def created_hc_def)
  then show "consistent cfg (h\<lparr>hub_hcs := hc # hub_hcs h\<rparr>)"
    "np_key np \<notin> np_key ` set (hub_nps h) \<Longrightarrow> consistent cfg (h\<lparr>hub_hcs := hc # hub_hcs h, hub_nps := np # hub_nps h\<rparr>)"
    using assms(1,2,4) unfolding consistent_def no_instance_def by auto
qed

lemma create_consistent:
  assumes "hub_api c view" "consistent cfg (view s)"
    and "dispatcher_Create c cfg qa services now iid req s = (r, s')"
  shows "consistent cfg (view s')"
proof (cases r)
  case (Inr cl)
  then show ?thesis
    using create_on_hub[OF assms(1,3)] add_consistent(2)[OF assms(2)] by (auto simp: create_ok_def)
next
  case (Inl e)
  then have "create_failed cfg iid req (view s) e (view s')" using create_on_hub[OF assms(1,3)] by simp
  then show ?thesis
    using assms(2) add_consistent(1)[OF assms(2)] unfolding create_failed_def by auto
qed

text \<open>
  One step of the system: an operation of the service, whatever it answers, or the controllers of
  the hub between two operations.
\<close>

inductive service_step ::
  "('s, 'q) k8s_client \<Rightarrow> ('s \<Rightarrow> 'q hub) \<Rightarrow> ClusterConfig \<Rightarrow> 'q quantity_api \<Rightarrow> string list \<Rightarrow> 's \<Rightarrow> 's \<Rightarrow> bool"
  for c view cfg qa enabled where
  step_create: "svc_Create (dispatcher_service c cfg qa enabled now) iid req s = (r, s') \<Longrightarrow>
    service_step c view cfg qa enabled s s'"
| step_get: "svc_Get (dispatcher_service c cfg qa enabled now) iid s = (r, s') \<Longrightarrow>
    service_step c view cfg qa enabled s s'"
| step_list: "svc_List (dispatcher_service c cfg qa enabled now) n tok s = (l, s') \<Longrightarrow>
    service_step c view cfg qa enabled s s'"
| step_delete: "svc_Delete (dispatcher_service c cfg qa enabled now) iid s = (d, s') \<Longrightarrow>
    service_step c view cfg qa enabled s s'"
| step_controllers: "hub_evolves (view s) (view s') \<Longrightarrow> service_step c view cfg qa enabled s s'"

lemmas dispatcher_methods = dispatcher_service_def cluster_service.select_convs

lemma get_view: "hub_api c view \<Longrightarrow> GetCluster c cfg iid s = (r, s') \<Longrightarrow> view s' = view s"
  by (auto simp: GetCluster_def Let_def split: prod.splits sum.splits dest: find_view)
    (metis convert_view find_view snd_conv)

lemma list_view:
  assumes "hub_api c view" "ListClusters c cfg n tok s = (r, s')"
  shows "view s' = view s"
proof -
  have each: "view s2 = view s1" if "convert_each c cfg hcs s1 = (cls, s2)" for hcs s1 cls s2
    using convert_each_view[OF assms(1), of cfg hcs s1] that by simp
  show ?thesis
    using assms(2)
    by (auto simp: ListClusters_def Let_def read_view(1)[OF assms(1)] dest!: each
        split: prod.splits sum.splits if_splits)
qed

lemma service_step_consistent:
  assumes "hub_api c view" "service_step c view cfg qa enabled s s'" "consistent cfg (view s)"
  shows "consistent cfg (view s')"
  using assms(2)
proof cases
  case step_create
  then show ?thesis using create_consistent[OF assms(1,3)] by (simp add: dispatcher_methods)
next
  case step_get
  then show ?thesis using get_view[OF assms(1)] assms(3) by (simp add: dispatcher_methods)
next
  case step_list
  then show ?thesis using list_view[OF assms(1)] assms(3) by (simp add: dispatcher_methods)
next
  case step_delete
  then show ?thesis using delete_consistent[OF assms(1,3)] by (simp add: dispatcher_methods)
next
  case step_controllers
  then show ?thesis by (rule consistent_evolves[OF assms(3)])
qed

text \<open>
  C3: the service keeps the hub consistent.  From a consistent hub every sequence of its
  operations, whatever their results, interleaved with what the controllers do, leads to a hub
  in which no two HostedClusters carry the same instance id.
\<close>

theorem instance_ids_stay_unique:
  assumes "hub_api c view" "consistent cfg (view s)"
    and "rtranclp (service_step c view cfg qa enabled) s s'"
  shows "consistent cfg (view s')"
  using assms(3,2) by (induction rule: rtranclp_induct) (auto intro: service_step_consistent[OF assms(1)])

theorem instance_ids_stay_unique_witness:
  "\<exists>s'. consistent sample_cfg s'
    \<and> rtranclp (service_step mem_client id sample_cfg nat_quantities [''kubevirt'']) sample_hub s'"
proof -
  obtain r s' where "svc_Create (dispatcher_service mem_client sample_cfg nat_quantities [''kubevirt''] 1)
      ''id-9'' sized_req sample_hub = (r, s')" by fastforce
  then have "rtranclp (service_step mem_client id sample_cfg nat_quantities [''kubevirt'']) sample_hub s'"
    by (blast intro: r_into_rtranclp step_create)
  moreover have "consistent sample_cfg (id sample_hub)" by (simp add: consistent_def sample_hub_def)
  ultimately show ?thesis using instance_ids_stay_unique[OF mem_hub_api] by fastforce
qed

subsection \<open>The dispatcher provides the service contract\<close>

lemma resolve_errors:
  "ResolveReleaseImage c cfg req s = (Inl e, s') \<Longrightarrow>
   domain_type e = Some ErrorTypeUNPROCESSABLEENTITY \<or> domain_type e = Some ErrorTypeINTERNAL"
  by (auto simp: ResolveReleaseImage_def Resolve_def k8sToOCP_def Let_def
      split: option.splits sum.splits prod.splits)

lemma find_errors:
  "findByInstanceID c ns iid s = (Inl e, s') \<Longrightarrow>
   domain_type e = Some ErrorTypeNOTFOUND \<or> domain_type e = Some ErrorTypeINTERNAL"
  by (auto simp: findByInstanceID_def split: prod.splits sum.splits list.splits)

lemma create_resources_result:
  "create_resources c now iid req hc np s = (r, s') \<Longrightarrow>
   (\<forall>e. r = Inl e \<longrightarrow> domain_type e = Some ErrorTypeALREADYEXISTS \<or> domain_type e = Some ErrorTypeINTERNAL)
   \<and> (\<forall>cl. r = Inr cl \<longrightarrow> cl_Id cl = Some iid)"
  by (auto simp: create_resources_def split: prod.splits option.splits if_splits)

lemma create_cluster_result:
  assumes "CreateCluster c cfg now iid req pb s = (r, s')"
  shows "(\<forall>e. r = Inl e \<longrightarrow> domain_type e \<in> Some ` create_kinds) \<and> (\<forall>cl. r = Inr cl \<longrightarrow> cl_Id cl = Some iid)"
  using assms unfolding CreateCluster_def Let_def
  by (auto simp: create_kinds_def split: if_splits prod.splits sum.splits
      dest!: resolve_errors find_errors create_resources_result)

lemma dispatcher_create_result:
  assumes "dispatcher_Create c cfg qa services now iid req s = (r, s')"
  shows "(\<forall>e. r = Inl e \<longrightarrow> domain_type e \<in> Some ` create_kinds) \<and> (\<forall>cl. r = Inr cl \<longrightarrow> cl_Id cl = Some iid)"
proof (cases "snd (serviceForPlatform services req)")
  case None
  then show ?thesis using assms by (auto simp: dispatcher_Create_def create_kinds_def split: prod.splits)
next
  case (Some k)
  then show ?thesis
    using assms
    by (cases k) (auto simp: dispatcher_Create_def kubevirt_Create_def baremetal_Create_def
        resolveInfraEnv_def create_kinds_def split: prod.splits sum.splits option.splits if_splits
        dest!: create_cluster_result)
qed

interpretation disp: cluster_service_contract "dispatcher_service c cfg qa enabled now"
  for c :: "('s, 'q) k8s_client" and cfg qa enabled now
proof
  fix i :: string and req :: Cluster and s s' :: 's and e :: go_error and cl :: Cluster and n :: int
    and tok :: string
  show "\<exists>t \<in> create_kinds. domain_type e = Some t"
    if "svc_Create (dispatcher_service c cfg qa enabled now) i req s = (Inl e, s')"
    using that by (auto simp: dispatcher_methods dest!: dispatcher_create_result)
  show "cl_Id cl = Some i"
    if "svc_Create (dispatcher_service c cfg qa enabled now) i req s = (Inr cl, s')"
    using that by (auto simp: dispatcher_methods dest!: dispatcher_create_result)
  show "\<exists>t \<in> lookup_kinds. domain_type e = Some t"
    if "svc_Get (dispatcher_service c cfg qa enabled now) i s = (Inl e, s')"
    using that by (auto simp: dispatcher_methods GetCluster_def lookup_kinds_def Let_def
        split: prod.splits sum.splits dest!: find_errors)
  show "\<exists>j. cl_Id cl = Some j"
    if "svc_Get (dispatcher_service c cfg qa enabled now) i s = (Inr cl, s')"
    using that by (auto simp: dispatcher_methods GetCluster_def Let_def split: prod.splits sum.splits)
      (metis convert_fields(1) fst_conv)
  show "\<exists>t \<in> list_kinds. domain_type e = Some t"
    if "svc_List (dispatcher_service c cfg qa enabled now) n tok s = (Returns (Inl e), s')"
    using that by (auto simp: dispatcher_methods ListClusters_def list_kinds_def Let_def
        split: prod.splits sum.splits if_splits dest!: page_offset_Inl)
  show "\<exists>t \<in> lookup_kinds. domain_type e = Some t"
    if "svc_Delete (dispatcher_service c cfg qa enabled now) i s = (Some e, s')"
    using that by (auto simp: dispatcher_methods DeleteCluster_def lookup_kinds_def
        split: prod.splits sum.splits option.splits dest!: find_errors deleteNodePools_error)
qed

end
