(* ===== verification/Handler.thy ===== *)
theory Handler
  imports Dispatcher
begin

text \<open>
  \<open>internal/handler\<close>: validation, the mapping of domain errors to problem details, and the handler
  methods with the responses of the generated server as datatypes.  The UUID of a create request is
  an argument.  The lemmas about the responses are proved against the service contract and hold
  for the program by its interpretation in the dispatcher.
\<close>

subsection \<open>Problem details\<close>

definition DetailInternalError :: string where
  "DetailInternalError = ''an internal error occurred''"

record ProblemFields =
  pf_Type :: ErrorType
  pf_Status :: int
  pf_Title :: string
  pf_Detail :: string

fun mapErrorType :: "ErrorType \<Rightarrow> int \<times> string" where
  "mapErrorType ErrorTypeINVALIDARGUMENT = (400, ''Invalid argument'')"
| "mapErrorType ErrorTypeNOTFOUND = (404, ''Not found'')"
| "mapErrorType ErrorTypeALREADYEXISTS = (409, ''Already exists'')"
| "mapErrorType ErrorTypeUNPROCESSABLEENTITY = (422, ''Unprocessable entity'')"
| "mapErrorType ErrorTypeINTERNAL = (500, ''Internal Server Error'')"
| "mapErrorType ErrorTypeUNAVAILABLE = (503, ''Service unavailable'')"
| "mapErrorType ErrorTypePERMISSIONDENIED = (403, ''Permission denied'')"
| "mapErrorType ErrorTypeUNAUTHENTICATED = (401, ''Unauthenticated'')"
| "mapErrorType (ErrorTypeOther s) = (500, ''Internal Server Error'')"

definition MapDomainError :: "go_error \<Rightarrow> ProblemFields" where
  "MapDomainError err =
     (case AsDomainError err of
        Some (DomainError t msg det cause) \<Rightarrow>
          let (status, title) = mapErrorType t;
              detail = (if det \<noteq> [] then det else msg);
              detail = (if t = ErrorTypeINTERNAL then DetailInternalError else detail)
          in \<lparr>pf_Type = t, pf_Status = status, pf_Title = title, pf_Detail = detail\<rparr>
      | _ \<Rightarrow>
          let (status, title) = mapErrorType ErrorTypeINTERNAL
          in \<lparr>pf_Type = ErrorTypeINTERNAL, pf_Status = status, pf_Title = title,
              pf_Detail = DetailInternalError\<rparr>)"

definition buildErrorResponse :: "ErrorType \<Rightarrow> int \<Rightarrow> string \<Rightarrow> string \<Rightarrow> Error" where
  "buildErrorResponse errType status title detail =
     \<lparr>er_Type = errType, er_Title = title, er_Status = Some status, er_Detail = Some detail,
      er_Instance = None\<rparr>"

definition domainErrorObject :: "go_error \<Rightarrow> Error \<times> int" where
  "domainErrorObject err =
     (let p = MapDomainError err in
      (buildErrorResponse (pf_Type p) (to_int32 (pf_Status p)) (pf_Title p) (pf_Detail p), pf_Status p))"

text \<open>The bodies of the fixed 400 and 500 responses of every operation.\<close>

definition error400 :: "string \<Rightarrow> Error" where
  "error400 detail =
     (let (status, title) = mapErrorType ErrorTypeINVALIDARGUMENT
      in buildErrorResponse ErrorTypeINVALIDARGUMENT (to_int32 status) title detail)"

definition error500 :: Error where
  "error500 =
     (let (status, title) = mapErrorType ErrorTypeINTERNAL
      in buildErrorResponse ErrorTypeINTERNAL (to_int32 status) title DetailInternalError)"

subsection \<open>Responses\<close>

datatype create_response =
    CreateCluster201 Cluster | CreateCluster400 Error | CreateCluster401 Error | CreateCluster403 Error
  | CreateCluster409 Error | CreateCluster422 Error | CreateCluster500 Error

datatype get_response =
    GetCluster200 Cluster | GetCluster401 Error | GetCluster403 Error | GetCluster404 Error
  | GetCluster500 Error

datatype list_response =
    ListClusters200 ClusterList | ListClusters400 Error | ListClusters401 Error | ListClusters403 Error
  | ListClusters500 Error

datatype delete_response =
    DeleteCluster204 | DeleteCluster401 Error | DeleteCluster403 Error | DeleteCluster404 Error
  | DeleteCluster500 Error

text \<open>
  The status line and the problem body that the generated \<open>Visit\<close> methods write, and the content
  type that goes with them.
\<close>

fun create_status :: "create_response \<Rightarrow> int \<times> Error option" where
  "create_status (CreateCluster201 c) = (201, None)"
| "create_status (CreateCluster400 e) = (400, Some e)"
| "create_status (CreateCluster401 e) = (401, Some e)"
| "create_status (CreateCluster403 e) = (403, Some e)"
| "create_status (CreateCluster409 e) = (409, Some e)"
| "create_status (CreateCluster422 e) = (422, Some e)"
| "create_status (CreateCluster500 e) = (500, Some e)"

fun get_status :: "get_response \<Rightarrow> int \<times> Error option" where
  "get_status (GetCluster200 c) = (200, None)"
| "get_status (GetCluster401 e) = (401, Some e)"
| "get_status (GetCluster403 e) = (403, Some e)"
| "get_status (GetCluster404 e) = (404, Some e)"
| "get_status (GetCluster500 e) = (500, Some e)"

fun list_status :: "list_response \<Rightarrow> int \<times> Error option" where
  "list_status (ListClusters200 l) = (200, None)"
| "list_status (ListClusters400 e) = (400, Some e)"
| "list_status (ListClusters401 e) = (401, Some e)"
| "list_status (ListClusters403 e) = (403, Some e)"
| "list_status (ListClusters500 e) = (500, Some e)"

fun delete_status :: "delete_response \<Rightarrow> int \<times> Error option" where
  "delete_status DeleteCluster204 = (204, None)"
| "delete_status (DeleteCluster401 e) = (401, Some e)"
| "delete_status (DeleteCluster403 e) = (403, Some e)"
| "delete_status (DeleteCluster404 e) = (404, Some e)"
| "delete_status (DeleteCluster500 e) = (500, Some e)"

definition content_type :: "int \<times> Error option \<Rightarrow> string option" where
  "content_type r =
     (case snd r of
        Some e \<Rightarrow> Some ''application/problem+json''
      | None \<Rightarrow> if fst r = 204 then None else Some ''application/json'')"

text \<open>The fixed responses of the operations, with the type of each.\<close>

definition createError400 :: "string \<Rightarrow> create_response" where
  [simp]: "createError400 detail = CreateCluster400 (error400 detail)"

definition createError500 :: create_response where
  [simp]: "createError500 = CreateCluster500 error500"

definition getError500 :: get_response where
  [simp]: "getError500 = GetCluster500 error500"

definition listError400 :: "string \<Rightarrow> list_response" where
  [simp]: "listError400 detail = ListClusters400 (error400 detail)"

definition listError500 :: list_response where
  [simp]: "listError500 = ListClusters500 error500"

definition mapCreateError :: "go_error \<Rightarrow> create_response" where
  "mapCreateError err =
     (let (errObj, status) = domainErrorObject err in
      if status = 400 then CreateCluster400 errObj
      else if status = 409 then CreateCluster409 errObj
      else if status = 422 then CreateCluster422 errObj
      else CreateCluster500 errObj)"

definition mapGetError :: "go_error \<Rightarrow> get_response" where
  "mapGetError err =
     (let (errObj, status) = domainErrorObject err in
      if status = 404 then GetCluster404 errObj else GetCluster500 errObj)"

definition mapListError :: "go_error \<Rightarrow> list_response" where
  "mapListError err =
     (let (errObj, status) = domainErrorObject err in
      if status = 400 then ListClusters400 errObj else ListClusters500 errObj)"

definition mapDeleteError :: "go_error \<Rightarrow> delete_response" where
  "mapDeleteError err =
     (let (errObj, status) = domainErrorObject err in
      if status = 404 then DeleteCluster404 errObj else DeleteCluster500 errObj)"

subsection \<open>Validation\<close>

definition is_digit :: "char \<Rightarrow> bool" where
  "is_digit ch \<longleftrightarrow> digit_val ch \<noteq> None"

definition is_lower :: "char \<Rightarrow> bool" where
  "is_lower ch \<longleftrightarrow> (let n = of_char ch :: nat in 97 \<le> n \<and> n \<le> 122)"

text \<open>The regular expression \<open>^[1-9][0-9]*(MB|GB|TB)$\<close>.\<close>

definition memoryFormatRe :: "string \<Rightarrow> bool" where
  "memoryFormatRe s \<longleftrightarrow>
     (let n = length s - 2; v = take n s; u = drop n s in
      u \<in> {''MB'', ''GB'', ''TB''} \<and> v \<noteq> [] \<and> list_all is_digit v \<and> hd v \<noteq> CHR ''0'')"

text \<open>The regular expression \<open>^[a-z0-9]([a-z0-9-]{0,61}[a-z0-9])?$\<close>.\<close>

definition clientIDRe :: "string \<Rightarrow> bool" where
  "clientIDRe s \<longleftrightarrow>
     (let alnum = (\<lambda>ch. is_lower ch \<or> is_digit ch) in
      1 \<le> length s \<and> length s \<le> 63 \<and> alnum (hd s) \<and> alnum (last s)
      \<and> list_all (\<lambda>ch. alnum ch \<or> ch = CHR ''-'') s)"

text \<open>A size field of the request, with the error of a malformed one.\<close>

definition bad_size :: "string option \<Rightarrow> bool" where
  "bad_size v \<longleftrightarrow> (case v of None \<Rightarrow> False | Some m \<Rightarrow> \<not> memoryFormatRe m)"

definition validate_workers :: "WorkerSpec \<Rightarrow> string option" where
  "validate_workers w =
     (if (case wk_Count w of None \<Rightarrow> False | Some n \<Rightarrow> n < 1) then Some ''nodes.workers.count must be >= 1''
      else if bad_size (wk_Memory w)
      then Some ''nodes.workers.memory must match format: [1-9][0-9]*(MB|GB|TB)''
      else if bad_size (wk_Storage w)
      then Some ''nodes.workers.storage must match format: [1-9][0-9]*(MB|GB|TB)''
      else None)"

definition validate_control_plane :: "ControlPlaneSpec \<Rightarrow> string option" where
  "validate_control_plane cp =
     (if bad_size (cp_Memory cp)
      then Some ''nodes.control_plane.memory must match format: [1-9][0-9]*(MB|GB|TB)''
      else if bad_size (cp_Storage cp)
      then Some ''nodes.control_plane.storage must match format: [1-9][0-9]*(MB|GB|TB)''
      else None)"

text \<open>\<open>None\<close> is a valid request, otherwise the text of the error.\<close>

definition validateCreateRequest :: "Cluster \<Rightarrow> string option" where
  "validateCreateRequest body =
     (if cs_ServiceType (cl_Spec body) \<noteq> ClusterSpecServiceTypeCluster
      then Some (''service_type must be '' @ Quote ClusterSpecServiceTypeCluster)
      else if cs_Version (cl_Spec body) = [] then Some ''version is required''
      else case cs_Nodes (cl_Spec body) of
        None \<Rightarrow> None
      | Some nodes \<Rightarrow>
          (case Option.bind (cn_Workers nodes) validate_workers of
             Some err \<Rightarrow> Some err
           | None \<Rightarrow> Option.bind (cn_ControlPlane nodes) validate_control_plane))"

definition validateClientID :: "string \<Rightarrow> string option" where
  "validateClientID iid =
     (if \<not> clientIDRe iid then Some ''id must match pattern: ^[a-z0-9]([a-z0-9-]{0,61}[a-z0-9])?$''
      else None)"

definition validateMaxPageSize :: "int \<Rightarrow> string option" where
  "validateMaxPageSize n =
     (if n < 1 \<or> n > 100 then Some ''max_page_size must be between 1 and 100'' else None)"

subsection \<open>Conversions\<close>

text \<open>
  A round trip through JSON between two structs with the same fields.  Encoding fails when a time
  is outside the years 0 to 9999; every other value comes back as it was, its text being valid
  UTF-8 since it came from JSON.  The lemma \<open>handler_conversions_are_json\<close> shows this of the JSON texts.
\<close>

definition json_time :: "time option \<Rightarrow> bool" where
  "json_time t \<longleftrightarrow>
     (case t of None \<Rightarrow> True
      | Some ns \<Rightarrow> - (366 * 86400 * 1000000000) \<le> ns \<and> ns < 3652059 * 86400 * 1000000000)"

definition marshalable :: "Cluster \<Rightarrow> bool" where
  "marshalable cl \<longleftrightarrow> json_time (cl_CreateTime cl) \<and> json_time (cl_UpdateTime cl)"

text \<open>The error of \<open>json.Marshal\<close> for such a time, and what the conversions wrap it in.\<close>

definition time_range_error :: go_error where
  "time_range_error = PlainError
     ''json: error calling MarshalJSON for type *time.Time: Time.MarshalJSON: year outside of range [0,9999]''"

abbreviation marshal_error :: "string \<Rightarrow> go_error" where
  "marshal_error what \<equiv> Wrapped (''marshal '' @ what @ '': '' @ error_text time_range_error) time_range_error"

definition toServiceCluster :: "Cluster \<Rightarrow> go_error + Cluster" where
  "toServiceCluster cl = (if marshalable cl then Inr cl else Inl (marshal_error ''oapigen cluster''))"

definition toAPICluster :: "Cluster \<Rightarrow> go_error + Cluster" where
  "toAPICluster cl = (if marshalable cl then Inr cl else Inl (marshal_error ''v1alpha1 cluster''))"

definition toAPIClusterList :: "ClusterList \<Rightarrow> go_error + ClusterList" where
  "toAPIClusterList l =
     (if (case li_Clusters l of None \<Rightarrow> True | Some cls \<Rightarrow> list_all marshalable cls) then Inr l
      else Inl (marshal_error ''v1alpha1 cluster list''))"

subsection \<open>The handler methods\<close>

definition handler_CreateCluster ::
  "'s cluster_service \<Rightarrow> string \<Rightarrow> string option \<Rightarrow> Cluster \<Rightarrow> 's \<Rightarrow> create_response \<times> 's" where
  "handler_CreateCluster svc uuid params_id body s =
     (let given = (case params_id of Some i \<Rightarrow> i \<noteq> [] | None \<Rightarrow> False);
          iid = (if given then the params_id else uuid)
      in case (if given then validateClientID iid else None) of
        Some err \<Rightarrow> (createError400 err, s)
      | None \<Rightarrow>
      (case validateCreateRequest body of
        Some err \<Rightarrow> (createError400 err, s)
      | None \<Rightarrow>
      (case toServiceCluster body of
        Inl err \<Rightarrow> (createError500, s)
      | Inr svcCluster \<Rightarrow>
      (case svc_Create svc iid svcCluster s of
        (Inl err, s') \<Rightarrow> (mapCreateError err, s')
      | (Inr result, s') \<Rightarrow>
          (case toAPICluster result of
             Inl err \<Rightarrow> (createError500, s')
           | Inr apiCluster \<Rightarrow> (CreateCluster201 apiCluster, s'))))))"

definition handler_GetCluster :: "'s cluster_service \<Rightarrow> string \<Rightarrow> 's \<Rightarrow> get_response \<times> 's" where
  "handler_GetCluster svc iid s =
     (case svc_Get svc iid s of
        (Inl err, s') \<Rightarrow> (mapGetError err, s')
      | (Inr result, s') \<Rightarrow>
          (case toAPICluster result of
             Inl err \<Rightarrow> (getError500, s')
           | Inr apiCluster \<Rightarrow> (GetCluster200 apiCluster, s')))"

definition handler_ListClusters ::
  "'s cluster_service \<Rightarrow> int option \<Rightarrow> string option \<Rightarrow> 's \<Rightarrow> list_response outcome \<times> 's" where
  "handler_ListClusters svc maxPageSize params_token s =
     (let pageSize = (case maxPageSize of None \<Rightarrow> 50 | Some n \<Rightarrow> n);
          pageToken = (case params_token of None \<Rightarrow> [] | Some t \<Rightarrow> t)
      in case (case maxPageSize of None \<Rightarrow> None | Some n \<Rightarrow> validateMaxPageSize n) of
        Some err \<Rightarrow> (Returns (listError400 err), s)
      | None \<Rightarrow>
          (case svc_List svc pageSize pageToken s of
             (Panics m, s') \<Rightarrow> (Panics m, s')
           | (Returns (Inl err), s') \<Rightarrow> (Returns (mapListError err), s')
           | (Returns (Inr result), s') \<Rightarrow>
               (case toAPIClusterList result of
                  Inl err \<Rightarrow> (Returns listError500, s')
                | Inr apiList \<Rightarrow> (Returns (ListClusters200 apiList), s'))))"

definition handler_DeleteCluster :: "'s cluster_service \<Rightarrow> string \<Rightarrow> 's \<Rightarrow> delete_response \<times> 's" where
  "handler_DeleteCluster svc iid s =
     (case svc_Delete svc iid s of
        (Some err, s') \<Rightarrow> (mapDeleteError err, s')
      | (None, s') \<Rightarrow> (DeleteCluster204, s'))"

subsection \<open>Honest responses\<close>

text \<open>
  A response is honest when a problem body states the status code it is sent with and carries the
  title that belongs to its type.
\<close>

definition honest :: "int \<times> Error option \<Rightarrow> bool" where
  "honest r \<longleftrightarrow>
     (case snd r of None \<Rightarrow> 200 \<le> fst r \<and> fst r < 300
      | Some e \<Rightarrow> content_type r = Some ''application/problem+json'' \<and> er_Status e = Some (fst r)
          \<and> mapErrorType (er_Type e) = (fst r, er_Title e))"

lemma mapErrorType_code: "to_int32 (fst (mapErrorType t)) = fst (mapErrorType t)"
  by (cases t) (simp_all add: to_int32_def)

lemma MapDomainError_known:
  assumes "domain_type err = Some t"
  shows "pf_Type (MapDomainError err) = t" "(pf_Status (MapDomainError err), pf_Title (MapDomainError err)) = mapErrorType t"
  using assms by (auto simp: MapDomainError_def domain_type_def Let_def split: option.splits go_error.splits prod.splits)

lemma domainErrorObject_known:
  assumes "domain_type err = Some t"
  shows "\<exists>e. domainErrorObject err = (e, fst (mapErrorType t)) \<and> er_Type e = t
    \<and> er_Status e = Some (fst (mapErrorType t)) \<and> er_Title e = snd (mapErrorType t)"
  using MapDomainError_known[OF assms] mapErrorType_code[of t]
  by (cases "mapErrorType t") (simp add: domainErrorObject_def buildErrorResponse_def Let_def)

lemma fixed_bodies_honest [simp]:
  "honest (400, Some (error400 d))" "honest (500, Some error500)"
  "honest (200, None)" "honest (201, None)" "honest (204, None)"
  by (simp_all add: honest_def content_type_def error400_def error500_def buildErrorResponse_def to_int32_def)

lemma mapped_errors_honest:
  "domain_type err = Some t \<Longrightarrow> t \<in> create_kinds \<Longrightarrow> honest (create_status (mapCreateError err))"
  "domain_type err = Some t \<Longrightarrow> t \<in> lookup_kinds \<Longrightarrow> honest (get_status (mapGetError err))"
  "domain_type err = Some t \<Longrightarrow> t \<in> list_kinds \<Longrightarrow> honest (list_status (mapListError err))"
  "domain_type err = Some t \<Longrightarrow> t \<in> lookup_kinds \<Longrightarrow> honest (delete_status (mapDeleteError err))"
  using domainErrorObject_known[of err t]
  by (auto simp: error_kinds mapCreateError_def mapGetError_def mapListError_def mapDeleteError_def honest_def content_type_def)

context cluster_service_contract
begin

lemma mapped_honest:
  "svc_Create svc i req s = (Inl e, s') \<Longrightarrow> honest (create_status (mapCreateError e))"
  "svc_Get svc i s = (Inl e, s') \<Longrightarrow> honest (get_status (mapGetError e))"
  "svc_List svc n t s = (Returns (Inl e), s') \<Longrightarrow> honest (list_status (mapListError e))"
  "svc_Delete svc i s = (Some e, s') \<Longrightarrow> honest (delete_status (mapDeleteError e))"
  using create_errors[of i req s e s'] get_errors[of i s e s'] list_errors[of n t s e s']
    delete_errors[of i s e s'] mapped_errors_honest[of e] by blast+

lemma create_honest: "honest (create_status (fst (handler_CreateCluster svc uuid pid body s)))"
  by (auto simp: handler_CreateCluster_def Let_def mapped_honest split: option.splits sum.splits prod.splits)

lemma get_honest: "honest (get_status (fst (handler_GetCluster svc i s)))"
  by (auto simp: handler_GetCluster_def mapped_honest split: sum.splits prod.splits)

lemma list_honest:
  "fst (handler_ListClusters svc n tok s) = Returns resp \<Longrightarrow> honest (list_status resp)"
  by (auto simp: handler_ListClusters_def Let_def mapped_honest
      split: option.splits sum.splits prod.splits outcome.splits)

lemma delete_honest: "honest (delete_status (fst (handler_DeleteCluster svc i s)))"
  by (auto simp: handler_DeleteCluster_def mapped_honest split: option.splits prod.splits)

end

text \<open>
  C14: every problem the composed program answers with states the HTTP status it is sent with and
  the title of its type, for each of the four operations and every request and hub.  The generic
  mapping does not give this by itself, it rests on the kinds of error the dispatcher can return.
\<close>

theorem responses_honest:
  "honest (create_status (fst (handler_CreateCluster (dispatcher_service c cfg qa enabled now) uuid pid body s)))
   \<and> honest (get_status (fst (handler_GetCluster (dispatcher_service c cfg qa enabled now) iid s)))
   \<and> (case fst (handler_ListClusters (dispatcher_service c cfg qa enabled now) n tok s) of
        Returns resp \<Rightarrow> honest (list_status resp) | Panics m \<Rightarrow> True)
   \<and> honest (delete_status (fst (handler_DeleteCluster (dispatcher_service c cfg qa enabled now) iid s)))"
  by (simp add: disp.create_honest disp.get_honest disp.list_honest disp.delete_honest split: outcome.split)

text \<open>
  Internal errors are opaque.  Errors that are internal, or no domain errors at all, are mapped
  to one and the same response whatever they wrap, and the cause of a domain error of any type never
  shows in its response.
\<close>

theorem internal_errors_opaque:
  assumes "domain_type e1 \<in> {None, Some ErrorTypeINTERNAL}" "domain_type e2 \<in> {None, Some ErrorTypeINTERNAL}"
  shows "MapDomainError e1 = MapDomainError e2 \<and> pf_Detail (MapDomainError e1) = DetailInternalError
    \<and> mapCreateError e1 = mapCreateError e2 \<and> mapGetError e1 = mapGetError e2
    \<and> mapListError e1 = mapListError e2 \<and> mapDeleteError e1 = mapDeleteError e2
    \<and> MapDomainError (DomainError t msg det cause) = MapDomainError (DomainError t msg det cause')"
proof -
  have "MapDomainError e = \<lparr>pf_Type = ErrorTypeINTERNAL, pf_Status = 500,
      pf_Title = ''Internal Server Error'', pf_Detail = DetailInternalError\<rparr>"
    if "domain_type e \<in> {None, Some ErrorTypeINTERNAL}" for e
    using that AsDomainError_shape[of e]
    by (auto simp: MapDomainError_def domain_type_def split: option.splits go_error.splits)
  from this[OF assms(1)] this[OF assms(2)] show ?thesis
    by (simp add: mapCreateError_def mapGetError_def mapListError_def mapDeleteError_def
        domainErrorObject_def MapDomainError_def)
qed

lemma domain_type_plain: "domain_type (PlainError m) = None"
  by (simp add: domain_type_def)

theorem internal_errors_opaque_witness:
  "mapGetError (NewInternalError ''failed to list clusters'' (PlainError ''dial tcp 10.0.0.1: refused''))
   = mapGetError (PlainError ''secret detail'')"
  using internal_errors_opaque[of "NewInternalError ''failed to list clusters'' (PlainError ''dial tcp 10.0.0.1: refused'')"
      "PlainError ''secret detail''"]
  by (simp add: domain_type_plain)

subsection \<open>Validated requests\<close>

lemma digits_val_digits: "list_all is_digit v \<Longrightarrow> \<exists>n. digits_val acc v = Some n"
  by (induction v arbitrary: acc) (auto simp: is_digit_def split: option.splits)

lemma memoryFormat_shape:
  assumes "memoryFormatRe m"
  shows "\<exists>ds u. m = ds @ [u] @ ''B'' \<and> u \<in> {CHR ''M'', CHR ''G'', CHR ''T''} \<and> ds \<noteq> []
    \<and> list_all is_digit ds \<and> hd ds \<noteq> CHR ''0''"
proof -
  define v u where "v = take (length m - 2) m" and "u = drop (length m - 2) m"
  have m: "m = v @ u" by (simp add: v_def u_def)
  have "u \<in> {''MB'', ''GB'', ''TB''}" "v \<noteq> []" "list_all is_digit v" "hd v \<noteq> CHR ''0''"
    using assms unfolding memoryFormatRe_def Let_def v_def[symmetric] u_def[symmetric] by simp_all
  then show ?thesis unfolding m by (intro exI[of _ v] exI[of _ "hd u"]) auto
qed

definition request_sizes :: "Cluster \<Rightarrow> string set" where
  "request_sizes body =
     {m. \<exists>nodes. cs_Nodes (cl_Spec body) = Some nodes \<and>
        ((\<exists>w. cn_Workers nodes = Some w \<and> (wk_Memory w = Some m \<or> wk_Storage w = Some m))
         \<or> (\<exists>cp. cn_ControlPlane nodes = Some cp \<and> (cp_Memory cp = Some m \<or> cp_Storage cp = Some m)))}"

lemma valid_sizes:
  "validateCreateRequest body = None \<Longrightarrow> m \<in> request_sizes body \<Longrightarrow> memoryFormatRe m"
  by (auto simp: validateCreateRequest_def request_sizes_def validate_workers_def
      validate_control_plane_def bad_size_def split: if_splits option.splits)

text \<open>
  C38: a validated size is one the provider understands.  It is a positive decimal number with the
  unit MB, GB or TB; the parser strips its last letter and asks for the Kubernetes quantity of the
  rest, so that it can only fail if the quantity library refuses a number with a decimal suffix.
\<close>

theorem validated_sizes_parse:
  assumes "validateCreateRequest body = None" "m \<in> request_sizes body"
  shows "\<exists>ds u n. m = ds @ [u] @ ''B'' \<and> u \<in> {CHR ''M'', CHR ''G'', CHR ''T''}
    \<and> ds \<noteq> [] \<and> hd ds \<noteq> CHR ''0'' \<and> digits_val 0 ds = Some n
    \<and> (\<forall>q. ParseQuantity qa (ds @ [u]) = Inr q \<longrightarrow> ParseDCMMemory qa m = Inr q)
    \<and> (\<forall>e. ParseDCMMemory qa m = Inl e \<longrightarrow> (\<exists>e'. ParseQuantity qa (ds @ [u]) = Inl e'))"
proof -
  obtain ds u where m: "m = ds @ [u] @ ''B''" and u: "u \<in> {CHR ''M'', CHR ''G'', CHR ''T''}"
    and ds: "ds \<noteq> []" "list_all is_digit ds" "hd ds \<noteq> CHR ''0''"
    using memoryFormat_shape[OF valid_sizes[OF assms]] by blast
  obtain n where "digits_val 0 ds = Some n" using digits_val_digits[OF ds(2)] by blast
  moreover have "ParseDCMMemory qa m = (case ParseQuantity qa (ds @ [u]) of
      Inl err \<Rightarrow> Inl (Wrapped (''invalid memory/storage value '' @ Quote m @ '': '' @ error_text err) err)
    | Inr q \<Rightarrow> Inr q)"
    using ParseDCMMemory_suffix[of qa "ds @ [u]"] unfolding m append_assoc .
  ultimately show ?thesis
    using m u ds by (intro exI[of _ ds] exI[of _ u] exI[of _ n]) (auto split: sum.splits)
qed

lemma sized_valid: "validateCreateRequest sized_req = None"
  by (simp add: validateCreateRequest_def sized_req_def ClusterSpecServiceTypeCluster_def validate_workers_def
      validate_control_plane_def bad_size_def memoryFormatRe_def is_digit_def digit_val_def Let_def)

theorem validated_sizes_parse_witness:
  "\<exists>q. ParseDCMMemory nat_quantities ''32GB'' = Inr q"
proof -
  have "''32GB'' \<in> request_sizes sized_req" by (simp add: request_sizes_def sized_req_def)
  from validated_sizes_parse[OF sized_valid this, of nat_quantities] show ?thesis
    by (auto simp: nat_quantities_def)
qed

text \<open>
  C27: the gate of a creation.  A request that fails validation is answered with 400 and never
  reaches the service; one that passes reaches it once, unchanged, under the client's id if one is
  given and the generated one otherwise, and what the service did to the hub is what remains.
  An accepted client id is a DNS label of at most 63 characters.
\<close>

theorem create_request_gate:
  assumes "handler_CreateCluster svc uuid pid body s = (resp, s')"
    and "iid = (case pid of Some i \<Rightarrow> if i = [] then uuid else i | None \<Rightarrow> uuid)"
    and "ok \<longleftrightarrow> (iid = uuid \<or> clientIDRe iid) \<and> validateCreateRequest body = None"
    and "clientIDRe uuid" "marshalable body"
  shows "(\<not> ok \<longrightarrow> s' = s \<and> fst (create_status resp) = 400)
    \<and> (ok \<longrightarrow> s' = snd (svc_Create svc iid body s)
         \<and> (\<forall>e. fst (svc_Create svc iid body s) = Inl e \<longrightarrow> resp = mapCreateError e)
         \<and> (\<forall>cl. fst (svc_Create svc iid body s) = Inr cl \<and> marshalable cl \<longrightarrow> resp = CreateCluster201 cl))
    \<and> (clientIDRe iid \<longrightarrow> 1 \<le> length iid \<and> length iid \<le> 63
         \<and> (\<forall>ch \<in> set iid. is_lower ch \<or> is_digit ch \<or> ch = CHR ''-'')
         \<and> hd iid \<noteq> CHR ''-'' \<and> last iid \<noteq> CHR ''-'')"
proof (intro conjI)
  show "clientIDRe iid \<longrightarrow> 1 \<le> length iid \<and> length iid \<le> 63
         \<and> (\<forall>ch \<in> set iid. is_lower ch \<or> is_digit ch \<or> ch = CHR ''-'')
         \<and> hd iid \<noteq> CHR ''-'' \<and> last iid \<noteq> CHR ''-''"
    by (auto simp: clientIDRe_def Let_def list_all_iff is_lower_def is_digit_def digit_val_def)
  show "\<not> ok \<longrightarrow> s' = s \<and> fst (create_status resp) = 400"
    using assms(1-4)
    by (auto simp: handler_CreateCluster_def Let_def validateClientID_def split: option.splits if_splits)
  show "ok \<longrightarrow> s' = snd (svc_Create svc iid body s)
         \<and> (\<forall>e. fst (svc_Create svc iid body s) = Inl e \<longrightarrow> resp = mapCreateError e)
         \<and> (\<forall>cl. fst (svc_Create svc iid body s) = Inr cl \<and> marshalable cl \<longrightarrow> resp = CreateCluster201 cl)"
    using assms
    by (auto simp: handler_CreateCluster_def Let_def validateClientID_def toServiceCluster_def toAPICluster_def
        split: option.splits if_splits sum.splits prod.splits)
qed

theorem create_request_gate_witness:
  "snd (handler_CreateCluster (dispatcher_service mem_client sample_cfg nat_quantities [''kubevirt''] 1)
     ''u-1'' (Some ''-bad'') sized_req sample_hub) = sample_hub"
proof -
  have "clientIDRe ''u-1''" "\<not> clientIDRe ''-bad''" "marshalable sized_req"
    by (simp_all add: clientIDRe_def is_lower_def is_digit_def digit_val_def marshalable_def json_time_def
        sized_req_def)
  then show ?thesis
    using create_request_gate[OF surjective_pairing refl refl, where uuid = "''u-1''" and body = sized_req
        and svc = "dispatcher_service mem_client sample_cfg nat_quantities [''kubevirt''] 1"
        and pid = "Some ''-bad''" and s = sample_hub]
    by auto
qed

text \<open>
  C36: listing over HTTP.  Whatever page size and token a request carries, the program answers and
  does not panic; a page size outside 1 to 100 is refused without a call to the hub, and an answer
  holds at most as many clusters as were asked for, 50 when the request does not say.
\<close>

theorem list_request_bounds:
  assumes "hub_api c view" "distinct (map hc_key (hub_hcs (view s)))"
    and "int (length (managed cfg (view s))) + 100 < 2 ^ 63"
    and "handler_ListClusters (dispatcher_service c cfg qa enabled now) maxPageSize tok s = (r, s')"
  shows "\<exists>resp. r = Returns resp
    \<and> (\<forall>n. maxPageSize = Some n \<and> (n < 1 \<or> 100 < n) \<longrightarrow> fst (list_status resp) = 400 \<and> s' = s)
    \<and> (\<forall>l cls. resp = ListClusters200 l \<and> li_Clusters l = Some cls \<longrightarrow>
         int (length cls) \<le> (case maxPageSize of Some n \<Rightarrow> n | None \<Rightarrow> 50))"
proof (cases "case maxPageSize of None \<Rightarrow> None | Some n \<Rightarrow> validateMaxPageSize n")
  case (Some err)
  then show ?thesis using assms(4) by (auto simp: handler_ListClusters_def)
next
  case None
  define n where "n = (case maxPageSize of Some n \<Rightarrow> n | None \<Rightarrow> 50)"
  have n: "0 < n" "n \<le> 100"
    using None by (auto simp: n_def validateMaxPageSize_def split: option.splits if_splits)
  define t where "t = (case tok of None \<Rightarrow> [] | Some t \<Rightarrow> t)"
  obtain l s1 where run: "ListClusters c cfg n t s = (l, s1)" by fastforce
  have out: "\<exists>x. l = Returns x \<and> (\<forall>v cls. x = Inr v \<and> li_Clusters v = Some cls \<longrightarrow> int (length cls) \<le> n)"
    using list_clusters_length[OF assms(1,2) n(1) _ run] assms(3) n(2) by simp
  have "mapListError e \<noteq> ListClusters200 x" for e x
    by (simp add: mapListError_def case_prod_beta' Let_def)
  then show ?thesis
    using assms(4) None run out
    by (auto simp: handler_ListClusters_def dispatcher_methods Let_def n_def[symmetric] t_def[symmetric]
        toAPIClusterList_def validateMaxPageSize_def split: sum.splits prod.splits option.splits if_splits)
qed

theorem list_request_bounds_witness:
  "\<exists>resp s'. handler_ListClusters (dispatcher_service mem_client sample_cfg nat_quantities [''kubevirt''] 1)
     (Some 1) None two_hub = (Returns resp, s')"
proof -
  obtain r s' where run: "handler_ListClusters (dispatcher_service mem_client sample_cfg nat_quantities
      [''kubevirt''] 1) (Some 1) None two_hub = (r, s')" by fastforce
  have "int (length (managed sample_cfg (id two_hub))) + 100 < 2 ^ 63" unfolding two_facts(2) by simp
  from list_request_bounds[OF mem_hub_api two_facts(1) this run] run show ?thesis by auto
qed

end
