(* ===== verification/ApiServer.thy ===== *)
theory ApiServer
  imports Handler
begin

text \<open>
  \<open>internal/apiserver\<close>: problem responses, the scrubbing of validation errors, the response writer
  wrapper, the middleware chain and the life cycle of the server.  A handler is the sequence of calls
  it makes on its writer and the way it ends.  The connection follows \<open>net/http\<close>: the first final
  status sent counts, a later one is dropped and counted as superfluous, and a body sends 200 first.
  The JSON encoder, the OpenAPI router and the validator are parameters.
\<close>

subsection \<open>Writers\<close>

datatype writer_op = SetContentType string | WriteHeader int | Write string | Flush

record http_response =
  hr_Type :: "string option"
  hr_Sent :: "(int \<times> string option) option" \<comment> \<open>the final status on the wire and its content type\<close>
  hr_Body :: string
  hr_Superfluous :: nat

definition fresh_response :: http_response where
  "fresh_response = \<lparr>hr_Type = None, hr_Sent = None, hr_Body = [], hr_Superfluous = 0\<rparr>"

definition conn_WriteHeader :: "int \<Rightarrow> http_response \<Rightarrow> http_response" where
  "conn_WriteHeader code w =
     (if hr_Sent w \<noteq> None then w\<lparr>hr_Superfluous := hr_Superfluous w + 1\<rparr>
      else if 100 \<le> code \<and> code \<le> 199 \<and> code \<noteq> 101 then w
      else w\<lparr>hr_Sent := Some (code, hr_Type w)\<rparr>)"

fun conn_step :: "writer_op \<Rightarrow> http_response \<Rightarrow> http_response" where
  "conn_step (SetContentType t) w = w\<lparr>hr_Type := Some t\<rparr>"
| "conn_step (WriteHeader code) w = conn_WriteHeader code w"
| "conn_step (Write b) w =
     (let w = (if hr_Sent w = None then conn_WriteHeader 200 w else w) in w\<lparr>hr_Body := hr_Body w @ b\<rparr>)"
| "conn_step Flush w = (if hr_Sent w = None then conn_WriteHeader 200 w else w)"

text \<open>The wrapper passes every call on to the writer below, whose operations are \<open>step\<close>.\<close>

record 'w responseWriter =
  rw_ResponseWriter :: 'w
  rw_statusCode :: int
  rw_wroteHeader :: bool

fun rw_step :: "(writer_op \<Rightarrow> 'w \<Rightarrow> 'w) \<Rightarrow> writer_op \<Rightarrow> 'w responseWriter \<Rightarrow> 'w responseWriter" where
  "rw_step step (SetContentType t) rw =
     rw\<lparr>rw_ResponseWriter := step (SetContentType t) (rw_ResponseWriter rw)\<rparr>"
| "rw_step step (WriteHeader code) rw =
     rw\<lparr>rw_statusCode := code, rw_wroteHeader := True,
        rw_ResponseWriter := step (WriteHeader code) (rw_ResponseWriter rw)\<rparr>"
| "rw_step step (Write b) rw =
     rw\<lparr>rw_wroteHeader := True, rw_ResponseWriter := step (Write b) (rw_ResponseWriter rw)\<rparr>"
| "rw_step step Flush rw =
     rw\<lparr>rw_wroteHeader := True, rw_ResponseWriter := step Flush (rw_ResponseWriter rw)\<rparr>"

definition wrap :: "'w \<Rightarrow> 'w responseWriter" where
  "wrap w = \<lparr>rw_ResponseWriter = w, rw_statusCode = 200, rw_wroteHeader = False\<rparr>"

subsection \<open>Problem responses\<close>

definition contentTypeProblemJSON :: string where
  "contentTypeProblemJSON = ''application/problem+json''"

definition detailUnexpectedPanicError :: string where
  "detailUnexpectedPanicError = ''an unexpected error occurred''"

definition marshalFailBody :: string where
  "marshalFailBody = concat
     [''{'', Quote ''type'', '':'', Quote ''https://dcm-project.github.io/problems/internal'', '','',
      Quote ''title'', '':'', Quote ''Internal Server Error'', '','', Quote ''status'', '':500,'',
      Quote ''detail'', '':'', Quote ''an internal error occurred'', ''}'']"

definition writeRFC9457 ::
  "(writer_op \<Rightarrow> 'w \<Rightarrow> 'w) \<Rightarrow> (Error \<Rightarrow> go_error + string) \<Rightarrow> int \<Rightarrow> ErrorType \<Rightarrow> string \<Rightarrow> string \<Rightarrow> 'w \<Rightarrow> 'w" where
  "writeRFC9457 step marshal statusCode errType title detail w =
     (let resp = \<lparr>er_Type = errType, er_Title = title, er_Status = Some (to_int32 statusCode),
                  er_Detail = Some detail, er_Instance = None\<rparr>
      in fold step
        (case marshal resp of
           Inl err \<Rightarrow> [SetContentType contentTypeProblemJSON, WriteHeader 500, Write marshalFailBody]
         | Inr body \<Rightarrow>
             [SetContentType contentTypeProblemJSON, WriteHeader statusCode, Write body, Write [char_of (10 :: nat)]])
        w)"

text \<open>
  A validation error is the chain of errors \<open>errors.As\<close> walks, the outermost first.  The nodes are
  the types the code looks for; \<open>NRequest\<close> has its parameter (name and place), whether it is about
  the body, and its reason, \<open>NSchema\<close> its reason and the dump of schema and value.
\<close>

datatype err_node =
    NRequest "(string \<times> string) option" bool string
  | NSchema string string
  | NInvalidParamFormat string
  | NRequiredParam string
  | NRequiredHeader string
  | NUnescapedCookie string
  | NUnmarshalingParam string
  | NTooManyValues string
  | NOther string

fun as_node :: "(err_node \<Rightarrow> 'a option) \<Rightarrow> err_node list \<Rightarrow> ('a \<times> err_node list) option" where
  "as_node sel [] = None"
| "as_node sel (n # ns) = (case sel n of Some x \<Rightarrow> Some (x, ns) | None \<Rightarrow> as_node sel ns)"

fun as_request :: "err_node \<Rightarrow> ((string \<times> string) option \<times> bool \<times> string) option" where
  "as_request (NRequest p body reason) = Some (p, body, reason)"
| "as_request _ = None"

fun as_schema :: "err_node \<Rightarrow> string option" where
  "as_schema (NSchema reason dump) = Some reason"
| "as_schema _ = None"

text \<open>The parameter errors in the order the code tries them, each with the text around the name.\<close>

definition param_errors :: "((err_node \<Rightarrow> string option) \<times> string) list" where
  "param_errors =
     [(\<lambda>n. case n of NInvalidParamFormat p \<Rightarrow> Some p | _ \<Rightarrow> None, ''invalid format for parameter ''),
      (\<lambda>n. case n of NRequiredParam p \<Rightarrow> Some p | _ \<Rightarrow> None, ''missing required parameter ''),
      (\<lambda>n. case n of NRequiredHeader p \<Rightarrow> Some p | _ \<Rightarrow> None, ''missing required header ''),
      (\<lambda>n. case n of NUnescapedCookie p \<Rightarrow> Some p | _ \<Rightarrow> None, ''invalid cookie parameter ''),
      (\<lambda>n. case n of NUnmarshalingParam p \<Rightarrow> Some p | _ \<Rightarrow> None, ''invalid value for parameter ''),
      (\<lambda>n. case n of NTooManyValues p \<Rightarrow> Some p | _ \<Rightarrow> None, ''too many values for parameter '')]"

fun first_param_error :: "((err_node \<Rightarrow> string option) \<times> string) list \<Rightarrow> err_node list \<Rightarrow> string" where
  "first_param_error [] err = ''invalid request''"
| "first_param_error ((sel, intro) # rest) err =
     (case as_node sel err of
        Some (name, _) \<Rightarrow> intro @ Quote name
      | None \<Rightarrow> first_param_error rest err)"

definition scrubValidationError :: "err_node list \<Rightarrow> string" where
  "scrubValidationError err =
     (case as_node as_request err of
        Some ((param, body, reason), inner) \<Rightarrow>
          let pre = (case param of
                Some (name, place) \<Rightarrow> ''parameter '' @ Quote name @ '' in '' @ place
              | None \<Rightarrow> if body then ''request body'' else []);
              shown = (\<lambda>r. if pre \<noteq> [] then pre @ '': '' @ r else r)
          in (case as_node as_schema inner of
                Some (schemaReason, _) \<Rightarrow>
                  if schemaReason \<noteq> [] then shown schemaReason
                  else if reason \<noteq> [] then shown reason else ''invalid request''
              | None \<Rightarrow> if reason \<noteq> [] then shown reason else ''invalid request'')
      | None \<Rightarrow> first_param_error param_errors err)"

definition newBadRequestHandler ::
  "(writer_op \<Rightarrow> 'w \<Rightarrow> 'w) \<Rightarrow> (Error \<Rightarrow> go_error + string) \<Rightarrow> err_node list \<Rightarrow> 'w \<Rightarrow> 'w" where
  "newBadRequestHandler step marshal err w =
     writeRFC9457 step marshal 400 ErrorTypeINVALIDARGUMENT ''Invalid argument'' (scrubValidationError err) w"

subsection \<open>Middleware\<close>

datatype ending = Finished | Panicked string | Aborted \<comment> \<open>a panic with \<open>http.ErrAbortHandler\<close>\<close>

record http_request =
  hq_Method :: string
  hq_Path :: string
  hq_RawQuery :: string
  hq_Body :: "string option" \<comment> \<open>the bytes still to be read\<close>

record log_entry =
  lg_method :: string
  lg_path :: string
  lg_status :: int

type_synonym 'w http_handler = "http_request \<Rightarrow> 'w \<Rightarrow> ending \<times> 'w \<times> log_entry list"

definition rfc9457RecoveryMiddleware ::
  "(writer_op \<Rightarrow> 'w \<Rightarrow> 'w) \<Rightarrow> (Error \<Rightarrow> go_error + string) \<Rightarrow> 'w responseWriter http_handler \<Rightarrow> 'w http_handler" where
  "rfc9457RecoveryMiddleware step marshal next r w =
     (case next r (wrap w) of (how, rw, logged) \<Rightarrow>
        (case how of
           Finished \<Rightarrow> (Finished, rw_ResponseWriter rw, logged)
         | Aborted \<Rightarrow> (Aborted, rw_ResponseWriter rw, logged)
         | Panicked v \<Rightarrow>
             (Finished,
              if rw_wroteHeader rw then rw_ResponseWriter rw
              else writeRFC9457 step marshal 500 ErrorTypeINTERNAL ''Internal Server Error''
                     detailUnexpectedPanicError (rw_ResponseWriter rw),
              logged)))"

definition requestLoggingMiddleware :: "'w responseWriter http_handler \<Rightarrow> 'w http_handler" where
  "requestLoggingMiddleware next r w =
     (case next r (wrap w) of (how, rw, logged) \<Rightarrow>
        (how, rw_ResponseWriter rw,
         if how = Finished
         then logged @ [\<lparr>lg_method = hq_Method r, lg_path = hq_Path r, lg_status = rw_statusCode rw\<rparr>]
         else logged))"

text \<open>The validator may read from the request it is given; it returns what is left of it.\<close>

definition openAPIValidationMiddleware ::
  "(http_request \<Rightarrow> 'route option) \<Rightarrow> ('route \<Rightarrow> http_request \<Rightarrow> err_node list option \<times> http_request) \<Rightarrow>
   (err_node list \<Rightarrow> 'w \<Rightarrow> 'w) \<Rightarrow> 'w http_handler \<Rightarrow> 'w http_handler" where
  "openAPIValidationMiddleware FindRoute ValidateRequest badReq next r w =
     (case FindRoute r of
        None \<Rightarrow> next r w
      | Some route \<Rightarrow>
          let bodyBytes = hq_Body r in
          (case ValidateRequest route r of
             (Some err, r') \<Rightarrow> (Finished, badReq err w, [])
           | (None, r') \<Rightarrow> next (if bodyBytes \<noteq> None then r'\<lparr>hq_Body := bodyBytes\<rparr> else r') w))"

text \<open>The chain \<open>New\<close> installs, around the generated routes; without a router nothing is validated.\<close>

definition server_chain ::
  "(writer_op \<Rightarrow> 'w \<Rightarrow> 'w) \<Rightarrow> (Error \<Rightarrow> go_error + string) \<Rightarrow>
   ((http_request \<Rightarrow> 'route option) \<times> ('route \<Rightarrow> http_request \<Rightarrow> err_node list option \<times> http_request)) option \<Rightarrow>
   'w responseWriter responseWriter http_handler \<Rightarrow> 'w http_handler" where
  "server_chain conn marshal router routes =
     (let step = rw_step (rw_step conn);
          checked = (case router of
              None \<Rightarrow> routes
            | Some (FindRoute, ValidateRequest) \<Rightarrow>
                openAPIValidationMiddleware FindRoute ValidateRequest (newBadRequestHandler step marshal) routes)
      in rfc9457RecoveryMiddleware conn marshal (requestLoggingMiddleware checked))"

subsection \<open>Life cycle\<close>

text \<open>The answer to a readiness probe, and what wakes the loop up after it.\<close>

datatype probe = ProbeRequestError go_error | NoAnswer go_error | Answer int
datatype wakeup = CtxDone | DeadlinePassed | TickerFired

text \<open>Outer \<open>None\<close>: still polling when the listed events are over.\<close>

fun waitForReady :: "go_error \<Rightarrow> (probe \<times> wakeup) list \<Rightarrow> go_error option option" where
  "waitForReady ctxErr [] = None"
| "waitForReady ctxErr ((p, wake) # events) =
     (case p of
        ProbeRequestError err \<Rightarrow>
          Some (Some (Wrapped (''creating readiness probe request: '' @ error_text err) err))
      | _ \<Rightarrow>
          if p = Answer 200 then Some None
          else (case wake of
            CtxDone \<Rightarrow> Some (Some ctxErr)
          | DeadlinePassed \<Rightarrow> Some (Some (PlainError ''server readiness probe timed out after 5s''))
          | TickerFired \<Rightarrow> waitForReady ctxErr events))"

datatype server_wake = ContextDone | ServeEnded "go_error option"

text \<open>
  \<open>Run\<close> after the listener is served: \<open>ready\<close> is the result of the readiness probe, \<open>wake\<close> what ends
  the wait, \<open>shutdown\<close> the result of the graceful shutdown.  The callback may panic.
\<close>

definition Run ::
  "string \<Rightarrow> ('s \<Rightarrow> unit outcome \<times> 's) option \<Rightarrow> go_error option \<Rightarrow> server_wake \<Rightarrow> go_error option \<Rightarrow> 's \<Rightarrow>
   go_error option \<times> 's" where
  "Run addr onReady ready wake shutdown s =
     (let s1 = (case onReady of
            None \<Rightarrow> s
          | Some f \<Rightarrow> (case ready of Some err \<Rightarrow> s | None \<Rightarrow> snd (f s)))
      in case wake of
        ServeEnded (Some err) \<Rightarrow> (Some (Wrapped (''serving on '' @ addr @ '': '' @ error_text err) err), s1)
      | _ \<Rightarrow>
          (case shutdown of
             Some err \<Rightarrow> (Some (Wrapped (''shutting down server: '' @ error_text err) err), s1)
           | None \<Rightarrow> (None, s1)))"

subsection \<open>The wrapper is transparent\<close>

definition sends :: "writer_op list \<Rightarrow> bool" where
  "sends ops \<longleftrightarrow> list_ex (\<lambda>op. case op of SetContentType t \<Rightarrow> False | _ \<Rightarrow> True) ops"

fun logged_status :: "writer_op list \<Rightarrow> int \<Rightarrow> int" where
  "logged_status [] c = c"
| "logged_status (WriteHeader code # ops) c = logged_status ops code"
| "logged_status (op # ops) c = logged_status ops c"

lemma rw_under: "rw_ResponseWriter (fold (rw_step step) ops rw) = fold step ops (rw_ResponseWriter rw)"
proof (induction ops arbitrary: rw)
  case (Cons op ops)
  then show ?case by (cases op) simp_all
qed simp

lemma rw_wrote: "rw_wroteHeader (fold (rw_step step) ops rw) \<longleftrightarrow> rw_wroteHeader rw \<or> sends ops"
proof (induction ops arbitrary: rw)
  case (Cons op ops)
  then show ?case by (cases op) (simp_all add: sends_def)
qed (simp add: sends_def)

lemma rw_status: "rw_statusCode (fold (rw_step step) ops rw) = logged_status ops (rw_statusCode rw)"
proof (induction ops arbitrary: rw)
  case (Cons op ops)
  then show ?case by (cases op) simp_all
qed simp

lemma wrap_simps [simp]:
  "rw_ResponseWriter (wrap w) = w" "rw_statusCode (wrap w) = 200" "\<not> rw_wroteHeader (wrap w)"
  by (simp_all add: wrap_def)

lemma unsent_fresh:
  "\<not> sends ops \<Longrightarrow> hr_Sent w = None \<Longrightarrow>
   hr_Sent (fold conn_step ops w) = None \<and> hr_Body (fold conn_step ops w) = hr_Body w
   \<and> hr_Superfluous (fold conn_step ops w) = hr_Superfluous w"
proof (induction ops arbitrary: w)
  case (Cons op ops)
  then show ?case by (cases op) (auto simp: sends_def)
qed simp

text \<open>A handler given by its calls and its ending.\<close>

definition scripted_handler :: "(writer_op \<Rightarrow> 'w \<Rightarrow> 'w) \<Rightarrow> writer_op list \<Rightarrow> ending \<Rightarrow> 'w http_handler" where
  "scripted_handler step ops how r w = (how, fold step ops w, [])"

lemma written_problem:
  assumes "hr_Sent w = None" "199 < code"
  shows "writeRFC9457 conn_step marshal code t title det w =
    (case marshal \<lparr>er_Type = t, er_Title = title, er_Status = Some (to_int32 code), er_Detail = Some det,
        er_Instance = None\<rparr> of
       Inl err \<Rightarrow> w\<lparr>hr_Type := Some contentTypeProblemJSON, hr_Sent := Some (500, Some contentTypeProblemJSON),
                  hr_Body := hr_Body w @ marshalFailBody\<rparr>
     | Inr body \<Rightarrow> w\<lparr>hr_Type := Some contentTypeProblemJSON, hr_Sent := Some (code, Some contentTypeProblemJSON),
                  hr_Body := hr_Body w @ body @ [char_of (10 :: nat)]\<rparr>)"
  using assms by (auto simp: writeRFC9457_def conn_WriteHeader_def Let_def split: sum.split)

lemma writeRFC9457_under:
  "rw_ResponseWriter (writeRFC9457 (rw_step step) marshal code t title det rw) =
     writeRFC9457 step marshal code t title det (rw_ResponseWriter rw)"
  by (simp add: writeRFC9457_def Let_def rw_under)

text \<open>The request reaches the routes: validation is off, the path is not in the specification, or it is valid.\<close>

definition accepted ::
  "((http_request \<Rightarrow> 'route option) \<times> ('route \<Rightarrow> http_request \<Rightarrow> err_node list option \<times> http_request)) option \<Rightarrow>
   http_request \<Rightarrow> bool" where
  "accepted router r \<longleftrightarrow>
     (case router of None \<Rightarrow> True
      | Some (FindRoute, ValidateRequest) \<Rightarrow>
          (case FindRoute r of None \<Rightarrow> True | Some route \<Rightarrow> fst (ValidateRequest route r) = None))"

lemma chain_accepted:
  assumes "accepted router r"
  shows "server_chain conn_step marshal router (scripted_handler step ops how) r w =
    rfc9457RecoveryMiddleware conn_step marshal (requestLoggingMiddleware (scripted_handler step ops how)) r w"
  using assms
  by (auto simp: server_chain_def accepted_def rfc9457RecoveryMiddleware_def requestLoggingMiddleware_def Let_def
      openAPIValidationMiddleware_def scripted_handler_def split: option.splits prod.splits)

definition panic_problem :: Error where
  "panic_problem = \<lparr>er_Type = ErrorTypeINTERNAL, er_Title = ''Internal Server Error'', er_Status = Some 500,
     er_Detail = Some detailUnexpectedPanicError, er_Instance = None\<rparr>"

text \<open>
  C29: a panic in a handler ends in one response.  When nothing was sent yet it is a 500 problem that
  does not depend on the panic, otherwise what the handler sent stands and nothing is added; the
  abort panic is passed on.  Without a panic the chain changes nothing, and only then the request is
  logged, with the last status the handler set.
\<close>

theorem panic_recovery:
  assumes "accepted router r"
  shows "\<exists>w. server_chain conn_step marshal router (scripted_handler (rw_step (rw_step conn_step)) ops how) r fresh_response =
      (if how = Aborted then Aborted else Finished, w,
       if how = Finished
       then [\<lparr>lg_method = hq_Method r, lg_path = hq_Path r, lg_status = logged_status ops 200\<rparr>] else [])
    \<and> (if \<not> sends ops \<and> (\<exists>v. how = Panicked v)
       then hr_Sent w = Some (500, Some contentTypeProblemJSON) \<and> hr_Superfluous w = 0
            \<and> hr_Body w = (case marshal panic_problem of
                Inl err \<Rightarrow> marshalFailBody | Inr body \<Rightarrow> body @ [char_of (10 :: nat)])
       else w = fold conn_step ops fresh_response)"
proof -
  have sent: "hr_Sent fresh_response = None" "hr_Body fresh_response = []" "hr_Superfluous fresh_response = 0"
    by (simp_all add: fresh_response_def)
  have run: "server_chain conn_step marshal router (scripted_handler (rw_step (rw_step conn_step)) ops how) r fresh_response =
    rfc9457RecoveryMiddleware conn_step marshal
      (requestLoggingMiddleware (scripted_handler (rw_step (rw_step conn_step)) ops how)) r fresh_response"
    by (rule chain_accepted[OF assms])
  have code: "to_int32 500 = 500" by (simp add: to_int32_def)
  show ?thesis
  proof (cases "\<not> sends ops \<and> (\<exists>v. how = Panicked v)")
    case True
    then obtain v where v: "how = Panicked v" "\<not> sends ops" by blast
    show ?thesis
      unfolding run
      using True unsent_fresh[OF v(2) sent(1)] sent
      by (auto simp: rfc9457RecoveryMiddleware_def requestLoggingMiddleware_def scripted_handler_def v rw_under
          rw_wrote written_problem panic_problem_def code split: sum.splits)
  next
    case False
    then show ?thesis
      unfolding run
      by (cases how) (auto simp: rfc9457RecoveryMiddleware_def requestLoggingMiddleware_def scripted_handler_def
          rw_under rw_wrote rw_status)
  qed
qed

theorem panic_recovery_witness:
  "\<exists>w. server_chain conn_step (\<lambda>e. Inr ''body'') (None :: ((http_request \<Rightarrow> nat option) \<times> (nat \<Rightarrow> http_request \<Rightarrow> err_node list option \<times> http_request)) option)
       (scripted_handler (rw_step (rw_step conn_step)) [SetContentType ''application/json''] (Panicked ''nil map''))
       \<lparr>hq_Method = ''GET'', hq_Path = ''/'', hq_RawQuery = [], hq_Body = None\<rparr> fresh_response = (Finished, w, [])
     \<and> hr_Sent w = Some (500, Some ''application/problem+json'')"
  using panic_recovery[of None "\<lparr>hq_Method = ''GET'', hq_Path = ''/'', hq_RawQuery = [], hq_Body = None\<rparr>" "\<lambda>e. Inr ''body''"
      "[SetContentType ''application/json'']" "Panicked ''nil map''"]
  by (auto simp: accepted_def sends_def contentTypeProblemJSON_def)

subsection \<open>Validation\<close>

text \<open>An error without the text it must not show: values, schemas and errors of unknown types.\<close>

fun blank :: "err_node \<Rightarrow> err_node" where
  "blank (NSchema reason dump) = NSchema reason []"
| "blank (NOther s) = NOther []"
| "blank n = n"

lemma as_node_blank:
  assumes "\<And>n. sel (blank n) = sel n"
  shows "as_node sel (map blank ns) = map_option (\<lambda>(x, rest). (x, map blank rest)) (as_node sel ns)"
  using assms by (induction ns) (auto split: option.split)

lemma as_request_blank [simp]: "as_request (blank n) = as_request n"
  by (cases n) simp_all

lemma as_schema_blank [simp]: "as_schema (blank n) = as_schema n"
  by (cases n) simp_all

lemma first_param_blank:
  assumes "\<And>sel p n. (sel, p) \<in> set ps \<Longrightarrow> sel (blank n) = sel n"
  shows "first_param_error ps (map blank ns) = first_param_error ps ns"
  using assms
proof (induction ps)
  case (Cons e ps)
  obtain sel p where e: "e = (sel, p)" by (cases e)
  have "first_param_error ps (map blank ns) = first_param_error ps ns"
    by (rule Cons.IH) (meson Cons.prems list.set_intros(2))
  moreover have "sel (blank n) = sel n" for n by (rule Cons.prems[of sel p]) (simp add: e)
  ultimately show ?case by (auto simp: e as_node_blank split: option.split)
qed simp

lemma param_errors_blank: "(sel, p) \<in> set param_errors \<Longrightarrow> sel (blank n) = sel n"
  by (cases n) (auto simp: param_errors_def)

lemma scrub_blank: "scrubValidationError (map blank err) = scrubValidationError err"
  by (auto simp: scrubValidationError_def as_node_blank first_param_blank[OF param_errors_blank] Let_def
      split: option.splits prod.splits)


text \<open>
  C30: a request on a path of the specification goes through the validator.  When it is refused the
  routes are never reached, the client gets a 400 problem whose detail shows names and constraints
  but no value, schema or foreign error text, and a 400 is logged; when it is valid the routes get the
  whole body, whatever the validator has read of it.
\<close>

theorem validation_gate:
  assumes "FindRoute r = Some route" "ValidateRequest route r = (verdict, left)"
    and "marshal \<lparr>er_Type = ErrorTypeINVALIDARGUMENT, er_Title = ''Invalid argument'', er_Status = Some 400,
           er_Detail = Some (scrubValidationError (the verdict)), er_Instance = None\<rparr> = Inr body"
  shows "case verdict of
      Some err \<Rightarrow>
        server_chain conn_step marshal (Some (FindRoute, ValidateRequest)) routes r fresh_response =
          (Finished, \<lparr>hr_Type = Some contentTypeProblemJSON, hr_Sent = Some (400, Some contentTypeProblemJSON),
             hr_Body = body @ [char_of (10 :: nat)], hr_Superfluous = 0\<rparr>,
           [\<lparr>lg_method = hq_Method r, lg_path = hq_Path r, lg_status = 400\<rparr>])
        \<and> scrubValidationError err = scrubValidationError (map blank err)
    | None \<Rightarrow>
        server_chain conn_step marshal (Some (FindRoute, ValidateRequest)) routes r fresh_response =
          server_chain conn_step marshal (Some (\<lambda>_. Some (), \<lambda>_ q. (None, q)))
            (\<lambda>_. routes (left\<lparr>hq_Body := if hq_Body r = None then hq_Body left else hq_Body r\<rparr>)) r fresh_response"
proof (cases verdict)
  case None
  then show ?thesis
    using assms(1,2)
    by (auto simp: server_chain_def rfc9457RecoveryMiddleware_def requestLoggingMiddleware_def Let_def
        openAPIValidationMiddleware_def)
next
  case (Some err)
  let ?w = "wrap (wrap fresh_response)"
  let ?bad = "newBadRequestHandler (rw_step (rw_step conn_step)) marshal err ?w"
  have code: "to_int32 400 = 400" by (simp add: to_int32_def)
  have "rw_ResponseWriter (rw_ResponseWriter ?bad) =
    \<lparr>hr_Type = Some contentTypeProblemJSON, hr_Sent = Some (400, Some contentTypeProblemJSON),
     hr_Body = body @ [char_of (10 :: nat)], hr_Superfluous = 0\<rparr>"
    using assms(3) Some
    by (simp add: newBadRequestHandler_def writeRFC9457_under written_problem fresh_response_def code)
  moreover have "rw_statusCode ?bad = 400"
    using assms(3) Some by (simp add: newBadRequestHandler_def writeRFC9457_def code Let_def wrap_def)
  ultimately show ?thesis
    using assms(1,2) Some scrub_blank[of err]
    by (simp add: server_chain_def rfc9457RecoveryMiddleware_def requestLoggingMiddleware_def Let_def
        openAPIValidationMiddleware_def)
qed

definition sample_verdict :: "err_node list" where
  "sample_verdict = [NRequest None True ''bad body'', NOther ''wrapped'', NSchema ''minimum is 1'' ''{value: -5}'']"

theorem validation_gate_witness:
  "snd (snd (server_chain conn_step (\<lambda>e. Inr (the (er_Detail e)))
       (Some (\<lambda>_. Some (), \<lambda>_ q. (Some sample_verdict, q\<lparr>hq_Body := None\<rparr>)))
       (\<lambda>_ w. (Panicked ''unreached'', w, [])) \<lparr>hq_Method = ''POST'', hq_Path = ''/'', hq_RawQuery = [], hq_Body = Some ''x''\<rparr> fresh_response))
   = [\<lparr>lg_method = ''POST'', lg_path = ''/'', lg_status = 400\<rparr>]"
  using validation_gate[where FindRoute = "\<lambda>_. Some ()" and ValidateRequest = "\<lambda>_ q. (Some sample_verdict, q\<lparr>hq_Body := None\<rparr>)"
      and r = "\<lparr>hq_Method = ''POST'', hq_Path = ''/'', hq_RawQuery = [], hq_Body = Some ''x''\<rparr>" and marshal = "\<lambda>e. Inr (the (er_Detail e))"
      and routes = "\<lambda>_ w. (Panicked ''unreached'', w, [])", OF refl refl refl]
  by simp

text \<open>The callback of \<open>Run\<close> is called only after the readiness probe was answered with 200.\<close>

lemma run_not_ready:
  "snd (Run addr onReady (Some err) wake shutdown s) = s"
  by (auto simp: Run_def Let_def split: option.splits server_wake.splits)

lemma ready_means_200: "waitForReady ctxErr events = Some None \<Longrightarrow> Answer 200 \<in> fst ` set events"
  by (induction ctxErr events rule: waitForReady.induct) (auto split: probe.splits wakeup.splits if_splits)

end
