(* ===== verification/Health.thy ===== *)
theory Health
  imports Hub MemHub
begin

text \<open>
  The dependency checks of \<open>internal/health/health.go\<close> and the handler method that answers with
  their result.  The elapsed time is given in whole seconds, as the code converts it; the deadline of
  the check shows as an error of the list call.
\<close>

definition checkCRDAvailable ::
  "('s, 'q) k8s_client \<Rightarrow> (GVK \<Rightarrow> string) \<Rightarrow> GVK \<Rightarrow> 's \<Rightarrow> go_error option \<times> 's" where
  "checkCRDAvailable c gvk_String listGVK s =
     (if \<not> Recognizes c listGVK
      then (Some (PlainError (''GVK '' @ gvk_String listGVK @ '' not recognized in scheme'')), s)
      else case ListKind c listGVK s of
        (Some err, s') \<Rightarrow>
          (Some (Wrapped (''listing '' @ gvk_Kind listGVK @ '': '' @ k8s_error_text err) (K8sError err)), s')
      | (None, s') \<Rightarrow> (None, s'))"

definition platform_gvk :: "string \<Rightarrow> GVK option" where
  "platform_gvk platform =
     (if platform = ''kubevirt'' then Some KubevirtVMIListGVK
      else if platform = ''baremetal'' then Some AgentListGVK
      else None)"

text \<open>The loop over the enabled platforms: whether every check passed.\<close>

fun check_platforms ::
  "('s, 'q) k8s_client \<Rightarrow> (GVK \<Rightarrow> string) \<Rightarrow> string list \<Rightarrow> 's \<Rightarrow> bool \<times> 's" where
  "check_platforms c gvk_String [] s = (True, s)"
| "check_platforms c gvk_String (platform # ps) s =
     (case platform_gvk platform of
        None \<Rightarrow> check_platforms c gvk_String ps s
      | Some gvk \<Rightarrow>
          (case checkCRDAvailable c gvk_String gvk s of
             (Some err, s') \<Rightarrow> (False, s')
           | (None, s') \<Rightarrow> check_platforms c gvk_String ps s'))"

definition Check ::
  "('s, 'q) k8s_client \<Rightarrow> (GVK \<Rightarrow> string) \<Rightarrow> HealthConfig \<Rightarrow> string \<Rightarrow> int \<Rightarrow> 's \<Rightarrow> Health \<times> 's" where
  "Check c gvk_String cfg version elapsed s =
     (let uptime = max 0 elapsed;
          h = \<lparr>he_Path = Some ''health'', he_Status = None,
               he_Type = Some ''acm-cluster-service-provider.dcm.io/health'',
               he_Uptime = Some uptime, he_Version = Some version\<rparr>
      in case checkCRDAvailable c gvk_String HostedClusterListGVK s of
        (Some err, s1) \<Rightarrow> (h\<lparr>he_Status := Some ''unhealthy''\<rparr>, s1)
      | (None, s1) \<Rightarrow>
          (case check_platforms c gvk_String (hf_EnabledPlatforms cfg) s1 of
             (False, s2) \<Rightarrow> (h\<lparr>he_Status := Some ''unhealthy''\<rparr>, s2)
           | (True, s2) \<Rightarrow> (h\<lparr>he_Status := Some ''healthy''\<rparr>, s2)))"

subsection \<open>The interface between the handler and a checker\<close>

text \<open>\<open>GetHealth200JSONResponse\<close> is the only response of the operation.\<close>

datatype health_response = GetHealth200 Health

definition handler_GetHealth :: "('s \<Rightarrow> Health \<times> 's) \<Rightarrow> 's \<Rightarrow> health_response \<times> 's" where
  "handler_GetHealth check s = (case check s of (result, s') \<Rightarrow> (GetHealth200 result, s'))"

definition populated :: "Health \<Rightarrow> bool" where
  "populated h \<longleftrightarrow> he_Path h \<noteq> None \<and> he_Type h \<noteq> None \<and> he_Version h \<noteq> None
     \<and> he_Status h \<in> {Some ''healthy'', Some ''unhealthy''}
     \<and> (\<exists>n \<ge> 0. he_Uptime h = Some n)"

locale health_checker =
  fixes check :: "'s \<Rightarrow> Health \<times> 's"
  assumes check_populated: "check s = (h, s') \<Longrightarrow> populated h"
begin

lemma health_answer: "\<exists>h. fst (handler_GetHealth check s) = GetHealth200 h \<and> populated h"
  by (cases "check s") (simp add: handler_GetHealth_def check_populated)

end

interpretation hc: health_checker "Check c gvk_String cfg version elapsed"
  by unfold_locales (auto simp: Check_def populated_def Let_def split: prod.splits option.splits bool.splits)

subsection \<open>What healthy means\<close>

definition required_kinds :: "HealthConfig \<Rightarrow> GVK list" where
  "required_kinds cfg = HostedClusterListGVK # List.map_filter platform_gvk (hf_EnabledPlatforms cfg)"

definition available :: "('s, 'q) k8s_client \<Rightarrow> 's \<Rightarrow> GVK \<Rightarrow> bool" where
  "available c s g \<longleftrightarrow> Recognizes c g \<and> fst (ListKind c g s) = None"

text \<open>The probes themselves do not change what is available.\<close>

definition stable_probes :: "('s, 'q) k8s_client \<Rightarrow> bool" where
  "stable_probes c \<longleftrightarrow> (\<forall>g g' s. fst (ListKind c g (snd (ListKind c g' s))) = fst (ListKind c g s))"

lemma check_available: "fst (checkCRDAvailable c str g s) = None \<longleftrightarrow> available c s g"
  by (auto simp: checkCRDAvailable_def available_def split: prod.splits option.splits)

lemma check_keeps:
  assumes "stable_probes c"
  shows "available c (snd (checkCRDAvailable c str g s)) g' = available c s g'"
proof -
  have "snd (checkCRDAvailable c str g s) \<in> {s, snd (ListKind c g s)}"
    by (auto simp: checkCRDAvailable_def split: prod.splits option.splits)
  then show ?thesis using assms by (auto simp: available_def stable_probes_def)
qed

lemma check_platforms_iff:
  assumes "stable_probes c"
  shows "fst (check_platforms c str ps s) \<longleftrightarrow> (\<forall>g \<in> set (List.map_filter platform_gvk ps). available c s g)"
proof (induction ps arbitrary: s)
  case (Cons p ps)
  show ?case
  proof (cases "platform_gvk p")
    case (Some g)
    then show ?thesis
      using Cons check_available[of c str g s] check_keeps[OF assms, of str g s]
      by (auto simp: map_filter_simps split: prod.splits option.splits)
  qed (use Cons in \<open>simp add: map_filter_simps\<close>)
qed (simp add: map_filter_simps)

lemma healthy_iff:
  assumes "stable_probes c" "Check c str cfg version elapsed s = (h, s')"
  shows "he_Status h = Some ''healthy'' \<longleftrightarrow> (\<forall>g \<in> set (required_kinds cfg). available c s g)"
proof -
  obtain e s1 where first: "checkCRDAvailable c str HostedClusterListGVK s = (e, s1)"
    by (cases "checkCRDAvailable c str HostedClusterListGVK s")
  obtain ok s2 where rest: "check_platforms c str (hf_EnabledPlatforms cfg) s1 = (ok, s2)"
    by (cases "check_platforms c str (hf_EnabledPlatforms cfg) s1")
  have a: "e = None \<longleftrightarrow> available c s HostedClusterListGVK"
    using check_available[of c str HostedClusterListGVK s] first by simp
  have b: "ok \<longleftrightarrow> (\<forall>g \<in> set (List.map_filter platform_gvk (hf_EnabledPlatforms cfg)). available c s g)"
    using check_platforms_iff[OF assms(1), of str "hf_EnabledPlatforms cfg" s1]
      check_keeps[OF assms(1), of str HostedClusterListGVK s] first rest by simp
  show ?thesis
    using assms(2) a b
    by (auto simp: Check_def first rest Let_def required_kinds_def split: option.splits bool.splits)
qed

text \<open>
  C35: the health endpoint always answers 200 with every field set and an uptime that is not
  negative, and it says healthy exactly when HyperShift and each enabled platform the provider knows
  can be listed; a platform name it does not know is not checked.
\<close>

theorem health_correct:
  assumes "stable_probes c"
  shows "\<exists>h. fst (handler_GetHealth (Check c str cfg version elapsed) s) = GetHealth200 h \<and> populated h
    \<and> he_Version h = Some version \<and> he_Uptime h = Some (max 0 elapsed)
    \<and> (he_Status h = Some ''healthy'' \<longleftrightarrow> (\<forall>g \<in> set (required_kinds cfg). available c s g))"
proof -
  obtain h s' where run: "Check c str cfg version elapsed s = (h, s')" by fastforce
  have "he_Version h = Some version \<and> he_Uptime h = Some (max 0 elapsed)"
    using run by (auto simp: Check_def Let_def split: prod.splits option.splits bool.splits)
  then show ?thesis
    using healthy_iff[OF assms run] hc.check_populated[OF run] run by (simp add: handler_GetHealth_def)
qed

definition sample_health :: HealthConfig where
  "sample_health = \<lparr>hf_CheckTimeout = 5000000000, hf_EnabledPlatforms = [''kubevirt'', ''vsphere'', ''baremetal'']\<rparr>"

definition no_agents :: "(nat hub, nat) k8s_client" where
  "no_agents = mem_client\<lparr>ListKind := (\<lambda>g s. (if g = AgentListGVK then Some (K8sNotFound ''no matches'') else None, s))\<rparr>"

definition empty_hub :: "nat hub" where
  "empty_hub = \<lparr>hub_hcs = [], hub_nps = [], hub_images = [], hub_secrets = []\<rparr>"

theorem health_correct_witness:
  "\<exists>h. fst (handler_GetHealth (Check no_agents gvk_Kind sample_health ''1.0'' (-3)) empty_hub) = GetHealth200 h
     \<and> he_Uptime h = Some 0 \<and> he_Status h \<noteq> Some ''healthy''"
proof -
  have "stable_probes no_agents" by (simp add: stable_probes_def no_agents_def)
  moreover have "AgentListGVK \<in> set (required_kinds sample_health)"
    by (simp add: required_kinds_def sample_health_def platform_gvk_def map_filter_simps)
  moreover have "\<not> available no_agents empty_hub AgentListGVK" by (simp add: available_def no_agents_def)
  ultimately show ?thesis
    using health_correct[of no_agents gvk_Kind sample_health "''1.0''" "-3" empty_hub] by auto
qed

end
