(* ===== verification/JsonText.thy ===== *)
theory JsonText
  imports ApiTypes GoStrings
begin

text \<open>
  The text of JSON values as \<open>encoding/json\<close> writes and reads it: compact output with the HTML
  escapes and sanitised UTF-8 of \<open>Marshal\<close>, input by the grammar of its scanner with the depth limit of
  10000, as a whole (\<open>Unmarshal\<close>) or up to the end of the first value (\<open>Decoder.Decode\<close>).  A number is
  kept as its literal.  The main lemma is that reading what was written gives the value back.
\<close>

subsection \<open>UTF-8\<close>

definition byte_val :: "char \<Rightarrow> nat" where
  "byte_val ch = of_char ch"

definition byte_at :: "string \<Rightarrow> nat \<Rightarrow> nat" where
  "byte_at s i = (if i < length s then byte_val (s ! i) else 0)"

definition cont_byte :: "nat \<Rightarrow> bool" where
  "cont_byte b \<longleftrightarrow> 128 \<le> b \<and> b \<le> 191"

text \<open>
  Length of the first rune from its first four bytes, absent ones being \<open>0\<close>; the result is \<open>0\<close> when
  they do not begin with a valid one.
\<close>

definition rune_class :: "nat \<Rightarrow> nat \<Rightarrow> nat \<Rightarrow> nat \<Rightarrow> nat" where
  "rune_class b0 b1 b2 b3 =
     (if b0 < 128 then 1
      else if 194 \<le> b0 \<and> b0 \<le> 223 \<and> cont_byte b1 then 2
      else if 224 \<le> b0 \<and> b0 \<le> 239 \<and> cont_byte b1 \<and> (b0 = 224 \<longrightarrow> 160 \<le> b1) \<and> (b0 = 237 \<longrightarrow> b1 \<le> 159)
              \<and> cont_byte b2 then 3
      else if 240 \<le> b0 \<and> b0 \<le> 244 \<and> cont_byte b1 \<and> (b0 = 240 \<longrightarrow> 144 \<le> b1) \<and> (b0 = 244 \<longrightarrow> b1 \<le> 143)
              \<and> cont_byte b2 \<and> cont_byte b3 then 4
      else 0)"

definition rune_len :: "string \<Rightarrow> nat" where
  "rune_len s =
     (if s = [] then 0 else rune_class (byte_at s 0) (byte_at s 1) (byte_at s 2) (byte_at s 3))"

function valid_utf8 :: "string \<Rightarrow> bool" where
  "valid_utf8 s = (if s = [] then True else if rune_len s = 0 then False else valid_utf8 (drop (rune_len s) s))"
  by pat_completeness auto
termination by (relation "measure length") auto

declare valid_utf8.simps [simp del]

text \<open>The encoding of a code point, and the replacement character.\<close>

definition utf8_bytes :: "nat \<Rightarrow> string" where
  "utf8_bytes r =
     (if r < 128 then [char_of r]
      else if r < 2048 then [char_of (192 + r div 64), char_of (128 + r mod 64)]
      else if r < 65536 then [char_of (224 + r div 4096), char_of (128 + r div 64 mod 64), char_of (128 + r mod 64)]
      else [char_of (240 + r div 262144), char_of (128 + r div 4096 mod 64),
            char_of (128 + r div 64 mod 64), char_of (128 + r mod 64)])"

definition replacement :: string where
  "replacement = [char_of (239 :: nat), char_of (191 :: nat), char_of (189 :: nat)]"

lemma cont_byte_in: "cont_byte (byte_at s i) \<Longrightarrow> i < length s"
  by (auto simp: byte_at_def cont_byte_def split: if_splits)

lemma rune_class_range: "rune_class b0 b1 b2 b3 \<le> 4"
  by (simp add: rune_class_def)

lemma rune_class_one: "rune_class b0 b1 b2 b3 = 1 \<longleftrightarrow> b0 < 128"
  by (simp add: rune_class_def)

lemma rune_class_conts:
  "2 \<le> rune_class b0 b1 b2 b3 \<Longrightarrow> 128 \<le> b0 \<and> cont_byte b1"
  "3 \<le> rune_class b0 b1 b2 b3 \<Longrightarrow> cont_byte b2"
  "4 \<le> rune_class b0 b1 b2 b3 \<Longrightarrow> cont_byte b3"
  by (auto simp: rune_class_def split: if_splits)

lemma rune_class_local:
  "rune_class b0 b1 b2 b3 = 1 \<Longrightarrow> rune_class b0 c1 c2 c3 = 1"
  "rune_class b0 b1 b2 b3 = 2 \<Longrightarrow> rune_class b0 b1 c2 c3 = 2"
  "rune_class b0 b1 b2 b3 = 3 \<Longrightarrow> rune_class b0 b1 b2 c3 = 3"
  by (auto simp: rune_class_def split: if_splits)

lemma rune_len_conts:
  assumes "i < rune_len s"
  shows "i < length s" "1 < rune_len s \<Longrightarrow> 128 \<le> byte_at s i"
proof -
  have s: "s \<noteq> []" and len: "rune_len s = rune_class (byte_at s 0) (byte_at s 1) (byte_at s 2) (byte_at s 3)"
    using assms by (auto simp: rune_len_def split: if_splits)
  note cont = rune_class_conts[of "byte_at s 0" "byte_at s 1" "byte_at s 2" "byte_at s 3", folded len]
  have "rune_len s \<le> 4" unfolding len by (rule rune_class_range)
  then have i: "i = 0 \<or> i = 1 \<or> i = 2 \<or> i = 3" using assms by presburger
  have "i = 0 \<or> cont_byte (byte_at s i)" using i assms cont by auto
  then show "i < length s" using s cont_byte_in by auto
  assume "1 < rune_len s"
  then show "128 \<le> byte_at s i"
    using \<open>i = 0 \<or> cont_byte (byte_at s i)\<close> cont(1) by (auto simp: cont_byte_def)
qed

lemma rune_len_le: "rune_len s \<le> length s"
  using rune_len_conts(1)[of "rune_len s - 1" s] by (cases "rune_len s") auto

lemma byte_at_take: "i < n \<Longrightarrow> n \<le> length s \<Longrightarrow> byte_at (take n s @ rest) i = byte_at s i"
  by (simp add: byte_at_def nth_append)

text \<open>The first rune is recognised whatever follows it.\<close>

lemma rune_len_take:
  assumes "rune_len s \<noteq> 0"
  shows "rune_len (take (rune_len s) s @ rest) = rune_len s"
proof -
  define n where "n = rune_len s"
  have n: "n \<le> length s" "n \<noteq> 0" using assms rune_len_le by (auto simp: n_def)
  have at: "byte_at (take n s @ rest) i = byte_at s i" if "i < n" for i
    using byte_at_take[OF that n(1)] .
  have ne: "take n s @ rest \<noteq> []" "s \<noteq> []" using n by auto
  have len: "n = rune_class (byte_at s 0) (byte_at s 1) (byte_at s 2) (byte_at s 3)"
    using ne by (simp add: n_def rune_len_def)
  from len have "n \<le> 4" using rune_class_range by simp
  then have "n = 1 \<or> n = 2 \<or> n = 3 \<or> n = 4" using n(2) by presburger
  then have "rune_class (byte_at s 0) (byte_at (take n s @ rest) 1) (byte_at (take n s @ rest) 2)
      (byte_at (take n s @ rest) 3) = n"
  proof (elim disjE)
    assume 1: "n = 1"
    show ?thesis using rune_class_local(1) len unfolding 1 by metis
  next
    assume 2: "n = 2"
    show ?thesis using rune_class_local(2) at[of 1] len unfolding 2 by (metis one_less_numeral_iff semiring_norm(76))
  next
    assume 3: "n = 3"
    show ?thesis using rune_class_local(3) at[of 1] at[of 2] len unfolding 3 by simp
  next
    assume 4: "n = 4"
    show ?thesis using at[of 1] at[of 2] at[of 3] len unfolding 4 by simp
  qed
  then show ?thesis
    using ne at[of 0] n(2) unfolding n_def[symmetric] by (simp add: rune_len_def)
qed

lemma rune_len_high:
  assumes "1 < rune_len s" "ch \<in> set (take (rune_len s) s)"
  shows "128 \<le> byte_val ch"
proof -
  obtain i where "i < rune_len s" "ch = s ! i" "i < length s"
    using assms(2) by (auto simp: in_set_conv_nth)
  then show ?thesis using rune_len_conts(2)[of i s] assms(1) by (simp add: byte_at_def)
qed

lemma rune_len_one: "rune_len (ch # s) = 1 \<longleftrightarrow> byte_val ch < 128"
  using rune_class_one by (simp add: rune_len_def byte_at_def)

lemma valid_utf8_Nil [simp]: "valid_utf8 []"
  by (simp add: valid_utf8.simps[of "[]"])

lemma valid_ascii: "list_all (\<lambda>ch. byte_val ch < 128) s \<Longrightarrow> valid_utf8 s"
proof (induction s)
  case (Cons ch s)
  then have "rune_len (ch # s) = 1" using rune_len_one by simp
  then show ?case using Cons by (simp add: valid_utf8.simps[of "ch # s"])
qed simp

subsection \<open>Strings\<close>

definition bslash :: char where "bslash = CHR 0x5C"
definition dquote :: char where "dquote = CHR 0x22"

text \<open>The short escapes, in both directions.\<close>

definition short_escapes :: "(char \<times> char) list" where
  "short_escapes =
     [(CHR 0x22, CHR 0x22), (CHR 0x5C, CHR 0x5C), (CHR 0x08, CHR ''b''), (CHR 0x0C, CHR ''f''),
      (CHR 0x0A, CHR ''n''), (CHR 0x0D, CHR ''r''), (CHR 0x09, CHR ''t'')]"

definition escape_byte :: "char \<Rightarrow> string" where
  "escape_byte ch =
     (case map_of short_escapes ch of
        Some e \<Rightarrow> [bslash, e]
      | None \<Rightarrow>
          let n = byte_val ch in
          if n < 32 \<or> ch \<in> {CHR ''<'', CHR ''>'', CHR ''&''}
          then [bslash] @ ''u00'' @ [hex_char (n div 16), hex_char (n mod 16)]
          else [ch])"

function escape_string :: "string \<Rightarrow> string" where
  "escape_string [] = []"
| "escape_string (ch # s) =
     (let n = rune_len (ch # s); r = take n (ch # s) in
      if n = 0 then [bslash] @ ''ufffd'' @ escape_string s
      else if n = 1 then escape_byte ch @ escape_string s
      else (if r = utf8_bytes 0x2028 then [bslash] @ ''u2028''
            else if r = utf8_bytes 0x2029 then [bslash] @ ''u2029'' else r)
           @ escape_string (drop (n - 1) s))"
  by pat_completeness auto
termination by (relation "measure length") auto

definition json_quote :: "string \<Rightarrow> string" where
  "json_quote s = [dquote] @ escape_string s @ [dquote]"

definition hex_val :: "char \<Rightarrow> nat option" where
  "hex_val ch =
     (let n = byte_val ch in
      if 48 \<le> n \<and> n \<le> 57 then Some (n - 48)
      else if 97 \<le> n \<and> n \<le> 102 then Some (n - 87)
      else if 65 \<le> n \<and> n \<le> 70 then Some (n - 55)
      else None)"

fun hex4 :: "string \<Rightarrow> nat option" where
  "hex4 (a # b # c # d # s) =
     (case (hex_val a, hex_val b, hex_val c, hex_val d) of
        (Some a, Some b, Some c, Some d) \<Rightarrow> Some (((a * 16 + b) * 16 + c) * 16 + d)
      | _ \<Rightarrow> None)"
| "hex4 _ = None"

text \<open>
  What follows a backslash: the bytes it stands for and the number of characters it takes.  A
  surrogate that is not the first half of a pair is replaced.
\<close>

definition low_surrogate :: "string \<Rightarrow> nat option" where
  "low_surrogate s =
     (if take 2 s = [bslash, CHR ''u''] then
        (case hex4 (drop 2 s) of
           Some r \<Rightarrow> if 0xDC00 \<le> r \<and> r \<le> 0xDFFF then Some r else None
         | None \<Rightarrow> None)
      else None)"

definition unescape_u :: "string \<Rightarrow> (string \<times> nat) option" where
  "unescape_u es =
     (case hex4 es of
        None \<Rightarrow> None
      | Some r \<Rightarrow>
          if 0xD800 \<le> r \<and> r \<le> 0xDFFF then
            (case (if r \<le> 0xDBFF then low_surrogate (drop 4 es) else None) of
               Some r2 \<Rightarrow> Some (utf8_bytes ((r - 0xD800) * 1024 + (r2 - 0xDC00) + 0x10000), 11)
             | None \<Rightarrow> Some (replacement, 5))
          else Some (utf8_bytes r, 5))"

fun unescape :: "string \<Rightarrow> (string \<times> nat) option" where
  "unescape [] = None"
| "unescape (e # es) =
     (if e = CHR ''u'' then unescape_u es
      else if e = CHR ''/'' then Some ([e], 1)
      else map_option (\<lambda>ch. ([ch], 1)) (map_of (map prod.swap short_escapes) e))"

text \<open>A string literal after its opening quote: its text, and what follows the closing quote.\<close>

function unquote_json :: "string \<Rightarrow> (string \<times> string) option" where
  "unquote_json [] = None"
| "unquote_json (ch # s) =
     (if ch = dquote then Some ([], s)
      else if ch = bslash then
        (case unescape s of
           None \<Rightarrow> None
         | Some (txt, n) \<Rightarrow> map_option (apfst (append txt)) (unquote_json (drop n s)))
      else if byte_val ch < 32 then None
      else
        let n = rune_len (ch # s) in
        if n = 0 then map_option (apfst (append replacement)) (unquote_json s)
        else map_option (apfst (append (take n (ch # s)))) (unquote_json (drop (n - 1) s)))"
  by pat_completeness auto
termination by (relation "measure length") auto

text \<open>Reading an escaped string gives it back.\<close>

lemma hex_val_char: "d < 16 \<Longrightarrow> hex_val (hex_char d) = Some d"
  by (simp add: hex_val_def hex_char_def byte_val_def Let_def take_bit_eq_mod)

lemma char_of_byte_val [simp]: "char_of (byte_val ch) = ch"
  by (simp add: byte_val_def)

lemma byte_val_eq_iff: "byte_val a = byte_val b \<longleftrightarrow> a = b"
  by (metis char_of_byte_val)

lemma unescape_hex:
  assumes "byte_val ch < 128"
  shows "unescape (''u00'' @ hex_char (byte_val ch div 16) # hex_char (byte_val ch mod 16) # t) = Some ([ch], 5)"
proof -
  have "hex_val CHR ''0'' = Some 0" by (simp add: hex_val_def byte_val_def)
  moreover have "byte_val ch div 16 < 16" "byte_val ch mod 16 < 16" using assms by auto
  ultimately have "hex4 (''00'' @ hex_char (byte_val ch div 16) # hex_char (byte_val ch mod 16) # t) = Some (byte_val ch)"
    by (simp add: hex_val_char)
  then show ?thesis using assms by (simp add: unescape_u_def utf8_bytes_def)
qed

lemma short_unescape:
  "map_of short_escapes ch = Some e \<Longrightarrow> unescape (e # t) = Some ([ch], 1) \<and> e \<noteq> CHR ''u''"
  by (auto simp: short_escapes_def split: if_splits)

lemma append_single: "append [x] = Cons x"
  by auto

lemma unquote_bslash:
  "unescape (e @ t) = Some (x, length e) \<Longrightarrow> unquote_json (bslash # e @ t) = map_option (apfst (append x)) (unquote_json t)"
  by (simp add: bslash_def dquote_def)

lemma unquote_escape_byte:
  assumes "byte_val ch < 128"
  shows "unquote_json (escape_byte ch @ t) = map_option (apfst (Cons ch)) (unquote_json t)"
proof (cases "map_of short_escapes ch")
  case (Some e)
  then have "escape_byte ch = [bslash, e]" by (simp add: escape_byte_def)
  then show ?thesis using short_unescape[OF Some, of t] unquote_bslash[of "[e]" t "[ch]"]
    by (simp add: append_single del: unescape.simps unquote_json.simps)
next
  case None
  then have ch: "ch \<noteq> dquote" "ch \<noteq> bslash" by (auto simp: short_escapes_def dquote_def bslash_def split: if_splits)
  show ?thesis
  proof (cases "byte_val ch < 32 \<or> ch \<in> {CHR ''<'', CHR ''>'', CHR ''&''}")
    case True
    then have "escape_byte ch = bslash # ''u00'' @ [hex_char (byte_val ch div 16), hex_char (byte_val ch mod 16)]"
      using None by (auto simp: escape_byte_def Let_def)
    then show ?thesis
      using unescape_hex[OF assms, of t]
        unquote_bslash[of "''u00'' @ [hex_char (byte_val ch div 16), hex_char (byte_val ch mod 16)]" t "[ch]"]
      by (simp add: append_single del: unescape.simps unquote_json.simps)
  next
    case False
    then have "escape_byte ch = [ch]" "32 \<le> byte_val ch" using None by (auto simp: escape_byte_def Let_def)
    moreover have "rune_len (ch # t) = 1" using assms rune_len_one by blast
    ultimately show ?thesis using ch by (simp add: append_single)
  qed
qed

lemma unquote_rune:
  assumes "1 < rune_len s" "r = take (rune_len s) s"
  shows "unquote_json (r @ t) = map_option (apfst (append r)) (unquote_json t)"
proof -
  have n: "rune_len (r @ t) = rune_len s" using assms rune_len_take[of s t] by simp
  have len: "length r = rune_len s" using assms(2) rune_len_le[of s] by simp
  then obtain c r' where r: "r = c # r'" using assms(1) by (cases r) auto
  have "c \<in> set (take (rune_len s) s)" unfolding assms(2)[symmetric] r by simp
  from rune_len_high[OF assms(1) this] have "128 \<le> byte_val c" .
  then have c: "c \<noteq> dquote" "c \<noteq> bslash" "\<not> byte_val c < 32"
    by (auto simp: dquote_def bslash_def byte_val_def)
  have "rune_len s = Suc (length r')" using len r by simp
  then have "take (rune_len s) (c # r' @ t) = r" "drop (rune_len s - 1) (r' @ t) = t" "rune_len s \<noteq> 0"
    using r by simp_all
  then show ?thesis using n c unfolding r by simp
qed

lemma unescape_line_separators:
  "unescape (''u2028'' @ t) = Some (utf8_bytes 0x2028, 5)" "unescape (''u2029'' @ t) = Some (utf8_bytes 0x2029, 5)"
proof -
  have "hex_val CHR ''2'' = Some 2" "hex_val CHR ''0'' = Some 0" "hex_val CHR ''8'' = Some 8" "hex_val CHR ''9'' = Some 9"
    by (simp_all add: hex_val_def byte_val_def)
  then show "unescape (''u2028'' @ t) = Some (utf8_bytes 0x2028, 5)"
    "unescape (''u2029'' @ t) = Some (utf8_bytes 0x2029, 5)"
    by (simp_all add: unescape_u_def)
qed

theorem unquote_escape:
  "valid_utf8 s \<Longrightarrow> unquote_json (escape_string s @ dquote # rest) = Some (s, rest)"
proof (induction s rule: escape_string.induct)
  case 1
  then show ?case by simp
next
  case (2 ch s)
  define n where "n = rune_len (ch # s)"
  have n: "n \<noteq> 0" "valid_utf8 (drop n (ch # s))"
    using "2.prems" unfolding valid_utf8.simps[of "ch # s"] n_def by (auto split: if_splits)
  show ?case
  proof (cases "n = 1")
    case True
    then have "byte_val ch < 128" using rune_len_one by (simp add: n_def)
    moreover have "unquote_json (escape_string s @ dquote # rest) = Some (s, rest)"
      using 2(2)[OF refl refl] n True by (simp add: n_def)
    ultimately show ?thesis using True by (simp add: n_def unquote_escape_byte)
  next
    case False
    define r where "r = take n (ch # s)"
    have gt: "1 < rune_len (ch # s)" using n False by (simp add: n_def)
    have split: "ch # s = r @ drop (n - 1) s"
      using n append_take_drop_id[of n "ch # s"] unfolding r_def by (cases n) simp_all
    have IH: "unquote_json (escape_string (drop (n - 1) s) @ dquote # rest) = Some (drop (n - 1) s, rest)"
      using 2(3)[OF refl refl] n False by (cases n) (simp_all add: n_def)
    let ?t = "escape_string (drop (n - 1) s) @ dquote # rest"
    have expand: "escape_string (ch # s) = (if r = utf8_bytes 0x2028 then [bslash] @ ''u2028''
            else if r = utf8_bytes 0x2029 then [bslash] @ ''u2029'' else r) @ escape_string (drop (n - 1) s)"
      using n False by (simp add: n_def[symmetric] r_def[symmetric] Let_def)
    have "unquote_json ((if r = utf8_bytes 0x2028 then [bslash] @ ''u2028''
            else if r = utf8_bytes 0x2029 then [bslash] @ ''u2029'' else r) @ ?t) = Some (r @ drop (n - 1) s, rest)"
      using unquote_bslash[of "''u2028''" ?t] unquote_bslash[of "''u2029''" ?t] unescape_line_separators[of ?t]
        unquote_rune[OF gt, of r ?t] IH
      by (auto simp: r_def n_def)
    then show ?thesis unfolding expand append_assoc split[symmetric] .
  qed
qed

subsection \<open>Values\<close>

text \<open>The literals of JSON numbers.\<close>

definition is_dig :: "char \<Rightarrow> bool" where
  "is_dig ch \<longleftrightarrow> digit_val ch \<noteq> None"

definition is_num_char :: "char \<Rightarrow> bool" where
  "is_num_char ch \<longleftrightarrow> is_dig ch \<or> ch \<in> {CHR ''+'', CHR ''-'', CHR ''.'', CHR ''e'', CHR ''E''}"

definition drop_sign :: "char set \<Rightarrow> string \<Rightarrow> string" where
  "drop_sign signs s = (case s of [] \<Rightarrow> [] | ch # r \<Rightarrow> if ch \<in> signs then r else s)"

text \<open>Digits after a mark that need not be there; \<open>None\<close> when the mark has no digits.\<close>

definition skip_part :: "char set \<Rightarrow> char set \<Rightarrow> string \<Rightarrow> string option" where
  "skip_part marks signs s =
     (case s of
        [] \<Rightarrow> Some []
      | ch # r \<Rightarrow>
          if ch \<in> marks then
            let r = drop_sign signs r in if r \<noteq> [] \<and> is_dig (hd r) then Some (dropWhile is_dig r) else None
          else Some s)"

definition json_number :: "string \<Rightarrow> bool" where
  "json_number s \<longleftrightarrow>
     (let s1 = drop_sign {CHR ''-''} s; ip = takeWhile is_dig s1 in
      ip \<noteq> [] \<and> (hd ip = CHR ''0'' \<longrightarrow> length ip = 1)
      \<and> (case skip_part {CHR ''.''} {} (dropWhile is_dig s1) of
           None \<Rightarrow> False
         | Some s2 \<Rightarrow> skip_part {CHR ''e'', CHR ''E''} {CHR ''+'', CHR ''-''} s2 = Some []))"

fun print_json :: "json \<Rightarrow> string"
  and print_elems :: "json list \<Rightarrow> string"
  and print_members :: "(string \<times> json) list \<Rightarrow> string" where
  "print_json JNull = ''null''"
| "print_json (JBool b) = (if b then ''true'' else ''false'')"
| "print_json (JNumber s) = s"
| "print_json (JString s) = json_quote s"
| "print_json (JArray js) = ''['' @ print_elems js @ '']''"
| "print_json (JObject kvs) = ''{'' @ print_members kvs @ ''}''"
| "print_elems [] = []"
| "print_elems [j] = print_json j"
| "print_elems (j # j' # js) = print_json j @ '','' @ print_elems (j' # js)"
| "print_members [] = []"
| "print_members [(k, j)] = json_quote k @ '':'' @ print_json j"
| "print_members ((k, j) # kv # kvs) = json_quote k @ '':'' @ print_json j @ '','' @ print_members (kv # kvs)"

definition is_space :: "char \<Rightarrow> bool" where
  "is_space ch \<longleftrightarrow> ch \<in> {CHR '' '', CHR 0x09, CHR 0x0D, CHR 0x0A}"

definition skip_space :: "string \<Rightarrow> string" where
  "skip_space s = dropWhile is_space s"

definition literal :: "string \<Rightarrow> json \<Rightarrow> string \<Rightarrow> (json \<times> string) option" where
  "literal w v s = (if prefix w s then Some (v, drop (length w) s) else None)"

definition parse_number :: "string \<Rightarrow> (json \<times> string) option" where
  "parse_number s =
     (let n = takeWhile is_num_char s in
      if json_number n then Some (JNumber n, dropWhile is_num_char s) else None)"

text \<open>
  The value at the beginning of a text, and what follows it.  The first argument bounds the
  recursion, at most two calls are made per character; the second is the number of
  arrays and objects that may still be opened.
\<close>

fun parse_value :: "nat \<Rightarrow> nat \<Rightarrow> string \<Rightarrow> (json \<times> string) option"
  and parse_elems :: "nat \<Rightarrow> nat \<Rightarrow> string \<Rightarrow> (json list \<times> string) option"
  and parse_members :: "nat \<Rightarrow> nat \<Rightarrow> string \<Rightarrow> ((string \<times> json) list \<times> string) option" where
  "parse_value 0 depth s = None"
| "parse_value (Suc fuel) depth s =
     (case skip_space s of
        [] \<Rightarrow> None
      | ch # r \<Rightarrow>
          if ch = CHR ''{'' then
            if depth = 0 then None
            else if take 1 (skip_space r) = ''}'' then Some (JObject [], tl (skip_space r))
            else map_option (apfst JObject) (parse_members fuel (depth - 1) r)
          else if ch = CHR ''['' then
            if depth = 0 then None
            else if take 1 (skip_space r) = '']'' then Some (JArray [], tl (skip_space r))
            else map_option (apfst JArray) (parse_elems fuel (depth - 1) r)
          else if ch = dquote then map_option (apfst JString) (unquote_json r)
          else if ch = CHR ''t'' then literal ''true'' (JBool True) (ch # r)
          else if ch = CHR ''f'' then literal ''false'' (JBool False) (ch # r)
          else if ch = CHR ''n'' then literal ''null'' JNull (ch # r)
          else parse_number (ch # r))"
| "parse_elems 0 depth s = None"
| "parse_elems (Suc fuel) depth s =
     (case parse_value fuel depth s of
        None \<Rightarrow> None
      | Some (j, r) \<Rightarrow>
          (case skip_space r of
             [] \<Rightarrow> None
           | ch # r \<Rightarrow>
               if ch = CHR '']'' then Some ([j], r)
               else if ch = CHR '','' then map_option (apfst (Cons j)) (parse_elems fuel depth r)
               else None))"
| "parse_members 0 depth s = None"
| "parse_members (Suc fuel) depth s =
     (case skip_space s of
        [] \<Rightarrow> None
      | q # r \<Rightarrow>
          if q \<noteq> dquote then None
          else case unquote_json r of
            None \<Rightarrow> None
          | Some (k, r) \<Rightarrow>
              if take 1 (skip_space r) \<noteq> '':'' then None
              else case parse_value fuel depth (tl (skip_space r)) of
                None \<Rightarrow> None
              | Some (j, r) \<Rightarrow>
                  (case skip_space r of
                     [] \<Rightarrow> None
                   | ch # r \<Rightarrow>
                       if ch = CHR ''}'' then Some ([(k, j)], r)
                       else if ch = CHR '','' then map_option (apfst (Cons (k, j))) (parse_members fuel depth r)
                       else None))"

definition maxNestingDepth :: nat where
  "maxNestingDepth = 10000"

text \<open>\<open>json.NewDecoder(r).Decode\<close> reads the first value of its input, \<open>json.Unmarshal\<close> one and no more.\<close>

definition Decode :: "string \<Rightarrow> json option" where
  "Decode s = map_option fst (parse_value (2 * length s + 2) maxNestingDepth s)"

definition Unmarshal :: "string \<Rightarrow> json option" where
  "Unmarshal s =
     (case parse_value (2 * length s + 2) maxNestingDepth s of
        Some (j, r) \<Rightarrow> if skip_space r = [] then Some j else None
      | None \<Rightarrow> None)"

subsection \<open>Reading what was written\<close>

text \<open>Values whose strings are UTF-8, whose numbers are literals and that nest at most \<open>d\<close> deep.\<close>

fun json_ok :: "nat \<Rightarrow> json \<Rightarrow> bool" where
  "json_ok d JNull = True"
| "json_ok d (JBool b) = True"
| "json_ok d (JNumber s) = json_number s"
| "json_ok d (JString s) = valid_utf8 s"
| "json_ok d (JArray js) = (d \<noteq> 0 \<and> (\<forall>j \<in> set js. json_ok (d - 1) j))"
| "json_ok d (JObject kvs) = (d \<noteq> 0 \<and> (\<forall>kv \<in> set kvs. valid_utf8 (fst kv) \<and> json_ok (d - 1) (snd kv)))"

lemma drop_sign_split: "\<exists>p. set p \<subseteq> signs \<and> s = p @ drop_sign signs s"
  by (cases s) (auto simp: drop_sign_def intro: exI[of _ "[]"] exI[of _ "[_]"])

lemma skip_part_split:
  assumes "skip_part marks signs s = Some r"
  shows "\<exists>p. set p \<subseteq> marks \<union> signs \<union> Collect is_dig \<and> s = p @ r"
proof (cases s)
  case Nil
  then show ?thesis using assms by (simp add: skip_part_def)
next
  case (Cons ch t)
  obtain p where p: "set p \<subseteq> signs" "t = p @ drop_sign signs t" using drop_sign_split by blast
  show ?thesis
  proof (cases "ch \<in> marks")
    case True
    then have "r = dropWhile is_dig (drop_sign signs t)"
      using assms Cons by (auto simp: skip_part_def Let_def split: if_splits)
    then have "s = (ch # p @ takeWhile is_dig (drop_sign signs t)) @ r" using p(2) Cons by simp
    moreover have "set (ch # p @ takeWhile is_dig (drop_sign signs t)) \<subseteq> marks \<union> signs \<union> Collect is_dig"
      using True p(1) by (auto dest: set_takeWhileD)
    ultimately show ?thesis by blast
  next
    case False
    then show ?thesis using assms Cons by (auto simp: skip_part_def intro: exI[of _ "[]"])
  qed
qed

lemma json_number_chars:
  assumes "json_number s"
  shows "s \<noteq> []" "set s \<subseteq> Collect is_num_char"
proof -
  define s1 where "s1 = drop_sign {CHR ''-''} s"
  obtain s2 where s2: "skip_part {CHR ''.''} {} (dropWhile is_dig s1) = Some s2"
    "skip_part {CHR ''e'', CHR ''E''} {CHR ''+'', CHR ''-''} s2 = Some []" and ip: "takeWhile is_dig s1 \<noteq> []"
    using assms by (auto simp: json_number_def s1_def Let_def split: option.splits)
  obtain p where p: "set p \<subseteq> {CHR ''-''}" "s = p @ s1" using drop_sign_split unfolding s1_def by blast
  obtain p2 where p2: "set p2 \<subseteq> {CHR ''.''} \<union> {} \<union> Collect is_dig" "dropWhile is_dig s1 = p2 @ s2"
    using skip_part_split[OF s2(1)] by blast
  obtain p3 where p3: "set p3 \<subseteq> {CHR ''e'', CHR ''E''} \<union> {CHR ''+'', CHR ''-''} \<union> Collect is_dig" "s2 = p3 @ []"
    using skip_part_split[OF s2(2)] by blast
  have "s = p @ takeWhile is_dig s1 @ p2 @ p3" using p p2 p3 takeWhile_dropWhile_id[of is_dig s1] by simp
  then have all: "set s = set p \<union> set (takeWhile is_dig s1) \<union> set p2 \<union> set p3" by (metis set_append Un_assoc)
  have "set (takeWhile is_dig s1) \<subseteq> Collect is_dig" by (auto dest: set_takeWhileD)
  then show "set s \<subseteq> Collect is_num_char"
    unfolding all using p(1) p2(1) p3(1) by (fastforce simp: is_num_char_def)
  show "s \<noteq> []" using ip p(2) by auto
qed

definition delimited :: "string \<Rightarrow> bool" where
  "delimited rest \<longleftrightarrow> rest = [] \<or> \<not> is_num_char (hd rest)"

lemma parse_number_literal:
  assumes "json_number s" "delimited rest"
  shows "parse_number (s @ rest) = Some (JNumber s, rest)"
proof -
  have all: "\<And>ch. ch \<in> set s \<Longrightarrow> is_num_char ch" using json_number_chars(2)[OF assms(1)] by auto
  have "takeWhile is_num_char rest = []" "dropWhile is_num_char rest = rest"
    using assms(2) by (cases rest; simp add: delimited_def)+
  then show ?thesis
    using all assms(1) by (simp add: parse_number_def takeWhile_append2 dropWhile_append2)
qed

lemma num_char_not:
  "is_num_char ch \<Longrightarrow> \<not> is_space ch \<and> ch \<notin> {CHR ''{'', CHR ''['', CHR '']'', CHR ''}'', CHR '','', CHR '':'', dquote, CHR ''t'', CHR ''f'', CHR ''n''}"
  by (auto simp: is_num_char_def is_dig_def digit_val_def is_space_def dquote_def Let_def)

lemma print_first:
  assumes "json_ok d j"
  shows "\<exists>ch r. print_json j = ch # r \<and> \<not> is_space ch \<and> ch \<noteq> CHR '']''"
proof (cases j)
  case (JNumber s)
  then show ?thesis
    using assms json_number_chars[of s] num_char_not by (cases s) auto
qed (auto simp: is_space_def json_quote_def dquote_def)

lemma skip_space_nonspace [simp]: "\<not> is_space ch \<Longrightarrow> skip_space (ch # r) = ch # r"
  by (simp add: skip_space_def)

lemma spaces [simp]:
  "\<not> is_space CHR '']''" "\<not> is_space CHR ''}''" "\<not> is_space CHR '',''" "\<not> is_space CHR '':''"
  "\<not> is_space CHR ''{''" "\<not> is_space CHR ''[''" "\<not> is_space dquote" "\<not> is_space CHR ''t''"
  "\<not> is_space CHR ''f''" "\<not> is_space CHR ''n''"
  by (simp_all add: is_space_def dquote_def)

lemma delimited_simps [simp]:
  "delimited []" "delimited (CHR '']'' # r)" "delimited (CHR ''}'' # r)" "delimited (CHR '','' # r)"
  using num_char_not by (auto simp: delimited_def)

lemma dquote_neq [simp]:
  "dquote \<noteq> CHR ''{''" "dquote \<noteq> CHR ''[''" "dquote \<noteq> CHR ''}''" "CHR ''}'' \<noteq> dquote"
  "CHR ''n'' \<noteq> dquote" "CHR ''t'' \<noteq> dquote" "CHR ''f'' \<noteq> dquote"
  by (simp_all add: dquote_def)

lemma parse_printed:
  "json_ok d j \<Longrightarrow> delimited rest \<Longrightarrow> 2 * length (print_json j) < f \<Longrightarrow>
     parse_value f d (print_json j @ rest) = Some (j, rest)"
  "(\<And>j. j \<in> set js \<Longrightarrow> json_ok d j) \<Longrightarrow> js \<noteq> [] \<Longrightarrow> 2 * length (print_elems js) + 1 < f \<Longrightarrow>
     parse_elems f d (print_elems js @ CHR '']'' # rest) = Some (js, rest)"
  "(\<And>kv. kv \<in> set kvs \<Longrightarrow> valid_utf8 (fst kv) \<and> json_ok d (snd kv)) \<Longrightarrow> kvs \<noteq> [] \<Longrightarrow>
     2 * length (print_members kvs) + 1 < f \<Longrightarrow>
     parse_members f d (print_members kvs @ CHR ''}'' # rest) = Some (kvs, rest)"
proof (induction j and js and kvs arbitrary: f d rest and f d rest and f d rest
    rule: print_json_print_elems_print_members.induct)
  case 1
  then show ?case by (cases f) (simp_all add: literal_def)
next
  case (2 b)
  then show ?case by (cases f) (simp_all add: literal_def)
next
  case (3 s)
  obtain ch r where s: "s = ch # r" using json_number_chars(1)[of s] 3(1) by (cases s) auto
  then have "is_num_char ch" using json_number_chars(2)[of s] 3(1) by auto
  from num_char_not[OF this] show ?case
    using 3 parse_number_literal[of s rest] s by (cases f) simp_all
next
  case (4 s)
  then show ?case using unquote_escape[of s rest] by (cases f) (simp_all add: json_quote_def)
next
  case (5 js)
  obtain n where f: "f = Suc n" using 5(4) by (cases f) auto
  show ?case
  proof (cases js)
    case Nil
    then show ?thesis using 5(2) by (simp add: f)
  next
    case (Cons j js')
    have "json_ok (d - 1) j" using 5(2) Cons by simp
    then obtain ch r where j: "print_json j = ch # r" "\<not> is_space ch" "ch \<noteq> CHR '']''"
      using print_first by blast
    then have "take 1 (skip_space (print_elems js @ CHR '']'' # rest)) \<noteq> '']''"
      unfolding Cons by (cases js') simp_all
    moreover have "parse_elems n (d - 1) (print_elems js @ CHR '']'' # rest) = Some (js, rest)"
      by (rule 5(1)) (use 5 Cons f in auto)
    ultimately show ?thesis using 5(2) by (simp add: f)
  qed
next
  case (6 kvs)
  obtain n where f: "f = Suc n" using 6(4) by (cases f) auto
  show ?case
  proof (cases kvs)
    case Nil
    then show ?thesis using 6(2) by (simp add: f)
  next
    case (Cons kv kvs')
    then have "\<exists>r. print_members kvs = dquote # r" by (cases kv; cases kvs') (simp_all add: json_quote_def)
    then have "take 1 (skip_space (print_members kvs @ CHR ''}'' # rest)) \<noteq> ''}''" by auto
    moreover have "parse_members n (d - 1) (print_members kvs @ CHR ''}'' # rest) = Some (kvs, rest)"
      by (rule 6(1)) (use 6 Cons f in auto)
    ultimately show ?thesis using 6(2) by (simp add: f)
  qed
next
  case 7
  then show ?case by simp
next
  case (8 j)
  then show ?case by (cases f) simp_all
next
  case (9 j j' js)
  then show ?case by (cases f) (simp_all)
next
  case 10
  then show ?case by simp
next
  case (11 k j)
  then show ?case using unquote_escape[of k] by (cases f) (simp_all add: json_quote_def)
next
  case (12 k j kv kvs)
  obtain n where f: "f = Suc n" using 12(5) by (cases f) auto
  have k: "valid_utf8 k" and j: "json_ok d j" using 12(3)[of "(k, j)"] by auto
  let ?more = "print_members (kv # kvs) @ CHR ''}'' # rest"
  have "parse_members n d ?more = Some (kv # kvs, rest)"
    by (rule 12(2)) (use 12(3,5) f in auto)
  moreover have "parse_value n d (print_json j @ CHR '','' # ?more) = Some (j, CHR '','' # ?more)"
    by (rule 12(1)) (use j 12(5) f in auto)
  ultimately show ?case
    using unquote_escape[OF k] by (simp add: f json_quote_def)
qed

text \<open>Whitespace may follow.\<close>

theorem Unmarshal_print:
  assumes "json_ok maxNestingDepth j" "list_all is_space sp"
  shows "Unmarshal (print_json j @ sp) = Some j" "Decode (print_json j @ sp) = Some j"
proof -
  have "\<not> is_num_char ch" if "is_space ch" for ch using that num_char_not by blast
  then have "delimited sp" using assms(2) by (cases sp) (auto simp: delimited_def)
  then have "parse_value (2 * length (print_json j @ sp) + 2) maxNestingDepth (print_json j @ sp) = Some (j, sp)"
    by (intro parse_printed(1)[OF assms(1)]) simp_all
  moreover have "skip_space sp = []" using assms(2) by (simp add: skip_space_def list_all_iff)
  ultimately show "Unmarshal (print_json j @ sp) = Some j" "Decode (print_json j @ sp) = Some j"
    by (simp_all add: Unmarshal_def Decode_def)
qed

subsection \<open>The bound on the recursion is enough\<close>

lemma skip_space_len: "length (skip_space s) \<le> length s"
  by (simp add: skip_space_def length_dropWhile_le)

lemma unquote_shorter: "unquote_json s = Some (t, r) \<Longrightarrow> length r < length s"
proof (induction s arbitrary: t rule: measure_induct_rule[of length])
  case (less s)
  obtain ch u where s: "s = ch # u" using less.prems by (cases s) simp_all
  have step: "length r < length s" if "unquote_json (drop n u) = Some (t', r)" for n t'
  proof -
    have "length r < length (drop n u)" by (rule less.IH[OF _ that]) (simp add: s)
    then show ?thesis by (simp add: s)
  qed
  from less.prems show ?case
    using step[of 0] step by (auto simp: s Let_def split: if_splits option.splits prod.splits)
qed

lemma skip_Cons_len: "skip_space s = ch # r \<Longrightarrow> length r < length s"
  using skip_space_len[of s] by simp

lemma parse_number_shorter: "parse_number s = Some (j, r) \<Longrightarrow> length r < length s"
proof -
  assume a: "parse_number s = Some (j, r)"
  then have "takeWhile is_num_char s \<noteq> []" "r = dropWhile is_num_char s"
    using json_number_chars(1) by (auto simp: parse_number_def Let_def split: if_splits)
  then show "length r < length s"
    using takeWhile_dropWhile_id[of is_num_char s] by (metis length_append length_greater_0_conv less_add_same_cancel2)
qed

lemma literal_shorter: "literal w v s = Some (j, r) \<Longrightarrow> w \<noteq> [] \<Longrightarrow> length r < length s"
  by (auto simp: literal_def prefix_def split: if_splits)

lemma parse_shorter:
  "parse_value f d s = Some (j, r) \<Longrightarrow> length r < length s"
  "parse_elems f d s = Some (js, r) \<Longrightarrow> length r < length s"
  "parse_members f d s = Some (kvs, r) \<Longrightarrow> length r < length s"
proof (induction f arbitrary: d s j r js kvs)
  case 0
  { case 1 then show ?case by simp } { case 2 then show ?case by simp } { case 3 then show ?case by simp }
next
  case (Suc f)
  { case 1
    then obtain ch t where s: "skip_space s = ch # t" by (auto split: list.splits)
    note t = skip_Cons_len[OF s]
    have tl: "length (tl (skip_space t)) \<le> length t" using skip_space_len[of t] by simp
    show ?case
      using 1 s t tl skip_space_len[of s] unquote_shorter[of t] Suc.IH(2)[of "d - 1" t] Suc.IH(3)[of "d - 1" t]
        literal_shorter[of _ _ "ch # t" j r] parse_number_shorter[of "ch # t" j r]
      by (auto split: if_splits; fastforce) }
  { case 2
    then show ?case
      by (fastforce split: option.splits prod.splits list.splits if_splits
          dest: Suc.IH(1) Suc.IH(2) skip_Cons_len) }
  { case 3
    then obtain q t where s: "skip_space s = q # t" by (auto split: list.splits)
    then obtain k t2 where k: "unquote_json t = Some (k, t2)" using 3 by (auto split: if_splits option.splits)
    have t2: "length (tl (skip_space t2)) < length s"
      using skip_Cons_len[OF s] unquote_shorter[OF k] skip_space_len[of t2] by simp
    from 3 s k obtain j1 t3 where j: "parse_value f d (tl (skip_space t2)) = Some (j1, t3)"
      by (auto split: if_splits option.splits)
    have t3: "length t3 < length s" using Suc.IH(1)[OF j] t2 by simp
    from 3 s k j show ?case
      using t3 by (auto split: if_splits list.splits dest!: Suc.IH(3) skip_Cons_len) }
qed

lemma parse_fuel:
  "2 * length s < f \<Longrightarrow> 2 * length s < g \<Longrightarrow> parse_value f d s = parse_value g d s"
  "2 * length s + 1 < f \<Longrightarrow> 2 * length s + 1 < g \<Longrightarrow> parse_elems f d s = parse_elems g d s"
  "2 * length s + 1 < f \<Longrightarrow> 2 * length s + 1 < g \<Longrightarrow> parse_members f d s = parse_members g d s"
proof (induction f arbitrary: g d s)
  case 0
  { case 1 then show ?case by simp } { case 2 then show ?case by simp } { case 3 then show ?case by simp }
next
  case (Suc f)
  { case 1
    then obtain h where g: "g = Suc h" by (cases g) auto
    show ?case
    proof (cases "skip_space s")
      case (Cons ch t)
      note t = skip_Cons_len[OF Cons]
      have "parse_elems f (d - 1) t = parse_elems h (d - 1) t" by (rule Suc.IH(2)) (use 1 t g in auto)
      moreover have "parse_members f (d - 1) t = parse_members h (d - 1) t" by (rule Suc.IH(3)) (use 1 t g in auto)
      ultimately show ?thesis by (simp add: g Cons)
    qed (simp add: g) }
  { case 2
    then obtain h where g: "g = Suc h" by (cases g) auto
    have v: "parse_value f d s = parse_value h d s" by (rule Suc.IH(1)) (use 2 g in auto)
    show ?case
    proof (cases "parse_value h d s")
      case (Some jr)
      obtain j r where jr: "jr = (j, r)" by (cases jr)
      have r: "length r < length s" using parse_shorter(1) Some jr by blast
      have "parse_elems f d t = parse_elems h d t" if "skip_space r = ch # t" for ch t
        by (rule Suc.IH(2)) (use 2 g r skip_Cons_len[OF that] in auto)
      then show ?thesis by (simp add: g v Some jr split: list.split)
    qed (simp add: g v) }
  { case 3
    then obtain h where g: "g = Suc h" by (cases g) auto
    show ?case
    proof (cases "skip_space s")
      case (Cons q t)
      show ?thesis
      proof (cases "unquote_json t")
        case (Some kt)
        obtain k t2 where k: "unquote_json t = Some (k, t2)" using Some by (cases kt) simp
        define u where "u = tl (skip_space t2)"
        have u: "length u < length s"
          using skip_Cons_len[OF Cons] unquote_shorter[OF k] skip_space_len[of t2] by (simp add: u_def)
        have v: "parse_value f d u = parse_value h d u" by (rule Suc.IH(1)) (use 3 g u in auto)
        have "parse_members f d w = parse_members h d w"
          if "parse_value h d u = Some (j, r)" "skip_space r = ch # w" for j r ch w
          by (rule Suc.IH(3)) (use 3 g u parse_shorter(1)[OF that(1)] skip_Cons_len[OF that(2)] in auto)
        then show ?thesis
          using k Cons v by (simp add: g u_def[symmetric] split: option.split prod.split list.split)
      qed (simp add: g Cons)
    qed (simp add: g) }
qed

text \<open>A text is refused for what it says, never for its length.\<close>

theorem parse_fuel_enough:
  "2 * length s + 2 \<le> f \<Longrightarrow> parse_value f d s = parse_value (2 * length s + 2) d s"
  by (rule parse_fuel(1)) simp_all

subsection \<open>Integers as literals\<close>

lemma digit_char_dig: "d < 10 \<Longrightarrow> is_dig (digit_char d)"
  by (simp add: is_dig_def)

lemma format_nat_digs: "list_all is_dig (format_nat n)"
proof (induction n rule: format_nat.induct)
  case (1 n)
  then show ?case by (cases "n < 10") (simp_all add: format_nat.simps[of n] digit_char_dig)
qed

lemma format_nat_zero: "hd (format_nat n) = CHR ''0'' \<Longrightarrow> n = 0"
proof (induction n rule: format_nat.induct)
  case (1 n)
  show ?case
  proof (cases "n < 10")
    case True
    then have "digit_val (digit_char n) = Some n" by simp
    moreover have "digit_char n = CHR ''0''" using 1(2) True by (simp add: format_nat.simps[of n])
    ultimately show ?thesis by (simp add: digit_val_def)
  next
    case False
    then have "hd (format_nat (n div 10)) = CHR ''0''" using 1(2) by (simp add: format_nat.simps[of n])
    then show ?thesis using 1(1) False by fastforce
  qed
qed

lemma json_number_format_nat: "json_number (format_nat n)" "json_number (CHR ''-'' # format_nat n)"
proof -
  have digs: "takeWhile is_dig (format_nat n) = format_nat n" "dropWhile is_dig (format_nat n) = []"
    using format_nat_digs[of n] by (simp_all add: list_all_iff takeWhile_eq_all_conv dropWhile_eq_Nil_conv)
  have zero: "hd (format_nat n) = CHR ''0'' \<longrightarrow> length (format_nat n) = 1"
    using format_nat_zero[of n] by (auto simp: format_nat.simps[of 0])
  have sign: "drop_sign {CHR ''-''} (format_nat n) = format_nat n"
    using format_nat_hd[of n] by (cases "format_nat n") (auto simp: drop_sign_def)
  show "json_number (format_nat n)"
    using zero by (simp add: json_number_def sign skip_part_def digs Let_def)
  show "json_number (CHR ''-'' # format_nat n)"
    using zero by (simp add: json_number_def drop_sign_def skip_part_def digs Let_def)
qed

lemma json_number_FormatInt [simp]: "json_number (FormatInt n)"
  by (simp add: FormatInt_def json_number_format_nat)

end
