(* ===== verification/Rfc3339.thy ===== *)
theory Rfc3339
  imports GoStrings
begin

text \<open>
  The text form of a \<open>time.Time\<close> in JSON: RFC 3339 with as many digits of the second as are needed, in
  UTC, for the years 0 to 9999; \<open>MarshalJSON\<close> refuses other years.  Reading follows the strict parser of
  \<open>UnmarshalJSON\<close>, which takes any offset.  A time is the number of nanoseconds since the first of
  January of the year 1.
\<close>

subsection \<open>Dates\<close>

definition is_leap :: "int \<Rightarrow> bool" where
  "is_leap y \<longleftrightarrow> y mod 4 = 0 \<and> (y mod 100 \<noteq> 0 \<or> y mod 400 = 0)"

text \<open>Days between the first of January of the year 1 and of the year \<open>y\<close>.\<close>

definition days_before :: "int \<Rightarrow> int" where
  "days_before y = 365 * (y - 1) + (y - 1) div 4 - (y - 1) div 100 + (y - 1) div 400"

text \<open>The year of a day and the day in that year, by cycles of 400, 100, 4 and 1 years.\<close>

definition year_day :: "int \<Rightarrow> int \<times> int" where
  "year_day d =
     (let a = d div 146097; d = d mod 146097;
          b = min 3 (d div 36524); d = d - 36524 * b;
          c = d div 1461; d = d mod 1461;
          e = min 3 (d div 365); d = d - 365 * e
      in (400 * a + 100 * b + 4 * c + e + 1, d))"

definition month_lengths :: "int \<Rightarrow> int list" where
  "month_lengths y = [31, if is_leap y then 29 else 28, 31, 30, 31, 30, 31, 31, 30, 31, 30, 31]"

fun month_day :: "int list \<Rightarrow> nat \<Rightarrow> int \<Rightarrow> nat \<times> int" where
  "month_day [] m d = (m, d + 1)"
| "month_day (l # ls) m d = (if d < l then (m, d + 1) else month_day ls (m + 1) (d - l))"

lemma div_mod_cycle: "0 \<le> r \<Longrightarrow> r < n \<Longrightarrow> (r + n * k) div n = (k :: int)"
  by simp

lemma days_before_cycles:
  assumes "0 \<le> b" "b \<le> 3" "0 \<le> c" "c \<le> 24" "0 \<le> e" "e \<le> 3"
  shows "days_before (400 * a + 100 * b + 4 * c + e + 1) = 146097 * a + 36524 * b + 1461 * c + 365 * e"
proof -
  let ?y = "400 * a + 100 * b + 4 * c + e"
  have y: "?y = e + 4 * (100 * a + 25 * b + c)" "?y = (4 * c + e) + 100 * (4 * a + b)"
    "?y = (100 * b + 4 * c + e) + 400 * a" by simp_all
  have "?y div 4 = 100 * a + 25 * b + c" unfolding y(1) by (rule div_mod_cycle) (use assms in auto)
  moreover have "?y div 100 = 4 * a + b" unfolding y(2) by (rule div_mod_cycle) (use assms in auto)
  moreover have "?y div 400 = a" unfolding y(3) by (rule div_mod_cycle) (use assms in auto)
  ultimately show ?thesis by (simp add: days_before_def)
qed

lemma leap_cycles:
  assumes "0 \<le> b" "b \<le> 3" "0 \<le> c" "c \<le> 24" "0 \<le> e" "e \<le> 3"
  shows "is_leap (400 * a + 100 * b + 4 * c + e + 1) \<longleftrightarrow> e = 3 \<and> (c \<noteq> 24 \<or> b = 3)"
proof -
  let ?y = "400 * a + 100 * b + 4 * c + e + 1"
  have y: "?y = (e + 1) + 4 * (100 * a + 25 * b + c)" "?y = (4 * c + e + 1) + 100 * (4 * a + b)"
    "?y = (100 * b + 4 * c + e + 1) + 400 * a" by simp_all
  have four: "?y mod 4 = 0 \<longleftrightarrow> e = 3"
    unfolding y(1) mod_mult_self2 using assms(5,6) by (cases "e = 3") simp_all
  have hundred: "?y mod 100 = 0 \<longleftrightarrow> c = 24" if "e = 3"
    unfolding y(2) mod_mult_self2 using assms(3,4) that by (cases "c = 24") simp_all
  have "b = 0 \<or> b = 1 \<or> b = 2 \<or> b = 3" using assms(1,2) by linarith
  then have "(100 * b + 100) mod 400 = 0 \<longleftrightarrow> b = 3" by auto
  then have cycle: "?y mod 400 = 0 \<longleftrightarrow> b = 3" if "e = 3" "c = 24"
    unfolding y(3) mod_mult_self2 using that by (simp add: add.commute)
  show ?thesis unfolding is_leap_def four
    using hundred cycle by (cases "e = 3"; cases "c = 24") auto
qed

lemma min_part:
  fixes x n :: int
  assumes "0 < n" "0 \<le> x" "x \<le> 4 * n" "q = min 3 (x div n)" "r = x - n * q"
  shows "0 \<le> q \<and> q \<le> 3 \<and> 0 \<le> r \<and> r \<le> n \<and> (q < 3 \<longrightarrow> r < n)"
proof (cases "x div n \<le> 3")
  case True
  then have "r = x mod n" using assms(4,5) by (simp add: min_def minus_mult_div_eq_mod)
  then show ?thesis using True assms pos_mod_bound[of n x] less_imp_le[OF pos_mod_bound[of n x]] pos_imp_zdiv_nonneg_iff[of n x] by (auto simp: min_def)
next
  case False
  then have "n * 4 \<le> n * (x div n)" using assms(1) by (intro mult_left_mono) auto
  then have "4 * n \<le> x" using mult_div_mod_eq[of n x] pos_mod_sign[of n x] assms(1) by linarith
  then show ?thesis using False assms by (auto simp: min_def)
qed

lemma year_day_correct:
  assumes "year_day d = (y, yd)"
  shows "days_before y + yd = d" "0 \<le> yd" "yd < (if is_leap y then 366 else 365)"
proof -
  define a d1 where "a = d div 146097" and "d1 = d mod 146097"
  define b d2 where "b = min 3 (d1 div 36524)" and "d2 = d1 - 36524 * b"
  define c d3 where "c = d2 div 1461" and "d3 = d2 mod 1461"
  define e where "e = min 3 (d3 div 365)"
  have "(400 * a + 100 * b + 4 * c + e + 1, d3 - 365 * e) = (y, yd)"
    using assms unfolding year_day_def Let_def a_def d1_def b_def d2_def c_def d3_def e_def .
  then have y: "y = 400 * a + 100 * b + 4 * c + e + 1" "yd = d3 - 365 * e" by simp_all
  have d: "d = 146097 * a + d1" "0 \<le> d1" "d1 < 146097" by (simp_all add: a_def d1_def)
  have b: "0 \<le> b" "b \<le> 3" "0 \<le> d2" "d2 \<le> 36524" "b < 3 \<Longrightarrow> d2 < 36524"
    using min_part[OF _ d(2) _ b_def d2_def] d(3) by simp_all
  have c: "0 \<le> c" "d2 = 1461 * c + d3" "0 \<le> d3" "d3 < 1461"
    using b(3) by (simp_all add: c_def d3_def pos_imp_zdiv_nonneg_iff)
  then have c24: "c \<le> 24" using b(4) by linarith
  have e: "0 \<le> e" "e \<le> 3" "0 \<le> yd" "yd \<le> 365" "e < 3 \<Longrightarrow> yd < 365"
    using min_part[OF _ c(3) _ e_def y(2)] c(4) by simp_all
  show "days_before y + yd = d"
    unfolding y(1) days_before_cycles[OF b(1,2) c(1) c24 e(1,2)] using y(2) d(1) c(2) d2_def by simp
  show "0 \<le> yd" by (rule e(3))
  have "e = 3 \<and> c = 24 \<and> b \<noteq> 3 \<Longrightarrow> yd < 365" using b(2,5) c(2) y(2) by linarith
  then show "yd < (if is_leap y then 366 else 365)"
    unfolding y(1) leap_cycles[OF b(1,2) c(1) c24 e(1,2)] using e b(2) by (cases "e = 3") auto
qed

lemma month_day_correct:
  assumes "month_day ls m d = (m', d')" "0 \<le> d" "d < sum_list ls" "list_all (\<lambda>l. 0 < l) ls"
  shows "m \<le> m' \<and> m' < m + length ls \<and> 1 \<le> d' \<and> d' \<le> ls ! (m' - m) \<and> sum_list (take (m' - m) ls) + d' - 1 = d"
  using assms
proof (induction ls m d rule: month_day.induct)
  case (2 l ls m d)
  show ?case
  proof (cases "d < l")
    case False
    then have "m + 1 \<le> m' \<and> m' < m + 1 + length ls \<and> 1 \<le> d' \<and> d' \<le> ls ! (m' - (m + 1))
        \<and> sum_list (take (m' - (m + 1)) ls) + d' - 1 = d - l"
      by (intro 2(1)) (use 2(2-5) in auto)
    moreover from this have "m' - m = Suc (m' - (m + 1))" by auto
    ultimately show ?thesis by auto
  qed (use 2 in auto)
qed simp

subsection \<open>Text\<close>

definition two_digits :: "int \<Rightarrow> string" where
  "two_digits n = [digit_char (nat n div 10), digit_char (nat n mod 10)]"

definition four_digits :: "int \<Rightarrow> string" where
  "four_digits n = two_digits (n div 100) @ two_digits (n mod 100)"

text \<open>The nine digits of a fraction, without the zeros at the end.\<close>

definition nine_digits :: "int \<Rightarrow> string" where
  "nine_digits n = map (\<lambda>i. digit_char (nat n div 10 ^ (8 - i) mod 10)) [0..<9]"

definition trim_zeros :: "string \<Rightarrow> string" where
  "trim_zeros s = rev (dropWhile (\<lambda>ch. ch = CHR ''0'') (rev s))"

definition fraction :: "int \<Rightarrow> string" where
  "fraction n = (let f = trim_zeros (nine_digits n) in if f = [] then [] else CHR ''.'' # f)"

definition second_ns :: int where "second_ns = 1000000000"
definition day_ns :: int where "day_ns = 86400 * second_ns"

definition format_time :: "time \<Rightarrow> string option" where
  "format_time t =
     (let (y, yd) = year_day (t div day_ns);
          (m, dd) = month_day (month_lengths y) 1 yd;
          ns = t mod day_ns; secs = ns div second_ns
      in if y < 0 \<or> 9999 < y then None
         else Some (four_digits y @ ''-'' @ two_digits (int m) @ ''-'' @ two_digits dd @ ''T''
                @ two_digits (secs div 3600) @ '':'' @ two_digits (secs div 60 mod 60) @ '':'' @ two_digits (secs mod 60)
                @ fraction (ns mod second_ns) @ ''Z''))"

text \<open>A number written with digits only, in a range.\<close>

definition parse_uint :: "string \<Rightarrow> int \<Rightarrow> int \<Rightarrow> int option" where
  "parse_uint s lo hi =
     (case digits_val 0 s of
        None \<Rightarrow> None
      | Some n \<Rightarrow> if lo \<le> int n \<and> int n \<le> hi then Some (int n) else None)"

definition field :: "nat \<Rightarrow> nat \<Rightarrow> string \<Rightarrow> string" where
  "field i n s = take n (drop i s)"

text \<open>The fraction of a second at the beginning of a text, at most nine digits of it, and the rest.\<close>

definition parse_fraction :: "string \<Rightarrow> int \<times> string" where
  "parse_fraction s =
     (case s of
        [] \<Rightarrow> (0, s)
      | ch # r \<Rightarrow>
          let ds = takeWhile (\<lambda>ch. digit_val ch \<noteq> None) r; f = take 9 ds in
          if ch = CHR ''.'' \<and> ds \<noteq> [] then
            (int (case digits_val 0 f of Some n \<Rightarrow> n | None \<Rightarrow> 0) * 10 ^ (9 - length f), drop (length ds) r)
          else (0, s))"

definition parse_offset :: "string \<Rightarrow> int option" where
  "parse_offset s =
     (if s = ''Z'' then Some 0
      else if length s \<noteq> 6 then None
      else case (parse_uint (field 1 2 s) 0 23, parse_uint (field 4 2 s) 0 59) of
        (Some h, Some m) \<Rightarrow>
          if (s ! 0 = CHR ''-'' \<or> s ! 0 = CHR ''+'') \<and> s ! 3 = CHR '':''
          then Some ((if s ! 0 = CHR ''-'' then - 1 else 1) * (h * 3600 + m * 60)) else None
      | _ \<Rightarrow> None)"

definition parse_date :: "string \<Rightarrow> int option" where
  "parse_date s =
     (case (parse_uint (field 0 4 s) 0 9999, parse_uint (field 5 2 s) 1 12) of
        (Some y, Some m) \<Rightarrow>
          (case parse_uint (field 8 2 s) 1 (month_lengths y ! nat (m - 1)) of
             Some d \<Rightarrow> Some (days_before y + sum_list (take (nat (m - 1)) (month_lengths y)) + d - 1)
           | None \<Rightarrow> None)
      | _ \<Rightarrow> None)"

definition parse_clock :: "string \<Rightarrow> int option" where
  "parse_clock s =
     (case (parse_uint (field 11 2 s) 0 23, parse_uint (field 14 2 s) 0 59, parse_uint (field 17 2 s) 0 59) of
        (Some h, Some mi, Some sec) \<Rightarrow> Some (h * 3600 + mi * 60 + sec)
      | _ \<Rightarrow> None)"

definition parse_time :: "string \<Rightarrow> time option" where
  "parse_time s =
     (if length s < 19 then None
      else if \<not> (s ! 4 = CHR ''-'' \<and> s ! 7 = CHR ''-'' \<and> s ! 10 = CHR ''T'' \<and> s ! 13 = CHR '':'' \<and> s ! 16 = CHR '':'') then None
      else case (parse_date s, parse_clock s) of
        (Some days, Some secs) \<Rightarrow>
          let (ns, r) = parse_fraction (drop 19 s) in
          (case parse_offset r of
             Some off \<Rightarrow> Some (days * day_ns + (secs - off) * second_ns + ns)
           | None \<Rightarrow> None)
      | _ \<Rightarrow> None)"

subsection \<open>Reading what was written\<close>

lemma two_digits_val:
  assumes "0 \<le> n" "n < 100"
  shows "digits_val acc (two_digits n @ s) = digits_val (100 * acc + nat n) s"
proof -
  have "nat n div 10 < 10" using assms by simp
  then show ?thesis by (simp add: two_digits_def add.commute)
qed

lemma parse_two [simp]:
  assumes "0 \<le> n" "n < 100" "lo \<le> n" "n \<le> hi"
  shows "parse_uint (two_digits n) lo hi = Some n"
  using two_digits_val[OF assms(1,2), of 0 "[]"] assms by (simp add: parse_uint_def)

lemma parse_four [simp]:
  assumes "0 \<le> n" "n \<le> 9999"
  shows "parse_uint (four_digits n) 0 9999 = Some n"
proof -
  have "digits_val 0 (four_digits n) = Some (nat n)"
    using two_digits_val[of "n div 100" 0 "two_digits (n mod 100)"] two_digits_val[of "n mod 100" "nat (n div 100)" "[]"] assms
    by (simp add: four_digits_def nat_div_distrib nat_mod_distrib)
  then show ?thesis using assms by (simp add: parse_uint_def)
qed

lemma digits_val_zeros: "digits_val acc (s @ replicate k CHR ''0'') = map_option (\<lambda>v. v * 10 ^ k) (digits_val acc s)"
proof (induction k)
  case (Suc k)
  have "digit_val CHR ''0'' = Some 0" by (simp add: digit_val_def)
  moreover have "s @ replicate (Suc k) CHR ''0'' = (s @ replicate k CHR ''0'') @ [CHR ''0'']"
    by (simp add: replicate_append_same)
  ultimately show ?case
    using Suc digits_val_append[of acc "s @ replicate k CHR ''0''" "CHR ''0''"]
    by (simp only:) (auto simp: ac_simps split: option.split)
qed (simp add: option.map_ident)

lemma trim_zeros_split: "\<exists>k. s = trim_zeros s @ replicate k CHR ''0''"
proof -
  let ?P = "\<lambda>ch. ch = CHR ''0''"
  have "takeWhile ?P (rev s) = replicate (length (takeWhile ?P (rev s))) CHR ''0''"
    by (rule replicate_eqI) (auto dest: set_takeWhileD)
  then have "s = rev (replicate (length (takeWhile ?P (rev s))) CHR ''0'' @ dropWhile ?P (rev s))"
    by (metis rev_rev_ident takeWhile_dropWhile_id)
  then show ?thesis by (auto simp: trim_zeros_def)
qed

lemma digit_step:
  "digits_val (n div 10 ^ Suc i) (digit_char (n div 10 ^ i mod 10) # s) = digits_val (n div 10 ^ i) s"
proof -
  have "n div 10 ^ Suc i = n div 10 ^ i div 10" by (simp add: div_mult2_eq[symmetric] mult.commute)
  then have "10 * (n div 10 ^ Suc i) + n div 10 ^ i mod 10 = n div 10 ^ i" by simp
  then show ?thesis by simp
qed

lemma nine_digits_val:
  assumes "0 \<le> n" "n < second_ns"
  shows "digits_val 0 (nine_digits n) = Some (nat n)"
proof -
  let ?s = "map (\<lambda>i. digit_char (nat n div 10 ^ (8 - i) mod 10))"
  have range: "[0..<9] = [0, 1, 2, 3, 4, 5, 6, 7, 8 :: nat]" by (simp add: upt_rec)
  have "nat n < 10 ^ 9" using assms by (simp add: second_ns_def)
  then have "digits_val 0 (nine_digits n) = digits_val (nat n div 10 ^ Suc 8) (nine_digits n)" by simp
  also have "\<dots> = digits_val (nat n div 10 ^ 0) []"
    unfolding nine_digits_def range
    using digit_step[of "nat n" 8] digit_step[of "nat n" 7] digit_step[of "nat n" 6] digit_step[of "nat n" 5]
      digit_step[of "nat n" 4] digit_step[of "nat n" 3] digit_step[of "nat n" 2] digit_step[of "nat n" 1]
      digit_step[of "nat n" 0]
    by (simp del: digits_val.simps(2))
  finally show ?thesis by simp
qed

lemma parse_fraction_text:
  assumes "0 \<le> n" "n < second_ns"
  shows "parse_fraction (fraction n @ ''Z'') = (n, ''Z'')"
proof -
  define f where "f = trim_zeros (nine_digits n)"
  obtain k where k: "nine_digits n = f @ replicate k CHR ''0''" using trim_zeros_split f_def by blast
  then have len: "length f + k = 9" by (metis length_append length_map length_replicate length_upt nine_digits_def minus_nat.diff_0)
  have val: "map_option (\<lambda>v. v * 10 ^ k) (digits_val 0 f) = Some (nat n)"
    using nine_digits_val[OF assms] digits_val_zeros[of 0 f k] k by simp
  then obtain v where v: "digits_val 0 f = Some v" "v * 10 ^ k = nat n" by auto
  have n: "int v * 10 ^ k = n" using v(2) assms(1) by (metis nat_0_le of_nat_mult of_nat_numeral of_nat_power)
  have "digit_val CHR ''Z'' = None" by (simp add: digit_val_def)
  moreover have "digit_val ch \<noteq> None" if "ch \<in> set f" for ch
  proof -
    have "ch \<in> set (nine_digits n)" using that k by simp
    then show ?thesis by (auto simp: nine_digits_def)
  qed
  ultimately have tw: "takeWhile (\<lambda>ch. digit_val ch \<noteq> None) (f @ ''Z'') = f"
    by (simp add: takeWhile_append2)
  show ?thesis
  proof (cases "f = []")
    case True
    then have "n = 0" using v n by simp
    moreover have "fraction n = []" unfolding fraction_def f_def[symmetric] using True by simp
    ultimately show ?thesis by (simp add: parse_fraction_def)
  next
    case False
    have "9 - length f = k" "take 9 f = f" using len by simp_all
    then show ?thesis
      using False v n tw by (simp add: fraction_def f_def[symmetric] parse_fraction_def Let_def)
  qed
qed

lemma time_fields:
  assumes "length y = 4" "length m = 2" "length d = 2" "length h = 2" "length mi = 2" "length sec = 2"
    and "s = y @ ''-'' @ m @ ''-'' @ d @ ''T'' @ h @ '':'' @ mi @ '':'' @ sec @ r"
  shows "field 0 4 s = y" "field 5 2 s = m" "field 8 2 s = d" "field 11 2 s = h" "field 14 2 s = mi" "field 17 2 s = sec"
    "drop 19 s = r" "s ! 4 = CHR ''-''" "s ! 7 = CHR ''-''" "s ! 10 = CHR ''T''" "s ! 13 = CHR '':''" "s ! 16 = CHR '':''"
    "19 \<le> length s"
  using assms by (auto simp: field_def numeral_eq_Suc length_Suc_conv)

lemma month_lengths_facts:
  "sum_list (month_lengths y) = (if is_leap y then 366 else 365)" "list_all (\<lambda>l. 0 < l) (month_lengths y)"
  "length (month_lengths y) = 12" "i < 12 \<Longrightarrow> month_lengths y ! i \<le> 31"
  by (auto simp: month_lengths_def nth_Cons' numeral_eq_Suc)

theorem parse_format:
  assumes "format_time t = Some s"
  shows "parse_time s = Some t"
proof -
  obtain y yd where y: "year_day (t div day_ns) = (y, yd)" by fastforce
  obtain m dd where m: "month_day (month_lengths y) 1 yd = (m, dd)" by fastforce
  define ns secs where "ns = t mod day_ns" and "secs = ns div second_ns"
  define h mi sec where "h = secs div 3600" and "mi = secs div 60 mod 60" and "sec = secs mod 60"
  note hms = h_def mi_def sec_def
  let ?f = "ns mod second_ns"
  have ry: "0 \<le> y" "y \<le> 9999" and s: "s = four_digits y @ ''-'' @ two_digits (int m) @ ''-'' @ two_digits dd @ ''T''
      @ two_digits h @ '':'' @ two_digits mi @ '':'' @ two_digits sec @ fraction ?f @ ''Z''"
    using assms by (auto simp: hms format_time_def y m m[unfolded One_nat_def] ns_def secs_def Let_def split: if_splits)
  note yc = year_day_correct[OF y]
  have mc: "1 \<le> m" "m \<le> 12" "1 \<le> dd" "dd \<le> month_lengths y ! (m - 1)"
    "sum_list (take (m - 1) (month_lengths y)) + dd - 1 = yd"
    using month_day_correct[OF m yc(2)] yc(3) by (auto simp: month_lengths_facts)
  have dd: "dd \<le> 31" using month_lengths_facts(4)[of "m - 1" y] mc(1,2,4) by fastforce
  have ns: "0 \<le> ns" "ns < day_ns" by (simp_all add: ns_def day_ns_def second_ns_def)
  have secs: "0 \<le> secs" "secs < 86400"
    using ns by (auto simp: secs_def day_ns_def second_ns_def)
  have f: "0 \<le> ?f" "?f < second_ns" "secs * second_ns + ?f = ns" by (simp_all add: second_ns_def secs_def)
  have clock: "0 \<le> h" "h \<le> 23" "0 \<le> mi" "mi \<le> 59" "0 \<le> sec" "sec \<le> 59"
    using secs by (auto simp: hms pos_imp_zdiv_nonneg_iff)
  note fields = time_fields[OF _ _ _ _ _ _ s]
  have len: "length (four_digits y) = 4" "\<And>n. length (two_digits n) = 2" by (simp_all add: four_digits_def two_digits_def)
  note fields = fields[OF len(1) len(2) len(2) len(2) len(2) len(2)]
  have "parse_date s = Some (t div day_ns)"
    using ry mc dd yc(1) by (simp add: parse_date_def fields nat_diff_distrib)
  moreover have "parse_clock s = Some secs"
  proof -
    have "h * 3600 + mi * 60 + sec = secs"
    proof -
      have "h = secs div 60 div 60" unfolding h_def using zdiv_zmult2_eq[of 60 secs 60] by simp
      then show ?thesis using div_mult_mod_eq[of secs 60] div_mult_mod_eq[of "secs div 60" 60] unfolding mi_def sec_def by linarith
    qed
    then show ?thesis using clock by (simp add: parse_clock_def fields)
  qed
  moreover have "parse_offset ''Z'' = Some 0" by (simp add: parse_offset_def)
  moreover have "t div day_ns * day_ns + (secs * second_ns + ?f) = t" unfolding f(3) by (simp add: ns_def)
  ultimately show ?thesis
    using fields(7-13) parse_fraction_text[OF f(1,2)] by (simp add: parse_time_def)
qed

text \<open>Which times have a text.\<close>

lemma div_step: "0 < n \<Longrightarrow> y div n = (y - 1) div n + (if y mod n = 0 then 1 else 0)" for y n :: int
proof -
  assume n: "0 < n"
  have y: "y = n * (y div n) + y mod n" "0 \<le> y mod n" "y mod n < n" using n by simp_all
  show ?thesis
  proof (cases "y mod n = 0")
    case True
    have "(y - 1) div n = y div n - 1"
      by (rule int_div_pos_eq[of _ _ _ "n - 1"]) (use n y True in \<open>auto simp: algebra_simps\<close>)
    then show ?thesis using True by simp
  next
    case False
    have "(y - 1) div n = y div n"
      by (rule int_div_pos_eq[of _ _ _ "y mod n - 1"]) (use n y False in \<open>auto simp: algebra_simps\<close>)
    then show ?thesis using False by simp
  qed
qed

lemma leap_count:
  "(q \<Longrightarrow> p) \<Longrightarrow> (r \<Longrightarrow> q) \<Longrightarrow> (if p \<and> (\<not> q \<or> r) then 366 else 365) =
     365 + (if p then 1 else 0) - (if q then 1 else 0) + (if r then 1 else (0 :: int))"
  by (cases p; cases q; cases r) simp_all

lemma count_up:
  fixes y :: int
  shows "A = A' + a \<Longrightarrow> B = B' + b \<Longrightarrow> C = C' + c \<Longrightarrow> l = 365 + a - b + c \<Longrightarrow>
    365 * y + A - B + C = 365 * (y - 1) + A' - B' + C' + l"
  by simp

lemma days_before_step: "days_before (y + 1) = days_before y + (if is_leap y then 366 else 365)"
proof -
  have leap: "y mod 100 = 0 \<Longrightarrow> y mod 4 = 0" "y mod 400 = 0 \<Longrightarrow> y mod 100 = 0"
    unfolding mod_eq_0_iff_dvd by (rule dvd_trans[of 4 100], simp_all, rule dvd_trans[of 100 400], simp_all)
  have pos: "0 < (4 :: int)" "0 < (100 :: int)" "0 < (400 :: int)" by simp_all
  have "days_before (y + 1) = 365 * y + y div 4 - y div 100 + y div 400"
    unfolding days_before_def by simp
  then show ?thesis
    unfolding days_before_def is_leap_def
    using count_up[OF div_step[OF pos(1), of y] div_step[OF pos(2), of y] div_step[OF pos(3), of y] leap_count[OF leap], of y]
    by (rule trans)
qed

lemma days_before_mono: "y \<le> z \<Longrightarrow> days_before y \<le> days_before z"
proof (induction z rule: int_ge_induct)
  case (step z)
  then show ?case by (simp add: days_before_step)
qed simp

lemma format_time_iff: "format_time t \<noteq> None \<longleftrightarrow> - 366 * day_ns \<le> t \<and> t < 3652059 * day_ns"
proof -
  obtain y yd where y: "year_day (t div day_ns) = (y, yd)" by fastforce
  define d where "d = t div day_ns"
  note yc = year_day_correct[OF y, folded d_def]
  have next_year: "d < days_before (y + 1)" using yc by (auto simp: days_before_step split: if_splits)
  have zero: "days_before 0 = - 366" "days_before 10000 = 3652059" by (simp_all add: days_before_def)
  have "0 \<le> y \<longleftrightarrow> - 366 \<le> d"
    using days_before_mono[of 0 y] days_before_mono[of "y + 1" 0] yc(1,2) next_year zero by fastforce
  moreover have "y \<le> 9999 \<longleftrightarrow> d < 3652059"
    using days_before_mono[of "y + 1" 10000] days_before_mono[of 10000 y] yc(1,2) next_year zero by fastforce
  moreover have "- 366 \<le> d \<longleftrightarrow> - 366 * day_ns \<le> t" "d < 3652059 \<longleftrightarrow> t < 3652059 * day_ns"
    by (auto simp: d_def day_ns_def second_ns_def)
  ultimately show ?thesis
    by (auto simp: format_time_def y case_prod_beta' Let_def)
qed

end
