(* ===== verification/ApiJson.thy ===== *)
theory ApiJson
  imports JsonText Rfc3339 Handler
begin

text \<open>
  The JSON form of the API types, as \<open>encoding/json\<close> derives it from the struct tags of
  \<open>api/v1alpha1/types.gen.go\<close> and of its copy in \<open>internal/api/server/server.gen.go\<close>, and the JSON methods of
  \<open>ProviderHints\<close>.  Encoding leaves out nil pointers; decoding goes through the members of an object in
  their order, finds the field by its exact name or else by its name without case, ignores members
  without a field, decodes into the value that is there, and takes \<open>null\<close> for a nil pointer.  The first
  package's types are encoded, the second one's decoded, and by the same tags the other way round.
  Printing a \<open>float64\<close> back after reading a number literal into an \<open>interface{}\<close> is the parameter
  \<open>fnum\<close>; \<open>None\<close> is a number out of range.
\<close>

subsection \<open>Maps with string keys\<close>

text \<open>A \<open>map[string]T\<close> whose entries are printed is the list of its entries in the order of the keys.\<close>

fun upsert :: "string \<Rightarrow> 'v \<Rightarrow> (string \<times> 'v) list \<Rightarrow> (string \<times> 'v) list" where
  "upsert k v [] = [(k, v)]"
| "upsert k v ((k', v') # m) =
     (if k = k' then (k, v) # m else if k < k' then (k, v) # (k', v') # m else (k', v') # upsert k v m)"

definition sorted_map :: "(string \<times> 'v) list \<Rightarrow> bool" where
  "sorted_map m \<longleftrightarrow> sorted_wrt (<) (map fst m)"

lemma upsert_keys: "fst ` set (upsert k v m) = insert k (fst ` set m)"
  by (induction k v m rule: upsert.induct) (simp_all add: insert_commute)

lemma upsert_values: "set (upsert k v m) \<subseteq> insert (k, v) (set m)"
  by (induction m) (auto split: if_splits)

lemma upsert_sorted: "sorted_map m \<Longrightarrow> sorted_map (upsert k v m)"
proof (induction m)
  case (Cons e m)
  obtain k' v' where e: "e = (k', v')" by (cases e)
  have keys: "set (map fst (upsert k v m)) = insert k (set (map fst m))" using upsert_keys[of k v m] by simp
  have tail: "sorted_wrt (<) (map fst (upsert k v m))" "\<forall>x \<in> set (map fst m). k' < x"
    using Cons by (auto simp: sorted_map_def e)
  show ?case
    using Cons.prems tail keys by (auto simp: e sorted_map_def)
qed (simp add: sorted_map_def)

lemma map_of_upsert: "sorted_map m \<Longrightarrow> map_of (upsert k v m) = (map_of m)(k \<mapsto> v)"
proof (induction m)
  case (Cons e m)
  then show ?case by (cases e) (auto simp: sorted_map_def fun_eq_iff)
qed simp

lemma upsert_last: "(\<And>k'. k' \<in> fst ` set m \<Longrightarrow> k' < k) \<Longrightarrow> upsert k v m = m @ [(k, v)]"
proof (induction m)
  case (Cons e m)
  obtain k' v' where e: "e = (k', v')" by (cases e)
  have "k' < k" using Cons.prems e by auto
  then have "k \<noteq> k'" "\<not> k < k'" by auto
  then show ?case using Cons by (auto simp: e)
qed simp

lemma fold_upsert_sorted:
  "sorted_map (acc @ m) \<Longrightarrow> fold (\<lambda>(k, v). upsert k v) m acc = acc @ m"
proof (induction m arbitrary: acc)
  case (Cons e m)
  obtain k v where e: "e = (k, v)" by (cases e)
  have "upsert k v acc = acc @ [(k, v)]"
    by (rule upsert_last) (use Cons.prems in \<open>auto simp: sorted_map_def sorted_wrt_append e\<close>)
  then show ?case using Cons by (simp add: e)
qed simp

lemma fold_upsert_keeps: "sorted_map acc \<Longrightarrow> sorted_map (fold (\<lambda>(k, v). upsert k v) m acc)"
  by (induction m arbitrary: acc) (auto simp: upsert_sorted)

lemma sorted_map_distinct: "sorted_map m \<Longrightarrow> distinct (map fst m)"
  by (simp add: sorted_map_def strict_sorted_iff)

lemma map_of_fold_upsert:
  "sorted_map acc \<Longrightarrow> map_of (fold (\<lambda>(k, v). upsert k v) m acc) = map_of acc ++ map_of (rev m)"
proof (induction m arbitrary: acc)
  case (Cons e m)
  obtain k v where e: "e = (k, v)" by (cases e)
  show ?case
    using Cons.IH[OF upsert_sorted[OF Cons.prems, of k v]]
    by (simp add: e map_of_upsert[OF Cons.prems]) (auto simp: map_add_def fun_eq_iff split: option.split)
qed simp

lemma distinct_map_of_rev: "distinct (map fst m) \<Longrightarrow> map_of (rev m) = map_of m"
  by (rule map_of_eqI) (auto simp: rev_map[symmetric] map_of_eq_Some_iff)

lemma map_of_filter_key: "map_of (filter (\<lambda>(k, v). k \<noteq> a) m) = (map_of m)(a := None)"
  by (induction m) auto

lemma sorted_map_filter: "sorted_map m \<Longrightarrow> sorted_map (filter P m)"
  by (induction m) (auto simp: sorted_map_def)

lemma sorted_map_eq:
  assumes "sorted_map a" "sorted_map b" "map_of a = map_of b"
  shows "a = b"
proof -
  note d = sorted_map_distinct[OF assms(1)] sorted_map_distinct[OF assms(2)]
  have "set a = set b" using map_of_inject_set[OF d] assms(3) by simp
  moreover have "sorted (map fst a)" "sorted (map fst b)"
    using assms(1,2) by (simp_all add: sorted_map_def strict_sorted_iff)
  ultimately show ?thesis
    using d by (metis map_sorted_distinct_set_unique distinct_map Un_absorb)
qed

subsection \<open>Encoding\<close>

text \<open>A field with \<open>omitempty\<close> over a pointer.\<close>

definition ptr_entry :: "string \<Rightarrow> ('b \<Rightarrow> json) \<Rightarrow> 'b option \<Rightarrow> (string \<times> json) list" where
  "ptr_entry k enc v = (case v of None \<Rightarrow> [] | Some x \<Rightarrow> [(k, enc x)])"

definition enc_int :: "int \<Rightarrow> json" where
  "enc_int n = JNumber (FormatInt n)"

definition enc_str_map :: "str_map \<Rightarrow> json" where
  "enc_str_map m = JObject (map (\<lambda>k. (k, JString (map_get m k))) (sorted_list_of_set (dom m)))"

definition enc_ACMProviderHints :: "ACMProviderHints \<Rightarrow> json" where
  "enc_ACMProviderHints h = JObject
     (ptr_entry ''agent_labels'' enc_str_map (ah_AgentLabels h)
      @ ptr_entry ''base_domain'' JString (ah_BaseDomain h)
      @ ptr_entry ''infra_env'' JString (ah_InfraEnv h)
      @ ptr_entry ''platform'' JString (ah_Platform h)
      @ ptr_entry ''release_image'' JString (ah_ReleaseImage h))"

text \<open>\<open>ProviderHints.MarshalJSON\<close>; the object is a map, so an additional \<open>acm\<close> wins over the field.\<close>

definition enc_ProviderHints :: "ProviderHints \<Rightarrow> json" where
  "enc_ProviderHints a =
     (let object = (case ph_Acm a of None \<Rightarrow> [] | Some acm \<Rightarrow> upsert ''acm'' (enc_ACMProviderHints acm) [])
      in JObject (fold (\<lambda>(fieldName, field). upsert fieldName field) (ph_AdditionalProperties a) object))"

definition enc_ControlPlaneSpec :: "ControlPlaneSpec \<Rightarrow> json" where
  "enc_ControlPlaneSpec x = JObject
     (ptr_entry ''count'' enc_int (cp_Count x) @ ptr_entry ''cpu'' enc_int (cp_Cpu x)
      @ ptr_entry ''memory'' JString (cp_Memory x) @ ptr_entry ''storage'' JString (cp_Storage x))"

definition enc_WorkerSpec :: "WorkerSpec \<Rightarrow> json" where
  "enc_WorkerSpec x = JObject
     (ptr_entry ''count'' enc_int (wk_Count x) @ ptr_entry ''cpu'' enc_int (wk_Cpu x)
      @ ptr_entry ''memory'' JString (wk_Memory x) @ ptr_entry ''storage'' JString (wk_Storage x))"

definition enc_ClusterNodes :: "ClusterNodes \<Rightarrow> json" where
  "enc_ClusterNodes x = JObject
     (ptr_entry ''control_plane'' enc_ControlPlaneSpec (cn_ControlPlane x)
      @ ptr_entry ''workers'' enc_WorkerSpec (cn_Workers x))"

definition enc_ClusterMetadata :: "ClusterMetadata \<Rightarrow> json" where
  "enc_ClusterMetadata x = JObject
     (ptr_entry ''labels'' enc_str_map (cm_Labels x) @ [(''name'', JString (cm_Name x))])"

definition enc_ClusterSpec :: "ClusterSpec \<Rightarrow> json" where
  "enc_ClusterSpec x = JObject
     ([(''metadata'', enc_ClusterMetadata (cs_Metadata x))]
      @ ptr_entry ''nodes'' enc_ClusterNodes (cs_Nodes x)
      @ ptr_entry ''provider_hints'' enc_ProviderHints (cs_ProviderHints x)
      @ [(''service_type'', JString (cs_ServiceType x)), (''version'', JString (cs_Version x))])"

text \<open>A time that has no text makes the encoding fail.\<close>

definition time_entry :: "string \<Rightarrow> time option \<Rightarrow> (string \<times> json) list option" where
  "time_entry k v =
     (case v of None \<Rightarrow> Some [] | Some t \<Rightarrow> map_option (\<lambda>s. [(k, JString s)]) (format_time t))"

definition enc_Cluster :: "Cluster \<Rightarrow> json option" where
  "enc_Cluster x =
     (case (time_entry ''create_time'' (cl_CreateTime x), time_entry ''update_time'' (cl_UpdateTime x)) of
        (Some createTime, Some updateTime) \<Rightarrow> Some (JObject
          (ptr_entry ''api_endpoint'' JString (cl_ApiEndpoint x)
           @ ptr_entry ''console_uri'' JString (cl_ConsoleUri x)
           @ createTime
           @ ptr_entry ''id'' JString (cl_Id x)
           @ ptr_entry ''kubeconfig'' JString (cl_Kubeconfig x)
           @ ptr_entry ''path'' JString (cl_Path x)
           @ [(''spec'', enc_ClusterSpec (cl_Spec x))]
           @ ptr_entry ''status'' JString (cl_Status x)
           @ ptr_entry ''status_message'' JString (cl_StatusMessage x)
           @ updateTime))
      | _ \<Rightarrow> None)"

fun enc_each :: "('a \<Rightarrow> json option) \<Rightarrow> 'a list \<Rightarrow> json list option" where
  "enc_each enc [] = Some []"
| "enc_each enc (x # xs) =
     (case enc x of None \<Rightarrow> None | Some j \<Rightarrow> map_option (Cons j) (enc_each enc xs))"

definition enc_ClusterList :: "ClusterList \<Rightarrow> json option" where
  "enc_ClusterList x =
     (case li_Clusters x of
        None \<Rightarrow> Some (JObject (ptr_entry ''next_page_token'' JString (li_NextPageToken x)))
      | Some cls \<Rightarrow>
          map_option (\<lambda>js. JObject ([(''clusters'', JArray js)]
              @ ptr_entry ''next_page_token'' JString (li_NextPageToken x)))
            (enc_each enc_Cluster cls))"

definition enc_Error :: "Error \<Rightarrow> json" where
  "enc_Error x = JObject
     (ptr_entry ''detail'' JString (er_Detail x) @ ptr_entry ''instance'' JString (er_Instance x)
      @ ptr_entry ''status'' enc_int (er_Status x)
      @ [(''title'', JString (er_Title x)), (''type'', JString (error_type_uri (er_Type x)))])"

definition enc_Health :: "Health \<Rightarrow> json" where
  "enc_Health x = JObject
     (ptr_entry ''path'' JString (he_Path x) @ ptr_entry ''status'' JString (he_Status x)
      @ ptr_entry ''type'' JString (he_Type x) @ ptr_entry ''uptime'' enc_int (he_Uptime x)
      @ ptr_entry ''version'' JString (he_Version x))"

subsection \<open>Decoding\<close>

text \<open>
  The key of a member is compared without case: ASCII letters, and the two runes that fold to one,
  the Kelvin sign and the long s.
\<close>

definition upper :: "char \<Rightarrow> char" where
  "upper ch = (if 97 \<le> byte_val ch \<and> byte_val ch \<le> 122 then char_of (byte_val ch - 32) else ch)"

function fold_name :: "string \<Rightarrow> string" where
  "fold_name [] = []"
| "fold_name (ch # s) =
     (if take 3 (ch # s) = utf8_bytes 0x212A then CHR ''K'' # fold_name (drop 2 s)
      else if take 2 (ch # s) = utf8_bytes 0x17F then CHR ''S'' # fold_name (drop 1 s)
      else upper ch # fold_name s)"
  by pat_completeness auto
termination by (relation "measure length") auto

text \<open>A decoder takes the JSON value and the value that is there; \<open>None\<close> is an error.\<close>

type_synonym 'a decoder = "json \<Rightarrow> 'a \<Rightarrow> 'a option"

definition field_of :: "(string \<times> 'a decoder) list \<Rightarrow> string \<Rightarrow> 'a decoder option" where
  "field_of fs k =
     (case map_of fs k of
        Some d \<Rightarrow> Some d
      | None \<Rightarrow> map_of (map (\<lambda>(n, d). (fold_name n, d)) fs) (fold_name k))"

fun dec_fields :: "(string \<times> 'a decoder) list \<Rightarrow> (string \<times> json) list \<Rightarrow> 'a \<Rightarrow> 'a option" where
  "dec_fields fs [] x = Some x"
| "dec_fields fs ((k, j) # kvs) x =
     (case field_of fs k of
        None \<Rightarrow> dec_fields fs kvs x
      | Some d \<Rightarrow> (case d j x of None \<Rightarrow> None | Some x' \<Rightarrow> dec_fields fs kvs x'))"

definition dec_struct :: "(string \<times> 'a decoder) list \<Rightarrow> 'a decoder" where
  "dec_struct fs j x =
     (case j of JObject kvs \<Rightarrow> dec_fields fs kvs x | JNull \<Rightarrow> Some x | _ \<Rightarrow> None)"

text \<open>A field that holds a value, and one that holds a pointer; \<open>zero\<close> is what a new pointer points to.\<close>

definition val_field :: "('a \<Rightarrow> 'b) \<Rightarrow> ('b \<Rightarrow> 'a \<Rightarrow> 'a) \<Rightarrow> 'b decoder \<Rightarrow> 'a decoder" where
  "val_field get put d j x = map_option (\<lambda>v. put v x) (d j (get x))"

definition dec_ptr :: "'b \<Rightarrow> 'b decoder \<Rightarrow> 'b option decoder" where
  "dec_ptr zero d j v =
     (if j = JNull then Some None
      else map_option Some (d j (case v of None \<Rightarrow> zero | Some x \<Rightarrow> x)))"

definition ptr_field ::
  "('a \<Rightarrow> 'b option) \<Rightarrow> ('b option \<Rightarrow> 'a \<Rightarrow> 'a) \<Rightarrow> 'b \<Rightarrow> 'b decoder \<Rightarrow> 'a decoder" where
  "ptr_field get put zero d = val_field get put (dec_ptr zero d)"

definition dec_string :: "string decoder" where
  "dec_string j s = (case j of JString t \<Rightarrow> Some t | JNull \<Rightarrow> Some s | _ \<Rightarrow> None)"

definition dec_int :: "int decoder" where
  "dec_int j n = (case j of JNumber t \<Rightarrow> Atoi t | JNull \<Rightarrow> Some n | _ \<Rightarrow> None)"

definition dec_int32 :: "int decoder" where
  "dec_int32 j n =
     (case j of
        JNumber t \<Rightarrow> (case Atoi t of Some m \<Rightarrow> if to_int32 m = m then Some m else None | None \<Rightarrow> None)
      | JNull \<Rightarrow> Some n
      | _ \<Rightarrow> None)"

definition dec_time :: "time decoder" where
  "dec_time j t = (case j of JString s \<Rightarrow> parse_time s | JNull \<Rightarrow> Some t | _ \<Rightarrow> None)"

text \<open>A \<open>map[string]string\<close> that is there keeps its entries; each value starts from the empty string.\<close>

fun dec_str_entries :: "(string \<times> json) list \<Rightarrow> str_map \<Rightarrow> str_map option" where
  "dec_str_entries [] m = Some m"
| "dec_str_entries ((k, j) # kvs) m =
     (case dec_string j [] of None \<Rightarrow> None | Some v \<Rightarrow> dec_str_entries kvs (m(k \<mapsto> v)))"

definition dec_str_map :: "str_map decoder" where
  "dec_str_map j m =
     (case j of JObject kvs \<Rightarrow> dec_str_entries kvs m | JNull \<Rightarrow> Some Map.empty | _ \<Rightarrow> None)"

text \<open>Decoding into an \<open>interface{}\<close>: an object becomes a map, so the last of equal keys counts.\<close>

fun dec_any :: "(string \<Rightarrow> string option) \<Rightarrow> json \<Rightarrow> json option"
  and dec_any_elems :: "(string \<Rightarrow> string option) \<Rightarrow> json list \<Rightarrow> json list option"
  and dec_any_members ::
    "(string \<Rightarrow> string option) \<Rightarrow> (string \<times> json) list \<Rightarrow> (string \<times> json) list \<Rightarrow> (string \<times> json) list option" where
  "dec_any fnum JNull = Some JNull"
| "dec_any fnum (JBool b) = Some (JBool b)"
| "dec_any fnum (JNumber s) = map_option JNumber (fnum s)"
| "dec_any fnum (JString s) = Some (JString s)"
| "dec_any fnum (JArray js) = map_option JArray (dec_any_elems fnum js)"
| "dec_any fnum (JObject kvs) = map_option JObject (dec_any_members fnum kvs [])"
| "dec_any_elems fnum [] = Some []"
| "dec_any_elems fnum (j # js) =
     (case dec_any fnum j of None \<Rightarrow> None | Some v \<Rightarrow> map_option (Cons v) (dec_any_elems fnum js))"
| "dec_any_members fnum [] m = Some m"
| "dec_any_members fnum ((k, j) # kvs) m =
     (case dec_any fnum j of None \<Rightarrow> None | Some v \<Rightarrow> dec_any_members fnum kvs (upsert k v m))"

definition ACMProviderHints_fields :: "(string \<times> ACMProviderHints decoder) list" where
  "ACMProviderHints_fields =
     [(''agent_labels'', ptr_field ah_AgentLabels (\<lambda>v x. x\<lparr>ah_AgentLabels := v\<rparr>) Map.empty dec_str_map),
      (''base_domain'', ptr_field ah_BaseDomain (\<lambda>v x. x\<lparr>ah_BaseDomain := v\<rparr>) [] dec_string),
      (''infra_env'', ptr_field ah_InfraEnv (\<lambda>v x. x\<lparr>ah_InfraEnv := v\<rparr>) [] dec_string),
      (''platform'', ptr_field ah_Platform (\<lambda>v x. x\<lparr>ah_Platform := v\<rparr>) [] dec_string),
      (''release_image'', ptr_field ah_ReleaseImage (\<lambda>v x. x\<lparr>ah_ReleaseImage := v\<rparr>) [] dec_string)]"

definition zero_ACMProviderHints :: ACMProviderHints where
  "zero_ACMProviderHints = \<lparr>ah_AgentLabels = None, ah_BaseDomain = None, ah_InfraEnv = None,
     ah_Platform = None, ah_ReleaseImage = None\<rparr>"

definition dec_ACMProviderHints :: "ACMProviderHints decoder" where
  "dec_ACMProviderHints = dec_struct ACMProviderHints_fields"

text \<open>\<open>ProviderHints.UnmarshalJSON\<close>: \<open>acm\<close> by its exact name, every other member is additional.\<close>

definition dec_ProviderHints :: "(string \<Rightarrow> string option) \<Rightarrow> ProviderHints decoder" where
  "dec_ProviderHints fnum j a =
     (case j of
        JNull \<Rightarrow> Some a
      | JObject kvs \<Rightarrow>
          let object = fold (\<lambda>(k, v). upsert k v) kvs [] in
          (case (case map_of object ''acm'' of
               None \<Rightarrow> Some a
             | Some raw \<Rightarrow>
                 map_option (\<lambda>v. a\<lparr>ph_Acm := v\<rparr>) (dec_ptr zero_ACMProviderHints dec_ACMProviderHints raw (ph_Acm a))) of
             None \<Rightarrow> None
           | Some a' \<Rightarrow>
               let object = filter (\<lambda>(k, v). k \<noteq> ''acm'') object in
               if object = [] then Some a'
               else map_option (\<lambda>m. a'\<lparr>ph_AdditionalProperties := m\<rparr>) (dec_any_members fnum object []))
      | _ \<Rightarrow> None)"

definition hints_Get :: "ProviderHints \<Rightarrow> string \<Rightarrow> json option" where
  "hints_Get a fieldName = map_of (ph_AdditionalProperties a) fieldName"

definition hints_Set :: "string \<Rightarrow> json \<Rightarrow> ProviderHints \<Rightarrow> ProviderHints" where
  "hints_Set fieldName v a = a\<lparr>ph_AdditionalProperties := upsert fieldName v (ph_AdditionalProperties a)\<rparr>"

definition ControlPlaneSpec_fields :: "(string \<times> ControlPlaneSpec decoder) list" where
  "ControlPlaneSpec_fields =
     [(''count'', ptr_field cp_Count (\<lambda>v x. x\<lparr>cp_Count := v\<rparr>) 0 dec_int),
      (''cpu'', ptr_field cp_Cpu (\<lambda>v x. x\<lparr>cp_Cpu := v\<rparr>) 0 dec_int),
      (''memory'', ptr_field cp_Memory (\<lambda>v x. x\<lparr>cp_Memory := v\<rparr>) [] dec_string),
      (''storage'', ptr_field cp_Storage (\<lambda>v x. x\<lparr>cp_Storage := v\<rparr>) [] dec_string)]"

definition zero_ControlPlaneSpec :: ControlPlaneSpec where
  "zero_ControlPlaneSpec = \<lparr>cp_Count = None, cp_Cpu = None, cp_Memory = None, cp_Storage = None\<rparr>"

definition WorkerSpec_fields :: "(string \<times> WorkerSpec decoder) list" where
  "WorkerSpec_fields =
     [(''count'', ptr_field wk_Count (\<lambda>v x. x\<lparr>wk_Count := v\<rparr>) 0 dec_int),
      (''cpu'', ptr_field wk_Cpu (\<lambda>v x. x\<lparr>wk_Cpu := v\<rparr>) 0 dec_int),
      (''memory'', ptr_field wk_Memory (\<lambda>v x. x\<lparr>wk_Memory := v\<rparr>) [] dec_string),
      (''storage'', ptr_field wk_Storage (\<lambda>v x. x\<lparr>wk_Storage := v\<rparr>) [] dec_string)]"

definition zero_WorkerSpec :: WorkerSpec where
  "zero_WorkerSpec = \<lparr>wk_Count = None, wk_Cpu = None, wk_Memory = None, wk_Storage = None\<rparr>"

definition ClusterNodes_fields :: "(string \<times> ClusterNodes decoder) list" where
  "ClusterNodes_fields =
     [(''control_plane'', ptr_field cn_ControlPlane (\<lambda>v x. x\<lparr>cn_ControlPlane := v\<rparr>) zero_ControlPlaneSpec
         (dec_struct ControlPlaneSpec_fields)),
      (''workers'', ptr_field cn_Workers (\<lambda>v x. x\<lparr>cn_Workers := v\<rparr>) zero_WorkerSpec
         (dec_struct WorkerSpec_fields))]"

definition zero_ClusterNodes :: ClusterNodes where
  "zero_ClusterNodes = \<lparr>cn_ControlPlane = None, cn_Workers = None\<rparr>"

definition ClusterMetadata_fields :: "(string \<times> ClusterMetadata decoder) list" where
  "ClusterMetadata_fields =
     [(''labels'', ptr_field cm_Labels (\<lambda>v x. x\<lparr>cm_Labels := v\<rparr>) Map.empty dec_str_map),
      (''name'', val_field cm_Name (\<lambda>v x. x\<lparr>cm_Name := v\<rparr>) dec_string)]"

definition zero_ClusterMetadata :: ClusterMetadata where
  "zero_ClusterMetadata = \<lparr>cm_Labels = None, cm_Name = []\<rparr>"

definition ClusterSpec_fields :: "(string \<Rightarrow> string option) \<Rightarrow> (string \<times> ClusterSpec decoder) list" where
  "ClusterSpec_fields fnum =
     [(''metadata'', val_field cs_Metadata (\<lambda>v x. x\<lparr>cs_Metadata := v\<rparr>) (dec_struct ClusterMetadata_fields)),
      (''nodes'', ptr_field cs_Nodes (\<lambda>v x. x\<lparr>cs_Nodes := v\<rparr>) zero_ClusterNodes (dec_struct ClusterNodes_fields)),
      (''provider_hints'', ptr_field cs_ProviderHints (\<lambda>v x. x\<lparr>cs_ProviderHints := v\<rparr>)
         \<lparr>ph_Acm = None, ph_AdditionalProperties = []\<rparr> (dec_ProviderHints fnum)),
      (''service_type'', val_field cs_ServiceType (\<lambda>v x. x\<lparr>cs_ServiceType := v\<rparr>) dec_string),
      (''version'', val_field cs_Version (\<lambda>v x. x\<lparr>cs_Version := v\<rparr>) dec_string)]"

definition zero_ClusterSpec :: ClusterSpec where
  "zero_ClusterSpec = \<lparr>cs_Metadata = zero_ClusterMetadata, cs_Nodes = None, cs_ProviderHints = None,
     cs_ServiceType = [], cs_Version = []\<rparr>"

definition Cluster_fields :: "(string \<Rightarrow> string option) \<Rightarrow> (string \<times> Cluster decoder) list" where
  "Cluster_fields fnum =
     [(''api_endpoint'', ptr_field cl_ApiEndpoint (\<lambda>v x. x\<lparr>cl_ApiEndpoint := v\<rparr>) [] dec_string),
      (''console_uri'', ptr_field cl_ConsoleUri (\<lambda>v x. x\<lparr>cl_ConsoleUri := v\<rparr>) [] dec_string),
      (''create_time'', ptr_field cl_CreateTime (\<lambda>v x. x\<lparr>cl_CreateTime := v\<rparr>) 0 dec_time),
      (''id'', ptr_field cl_Id (\<lambda>v x. x\<lparr>cl_Id := v\<rparr>) [] dec_string),
      (''kubeconfig'', ptr_field cl_Kubeconfig (\<lambda>v x. x\<lparr>cl_Kubeconfig := v\<rparr>) [] dec_string),
      (''path'', ptr_field cl_Path (\<lambda>v x. x\<lparr>cl_Path := v\<rparr>) [] dec_string),
      (''spec'', val_field cl_Spec (\<lambda>v x. x\<lparr>cl_Spec := v\<rparr>) (dec_struct (ClusterSpec_fields fnum))),
      (''status'', ptr_field cl_Status (\<lambda>v x. x\<lparr>cl_Status := v\<rparr>) [] dec_string),
      (''status_message'', ptr_field cl_StatusMessage (\<lambda>v x. x\<lparr>cl_StatusMessage := v\<rparr>) [] dec_string),
      (''update_time'', ptr_field cl_UpdateTime (\<lambda>v x. x\<lparr>cl_UpdateTime := v\<rparr>) 0 dec_time)]"

definition zero_Cluster :: Cluster where
  "zero_Cluster = \<lparr>cl_ApiEndpoint = None, cl_ConsoleUri = None, cl_CreateTime = None, cl_Id = None,
     cl_Kubeconfig = None, cl_Path = None, cl_Spec = zero_ClusterSpec, cl_Status = None,
     cl_StatusMessage = None, cl_UpdateTime = None\<rparr>"

definition dec_Cluster :: "(string \<Rightarrow> string option) \<Rightarrow> Cluster decoder" where
  "dec_Cluster fnum = dec_struct (Cluster_fields fnum)"

text \<open>Elements of a slice that is there are decoded into, new ones start from the zero value.\<close>

fun dec_slice :: "'a \<Rightarrow> 'a decoder \<Rightarrow> json list \<Rightarrow> 'a list \<Rightarrow> 'a list option" where
  "dec_slice zero d [] xs = Some []"
| "dec_slice zero d (j # js) xs =
     (case d j (case xs of [] \<Rightarrow> zero | x # _ \<Rightarrow> x) of
        None \<Rightarrow> None
      | Some x' \<Rightarrow> map_option (Cons x') (dec_slice zero d js (tl xs)))"

definition dec_Clusters :: "(string \<Rightarrow> string option) \<Rightarrow> Cluster list decoder" where
  "dec_Clusters fnum j xs =
     (case j of JArray js \<Rightarrow> dec_slice zero_Cluster (dec_Cluster fnum) js xs | JNull \<Rightarrow> Some [] | _ \<Rightarrow> None)"

definition ClusterList_fields :: "(string \<Rightarrow> string option) \<Rightarrow> (string \<times> ClusterList decoder) list" where
  "ClusterList_fields fnum =
     [(''clusters'', ptr_field li_Clusters (\<lambda>v x. x\<lparr>li_Clusters := v\<rparr>) [] (dec_Clusters fnum)),
      (''next_page_token'', ptr_field li_NextPageToken (\<lambda>v x. x\<lparr>li_NextPageToken := v\<rparr>) [] dec_string)]"

definition zero_ClusterList :: ClusterList where
  "zero_ClusterList = \<lparr>li_Clusters = None, li_NextPageToken = None\<rparr>"

definition dec_ClusterList :: "(string \<Rightarrow> string option) \<Rightarrow> ClusterList decoder" where
  "dec_ClusterList fnum = dec_struct (ClusterList_fields fnum)"

definition known_types :: "ErrorType list" where
  "known_types =
     [ErrorTypeALREADYEXISTS, ErrorTypeINTERNAL, ErrorTypeINVALIDARGUMENT, ErrorTypeNOTFOUND,
      ErrorTypePERMISSIONDENIED, ErrorTypeUNAUTHENTICATED, ErrorTypeUNAVAILABLE, ErrorTypeUNPROCESSABLEENTITY]"

text \<open>An error type is a string type, its constants are shown as constructors.\<close>

definition ErrorType_of :: "string \<Rightarrow> ErrorType" where
  "ErrorType_of s =
     (case find (\<lambda>t. error_type_uri t = s) known_types of Some t \<Rightarrow> t | None \<Rightarrow> ErrorTypeOther s)"

definition dec_ErrorType :: "ErrorType decoder" where
  "dec_ErrorType j t = map_option ErrorType_of (dec_string j (error_type_uri t))"

definition Error_fields :: "(string \<times> Error decoder) list" where
  "Error_fields =
     [(''detail'', ptr_field er_Detail (\<lambda>v x. x\<lparr>er_Detail := v\<rparr>) [] dec_string),
      (''instance'', ptr_field er_Instance (\<lambda>v x. x\<lparr>er_Instance := v\<rparr>) [] dec_string),
      (''status'', ptr_field er_Status (\<lambda>v x. x\<lparr>er_Status := v\<rparr>) 0 dec_int32),
      (''title'', val_field er_Title (\<lambda>v x. x\<lparr>er_Title := v\<rparr>) dec_string),
      (''type'', val_field er_Type (\<lambda>v x. x\<lparr>er_Type := v\<rparr>) dec_ErrorType)]"

definition zero_Error :: Error where
  "zero_Error = \<lparr>er_Type = ErrorTypeOther [], er_Title = [], er_Status = None, er_Detail = None, er_Instance = None\<rparr>"

definition dec_Error :: "Error decoder" where
  "dec_Error = dec_struct Error_fields"

definition Health_fields :: "(string \<times> Health decoder) list" where
  "Health_fields =
     [(''path'', ptr_field he_Path (\<lambda>v x. x\<lparr>he_Path := v\<rparr>) [] dec_string),
      (''status'', ptr_field he_Status (\<lambda>v x. x\<lparr>he_Status := v\<rparr>) [] dec_string),
      (''type'', ptr_field he_Type (\<lambda>v x. x\<lparr>he_Type := v\<rparr>) [] dec_string),
      (''uptime'', ptr_field he_Uptime (\<lambda>v x. x\<lparr>he_Uptime := v\<rparr>) 0 dec_int),
      (''version'', ptr_field he_Version (\<lambda>v x. x\<lparr>he_Version := v\<rparr>) [] dec_string)]"

definition zero_Health :: Health where
  "zero_Health = \<lparr>he_Path = None, he_Status = None, he_Type = None, he_Uptime = None, he_Version = None\<rparr>"

definition dec_Health :: "Health decoder" where
  "dec_Health = dec_struct Health_fields"

text \<open>
  \<open>json.Unmarshal(data, &x)\<close> and a value converted by a round trip through its JSON text: \<open>from\<close> and
  \<open>into\<close> name the two structs in the errors, and \<open>decErr\<close> gives the decoder's error for a text it refuses.
\<close>

definition unmarshal_into :: "'a decoder \<Rightarrow> 'a \<Rightarrow> string \<Rightarrow> 'a option" where
  "unmarshal_into d x s = (case Unmarshal s of None \<Rightarrow> None | Some j \<Rightarrow> d j x)"

definition json_convert ::
  "('a \<Rightarrow> json option) \<Rightarrow> 'a decoder \<Rightarrow> 'a \<Rightarrow> (string \<Rightarrow> go_error) \<Rightarrow> string \<Rightarrow> string \<Rightarrow> 'a \<Rightarrow> go_error + 'a" where
  "json_convert enc d zero decErr from into x =
     (case enc x of
        None \<Rightarrow> Inl (marshal_error from)
      | Some j \<Rightarrow>
          (case unmarshal_into d zero (print_json j) of
             None \<Rightarrow>
               (let err = decErr (print_json j)
                in Inl (Wrapped (''unmarshal '' @ into @ '': '' @ error_text err) err))
           | Some y \<Rightarrow> Inr y))"

subsection \<open>Enumerations and accessors\<close>

definition ACMProviderHintsPlatform_Valid :: "string \<Rightarrow> bool" where
  "ACMProviderHintsPlatform_Valid e \<longleftrightarrow> e = Baremetal \<or> e = Kubevirt"

definition ClusterStatus_Valid :: "string \<Rightarrow> bool" where
  "ClusterStatus_Valid e \<longleftrightarrow> e \<in> set (map status_string
     [DELETED, DELETING, FAILED, PENDING, PROVISIONING, READY, UNAVAILABLE])"

definition ClusterSpecServiceType_Valid :: "string \<Rightarrow> bool" where
  "ClusterSpecServiceType_Valid e \<longleftrightarrow> e = ClusterSpecServiceTypeCluster"

definition ControlPlaneSpecCount_Valid :: "int \<Rightarrow> bool" where
  "ControlPlaneSpecCount_Valid e \<longleftrightarrow> e = 1 \<or> e = 3 \<or> e = 5"

definition ErrorType_Valid :: "string \<Rightarrow> bool" where
  "ErrorType_Valid e \<longleftrightarrow> e \<in> set (map error_type_uri known_types)"

end
