(* ===== verification/ApiJsonLaws.thy ===== *)
theory ApiJsonLaws
  imports ApiJson
begin

text \<open>
  What the JSON codec of \<open>ApiJson\<close> does: values that are encoded and decoded come back, decoded values
  are well-typed, and the handler's conversions are such round trips.
\<close>

subsection \<open>Well-typed values\<close>

text \<open>
  What Go's types say and the model's do not: integers of 64 bits, finite maps, and additional
  properties as a decoder leaves them, with sorted objects and printed floats.
\<close>

fun canonical :: "(string \<Rightarrow> string option) \<Rightarrow> json \<Rightarrow> bool" where
  "canonical fnum JNull = True"
| "canonical fnum (JBool b) = True"
| "canonical fnum (JNumber s) = (fnum s = Some s)"
| "canonical fnum (JString s) = True"
| "canonical fnum (JArray js) = (\<forall>j \<in> set js. canonical fnum j)"
| "canonical fnum (JObject kvs) = (sorted_map kvs \<and> (\<forall>kv \<in> set kvs. canonical fnum (snd kv)))"

definition opt_all :: "('a \<Rightarrow> bool) \<Rightarrow> 'a option \<Rightarrow> bool" where
  "opt_all P v \<longleftrightarrow> (case v of None \<Rightarrow> True | Some x \<Rightarrow> P x)"

lemma opt_all_simps [simp]: "opt_all P None" "opt_all P (Some x) = P x" "opt_all (\<lambda>_. True) v"
  by (simp_all add: opt_all_def split: option.split)

definition finite_map :: "str_map \<Rightarrow> bool" where
  "finite_map m \<longleftrightarrow> finite (dom m)"

definition wf_ACMProviderHints :: "ACMProviderHints \<Rightarrow> bool" where
  "wf_ACMProviderHints h \<longleftrightarrow> opt_all finite_map (ah_AgentLabels h)"

definition wf_ProviderHints :: "(string \<Rightarrow> string option) \<Rightarrow> ProviderHints \<Rightarrow> bool" where
  "wf_ProviderHints fnum a \<longleftrightarrow> opt_all wf_ACMProviderHints (ph_Acm a)
     \<and> canonical fnum (JObject (ph_AdditionalProperties a)) \<and> ''acm'' \<notin> fst ` set (ph_AdditionalProperties a)"

definition wf_ControlPlaneSpec :: "ControlPlaneSpec \<Rightarrow> bool" where
  "wf_ControlPlaneSpec x \<longleftrightarrow> opt_all in_int64 (cp_Count x) \<and> opt_all in_int64 (cp_Cpu x)"

definition wf_WorkerSpec :: "WorkerSpec \<Rightarrow> bool" where
  "wf_WorkerSpec x \<longleftrightarrow> opt_all in_int64 (wk_Count x) \<and> opt_all in_int64 (wk_Cpu x)"

definition wf_ClusterNodes :: "ClusterNodes \<Rightarrow> bool" where
  "wf_ClusterNodes x \<longleftrightarrow> opt_all wf_ControlPlaneSpec (cn_ControlPlane x) \<and> opt_all wf_WorkerSpec (cn_Workers x)"

definition wf_ClusterMetadata :: "ClusterMetadata \<Rightarrow> bool" where
  "wf_ClusterMetadata x \<longleftrightarrow> opt_all finite_map (cm_Labels x)"

definition wf_ClusterSpec :: "(string \<Rightarrow> string option) \<Rightarrow> ClusterSpec \<Rightarrow> bool" where
  "wf_ClusterSpec fnum x \<longleftrightarrow> wf_ClusterMetadata (cs_Metadata x) \<and> opt_all wf_ClusterNodes (cs_Nodes x)
     \<and> opt_all (wf_ProviderHints fnum) (cs_ProviderHints x)"

definition wf_Cluster :: "(string \<Rightarrow> string option) \<Rightarrow> Cluster \<Rightarrow> bool" where
  "wf_Cluster fnum x \<longleftrightarrow> wf_ClusterSpec fnum (cl_Spec x)"

definition wf_ClusterList :: "(string \<Rightarrow> string option) \<Rightarrow> ClusterList \<Rightarrow> bool" where
  "wf_ClusterList fnum x \<longleftrightarrow> opt_all (list_all (wf_Cluster fnum)) (li_Clusters x)"

definition wf_Error :: "Error \<Rightarrow> bool" where
  "wf_Error x \<longleftrightarrow> opt_all (\<lambda>n. to_int32 n = n) (er_Status x) \<and> ErrorType_of (error_type_uri (er_Type x)) = er_Type x"

definition wf_Health :: "Health \<Rightarrow> bool" where
  "wf_Health x \<longleftrightarrow> opt_all in_int64 (he_Uptime x)"

lemmas wf_defs = wf_ACMProviderHints_def wf_ProviderHints_def wf_ControlPlaneSpec_def wf_WorkerSpec_def
  wf_ClusterNodes_def wf_ClusterMetadata_def wf_ClusterSpec_def wf_Cluster_def wf_ClusterList_def
  wf_Error_def wf_Health_def

subsection \<open>Decoding what was encoded\<close>

text \<open>An encoder and a decoder agree on a value that may be absent.\<close>

definition reads_back :: "('b \<Rightarrow> json) \<Rightarrow> 'b decoder \<Rightarrow> 'b \<Rightarrow> 'b option \<Rightarrow> bool" where
  "reads_back e d zero v \<longleftrightarrow> opt_all (\<lambda>y. e y \<noteq> JNull \<and> d (e y) zero = Some y) v"

definition entry_step :: "'a decoder \<Rightarrow> ('b \<Rightarrow> json) \<Rightarrow> 'b option \<Rightarrow> 'a decoder" where
  "entry_step fd e v j x = (case v of None \<Rightarrow> Some x | Some y \<Rightarrow> fd (e y) x)"

lemma dec_fields_entry:
  "dec_fields fs (ptr_entry k e v @ r) x =
     (case field_of fs k of
        None \<Rightarrow> dec_fields fs r x
      | Some fd \<Rightarrow> (case entry_step fd e v JNull x of None \<Rightarrow> None | Some x' \<Rightarrow> dec_fields fs r x'))"
  "dec_fields fs (ptr_entry k e v) x =
     (case field_of fs k of None \<Rightarrow> Some x | Some fd \<Rightarrow> entry_step fd e v JNull x)"
  by (auto simp: ptr_entry_def entry_step_def split: option.splits)

lemma entry_step_reads [simp]:
  "reads_back e d zero v \<Longrightarrow> get x = None \<Longrightarrow> put None x = x \<Longrightarrow>
   entry_step (ptr_field get put zero d) e v j x = Some (put v x)"
  by (cases v) (auto simp: entry_step_def ptr_field_def val_field_def dec_ptr_def reads_back_def)

lemma reads_leaf [simp]:
  "reads_back JString dec_string z v"
  "opt_all in_int64 n \<Longrightarrow> reads_back enc_int dec_int i n"
  "opt_all (\<lambda>n. to_int32 n = n) n \<Longrightarrow> reads_back enc_int dec_int32 i n"
proof -
  show "reads_back JString dec_string z v" by (cases v) (auto simp: reads_back_def dec_string_def)
  show "opt_all in_int64 n \<Longrightarrow> reads_back enc_int dec_int i n"
    by (cases n) (auto simp: reads_back_def dec_int_def enc_int_def Atoi_FormatInt)
  have "in_int64 m" if "to_int32 m = m" for m
    using to_int32_range[of m] that by (simp add: in_int64_def)
  then show "opt_all (\<lambda>n. to_int32 n = n) n \<Longrightarrow> reads_back enc_int dec_int32 i n"
    by (cases n) (auto simp: reads_back_def dec_int32_def enc_int_def Atoi_FormatInt)
qed

text \<open>Maps of strings.\<close>

lemma dec_str_entries_list:
  "dec_str_entries (map (\<lambda>k. (k, JString (f k))) ks) m = Some (m ++ map_of (map (\<lambda>k. (k, f k)) (rev ks)))"
proof (induction ks arbitrary: m)
  case (Cons k ks)
  then show ?case by (simp add: dec_string_def) (simp add: map_add_def fun_eq_iff split: option.split)
qed simp

lemma str_map_back: "finite_map m \<Longrightarrow> dec_str_map (enc_str_map m) Map.empty = Some m"
proof -
  assume m: "finite_map m"
  define ks where "ks = sorted_list_of_set (dom m)"
  have ks: "set (rev ks) = dom m" using m by (simp add: ks_def finite_map_def)
  have "map_of (map (\<lambda>k. (k, map_get m k)) (rev ks)) = m"
  proof
    fix k show "map_of (map (\<lambda>k. (k, map_get m k)) (rev ks)) k = m k"
      using ks by (cases "m k") (auto simp: map_of_map_restrict restrict_map_def map_get_def)
  qed
  then show "dec_str_map (enc_str_map m) Map.empty = Some m"
    by (simp add: dec_str_map_def enc_str_map_def ks_def[symmetric] dec_str_entries_list)
qed

lemma reads_str_map [simp]: "opt_all finite_map v \<Longrightarrow> reads_back enc_str_map dec_str_map Map.empty v"
  by (cases v) (auto simp: reads_back_def str_map_back, simp add: enc_str_map_def)

lemma field_of_known [simp]: "map_of fs k = Some d \<Longrightarrow> field_of fs k = Some d"
  by (simp add: field_of_def)

lemma dec_struct_JObject [simp]: "dec_struct fs (JObject kvs) x = dec_fields fs kvs x"
  by (simp add: dec_struct_def)

lemmas struct_defs = dec_fields_entry

lemma ACMProviderHints_back:
  "wf_ACMProviderHints h \<Longrightarrow> dec_ACMProviderHints (enc_ACMProviderHints h) zero_ACMProviderHints = Some h"
  by (simp add: dec_ACMProviderHints_def enc_ACMProviderHints_def struct_defs ACMProviderHints_fields_def
      zero_ACMProviderHints_def wf_defs)

lemma canonical_back:
  "canonical fnum j \<Longrightarrow> dec_any fnum j = Some j"
  "(\<And>j. j \<in> set js \<Longrightarrow> canonical fnum j) \<Longrightarrow> dec_any_elems fnum js = Some js"
  "(\<And>kv. kv \<in> set kvs \<Longrightarrow> canonical fnum (snd kv)) \<Longrightarrow> sorted_map (acc @ kvs) \<Longrightarrow>
     dec_any_members fnum kvs acc = Some (acc @ kvs)"
proof (induction fnum j and fnum js and fnum kvs acc rule: dec_any_dec_any_elems_dec_any_members.induct)
  case (10 fnum k j kvs m)
  have "dec_any fnum j = Some j" using 10(1,3) by force
  moreover have "upsert k j m = m @ [(k, j)]"
    by (rule upsert_last) (use 10(4) in \<open>auto simp: sorted_map_def sorted_wrt_append\<close>)
  ultimately show ?case using 10 by simp
qed simp_all

lemma ProviderHints_back:
  assumes "wf_ProviderHints fnum a"
  shows "dec_ProviderHints fnum (enc_ProviderHints a) \<lparr>ph_Acm = None, ph_AdditionalProperties = []\<rparr> = Some a"
proof -
  let ?z = "\<lparr>ph_Acm = None, ph_AdditionalProperties = []\<rparr>"
  define props where "props = ph_AdditionalProperties a"
  define front where "front = (case ph_Acm a of None \<Rightarrow> [] | Some acm \<Rightarrow> [(''acm'', enc_ACMProviderHints acm)])"
  define object where "object = fold (\<lambda>(k, v). upsert k v) props front"
  have wf: "opt_all wf_ACMProviderHints (ph_Acm a)" "sorted_map props" "\<And>kv. kv \<in> set props \<Longrightarrow> canonical fnum (snd kv)"
    "''acm'' \<notin> fst ` set props"
    using assms by (auto simp: wf_ProviderHints_def props_def)
  have so: "sorted_map object" unfolding object_def
    by (rule fold_upsert_keeps) (simp add: front_def sorted_map_def split: option.split)
  have enc: "enc_ProviderHints a = JObject object"
    by (simp add: enc_ProviderHints_def object_def props_def front_def split: option.split)
  have same: "fold (\<lambda>(k, v). upsert k v) object [] = object" using fold_upsert_sorted[of "[]" object] so by simp
  have keys: "map_of object ''acm'' = map_of front ''acm'' \<and> filter (\<lambda>(k, v). k \<noteq> ''acm'') object = props"
  proof
    have props: "map_of (rev props) = map_of props"
      using wf(2) by (simp add: sorted_map_distinct distinct_map_of_rev)
    have m: "map_of object = map_of front ++ map_of props"
      unfolding object_def by (subst map_of_fold_upsert) (auto simp: front_def sorted_map_def props split: option.split)
    have no: "map_of props ''acm'' = None" using wf(4) by (simp add: map_of_eq_None_iff)
    then show "map_of object ''acm'' = map_of front ''acm''" by (simp add: m map_add_def)
    have "map_of (filter (\<lambda>(k, v). k \<noteq> ''acm'') object) = map_of props"
      using no by (auto simp: map_of_filter_key m map_add_def front_def fun_eq_iff split: option.split)
    then show "filter (\<lambda>(k, v). k \<noteq> ''acm'') object = props"
      by (intro sorted_map_eq sorted_map_filter so wf(2))
  qed
  have "dec_any_members fnum props [] = Some props" using canonical_back(3)[of props fnum "[]"] wf by simp
  moreover have "dec_ptr zero_ACMProviderHints dec_ACMProviderHints (enc_ACMProviderHints acm) None = Some (Some acm)"
    if "ph_Acm a = Some acm" for acm
  proof -
    have "enc_ACMProviderHints acm \<noteq> JNull" by (simp add: enc_ACMProviderHints_def)
    then show ?thesis using ACMProviderHints_back[of acm] wf(1) that by (simp add: dec_ptr_def)
  qed
  ultimately show ?thesis
    using keys unfolding enc
    by (cases "ph_Acm a"; cases "props = []")
      (auto simp: dec_ProviderHints_def same front_def props_def[symmetric] Let_def intro: ProviderHints.equality)
qed

lemma reads_hints [simp]:
  "opt_all (wf_ProviderHints fnum) v \<Longrightarrow>
   reads_back enc_ProviderHints (dec_ProviderHints fnum) \<lparr>ph_Acm = None, ph_AdditionalProperties = []\<rparr> v"
  by (cases v) (auto simp: reads_back_def ProviderHints_back, simp add: enc_ProviderHints_def Let_def)

lemma ControlPlaneSpec_back:
  "wf_ControlPlaneSpec x \<Longrightarrow> dec_struct ControlPlaneSpec_fields (enc_ControlPlaneSpec x) zero_ControlPlaneSpec = Some x"
  by (simp add: enc_ControlPlaneSpec_def struct_defs ControlPlaneSpec_fields_def zero_ControlPlaneSpec_def wf_defs)

lemma WorkerSpec_back:
  "wf_WorkerSpec x \<Longrightarrow> dec_struct WorkerSpec_fields (enc_WorkerSpec x) zero_WorkerSpec = Some x"
  by (simp add: enc_WorkerSpec_def struct_defs WorkerSpec_fields_def zero_WorkerSpec_def wf_defs)

lemma reads_specs [simp]:
  "opt_all wf_ControlPlaneSpec v \<Longrightarrow> reads_back enc_ControlPlaneSpec (dec_struct ControlPlaneSpec_fields) zero_ControlPlaneSpec v"
  "opt_all wf_WorkerSpec w \<Longrightarrow> reads_back enc_WorkerSpec (dec_struct WorkerSpec_fields) zero_WorkerSpec w"
proof -
  have "enc_ControlPlaneSpec x \<noteq> JNull" "enc_WorkerSpec y \<noteq> JNull" for x y
    by (simp_all add: enc_ControlPlaneSpec_def enc_WorkerSpec_def)
  then show
    "opt_all wf_ControlPlaneSpec v \<Longrightarrow> reads_back enc_ControlPlaneSpec (dec_struct ControlPlaneSpec_fields) zero_ControlPlaneSpec v"
    "opt_all wf_WorkerSpec w \<Longrightarrow> reads_back enc_WorkerSpec (dec_struct WorkerSpec_fields) zero_WorkerSpec w"
    by (cases v; cases w; simp add: reads_back_def ControlPlaneSpec_back WorkerSpec_back)+
qed

lemma ClusterNodes_back:
  "wf_ClusterNodes x \<Longrightarrow> dec_struct ClusterNodes_fields (enc_ClusterNodes x) zero_ClusterNodes = Some x"
  by (simp add: enc_ClusterNodes_def struct_defs ClusterNodes_fields_def zero_ClusterNodes_def wf_ClusterNodes_def)

lemma reads_nodes [simp]:
  "opt_all wf_ClusterNodes v \<Longrightarrow> reads_back enc_ClusterNodes (dec_struct ClusterNodes_fields) zero_ClusterNodes v"
  by (cases v) (auto simp: reads_back_def ClusterNodes_back, simp add: enc_ClusterNodes_def)

lemma val_field_reads [simp]:
  "d j (get x) = Some v \<Longrightarrow> val_field get put d j x = Some (put v x)"
  by (simp add: val_field_def)

lemma dec_string_JString [simp]: "dec_string (JString t) s = Some t"
  by (simp add: dec_string_def)

lemma ClusterMetadata_back:
  "wf_ClusterMetadata x \<Longrightarrow> dec_struct ClusterMetadata_fields (enc_ClusterMetadata x) zero_ClusterMetadata = Some x"
  by (simp add: enc_ClusterMetadata_def struct_defs ClusterMetadata_fields_def zero_ClusterMetadata_def wf_ClusterMetadata_def)

lemma ClusterSpec_back:
  "wf_ClusterSpec fnum x \<Longrightarrow> dec_struct (ClusterSpec_fields fnum) (enc_ClusterSpec x) zero_ClusterSpec = Some x"
  by (simp add: enc_ClusterSpec_def struct_defs
      ClusterSpec_fields_def zero_ClusterSpec_def wf_ClusterSpec_def ClusterMetadata_back)

lemma Error_back: "wf_Error x \<Longrightarrow> dec_Error (enc_Error x) zero_Error = Some x"
  by (simp add: dec_Error_def enc_Error_def struct_defs Error_fields_def zero_Error_def wf_Error_def dec_ErrorType_def)

lemma Health_back: "wf_Health x \<Longrightarrow> dec_Health (enc_Health x) zero_Health = Some x"
  by (simp add: dec_Health_def enc_Health_def struct_defs Health_fields_def zero_Health_def wf_Health_def)

text \<open>Clusters; their times must have a text.\<close>

lemma json_time_format: "json_time v \<longleftrightarrow> opt_all (\<lambda>t. format_time t \<noteq> None) v"
  by (cases v) (simp_all add: json_time_def format_time_iff day_ns_def second_ns_def del: not_None_eq)

lemma time_entry_ptr:
  "time_entry k v = (if json_time v then Some (ptr_entry k (\<lambda>t. JString (the (format_time t))) v) else None)"
  by (cases v) (auto simp: time_entry_def ptr_entry_def json_time_format)

lemma reads_time [simp]: "json_time v \<Longrightarrow> reads_back (\<lambda>t. JString (the (format_time t))) dec_time z v"
  by (cases v) (auto simp: reads_back_def dec_time_def json_time_format parse_format)

lemma enc_Cluster_iff: "enc_Cluster x \<noteq> None \<longleftrightarrow> marshalable x"
  by (simp add: enc_Cluster_def time_entry_ptr marshalable_def)

lemma Cluster_back:
  assumes "wf_Cluster fnum x" "enc_Cluster x = Some j"
  shows "dec_Cluster fnum j zero_Cluster = Some x"
proof -
  have "marshalable x" using assms(2) enc_Cluster_iff by blast
  then show ?thesis
    using assms by (auto simp: dec_Cluster_def enc_Cluster_def time_entry_ptr marshalable_def struct_defs
        Cluster_fields_def zero_Cluster_def wf_Cluster_def ClusterSpec_back)
qed

lemma enc_each_iff: "enc_each enc xs \<noteq> None \<longleftrightarrow> list_all (\<lambda>x. enc x \<noteq> None) xs"
  by (induction xs) (auto split: option.splits)

lemma slice_back:
  assumes "\<And>x j. x \<in> set xs \<Longrightarrow> enc x = Some j \<Longrightarrow> d j zero = Some x" "enc_each enc xs = Some js"
  shows "dec_slice zero d js [] = Some xs"
  using assms
proof (induction xs arbitrary: js)
  case (Cons x xs)
  then obtain j js' where j: "enc x = Some j" "enc_each enc xs = Some js'" "js = j # js'"
    by (auto split: option.splits)
  have "d j zero = Some x" by (rule Cons.prems(1)) (simp_all add: j)
  moreover have "dec_slice zero d js' [] = Some xs"
    by (rule Cons.IH[OF Cons.prems(1) j(2)]) simp_all
  ultimately show ?case by (simp add: j)
qed simp

lemma ClusterList_back:
  assumes "wf_ClusterList fnum x" "enc_ClusterList x = Some j"
  shows "dec_ClusterList fnum j zero_ClusterList = Some x"
proof (cases "li_Clusters x")
  case None
  then show ?thesis
    using assms by (auto simp: dec_ClusterList_def enc_ClusterList_def struct_defs ClusterList_fields_def zero_ClusterList_def
        intro: ClusterList.equality)
next
  case (Some cls)
  then obtain js where js: "enc_each enc_Cluster cls = Some js"
    "j = JObject ([(''clusters'', JArray js)] @ ptr_entry ''next_page_token'' JString (li_NextPageToken x))"
    using assms(2) by (auto simp: enc_ClusterList_def)
  have "dec_slice zero_Cluster (dec_Cluster fnum) js [] = Some cls"
  proof (rule slice_back[OF _ js(1)])
    fix c j assume "c \<in> set cls" "enc_Cluster c = Some j"
    then show "dec_Cluster fnum j zero_Cluster = Some c"
      using Cluster_back assms(1) Some by (simp add: wf_ClusterList_def list_all_iff)
  qed
  then have "ptr_field li_Clusters (\<lambda>v x. x\<lparr>li_Clusters := v\<rparr>) [] (dec_Clusters fnum) (JArray js) zero_ClusterList
      = Some (zero_ClusterList\<lparr>li_Clusters := Some cls\<rparr>)"
    by (simp add: ptr_field_def val_field_def dec_ptr_def dec_Clusters_def zero_ClusterList_def)
  then show ?thesis
    using Some unfolding js(2)
    by (auto simp: dec_ClusterList_def struct_defs ClusterList_fields_def zero_ClusterList_def intro: ClusterList.equality)
qed

subsection \<open>Decoded values are well-typed\<close>

definition preserves :: "('a \<Rightarrow> bool) \<Rightarrow> 'a decoder \<Rightarrow> bool" where
  "preserves P d \<longleftrightarrow> (\<forall>j x y. P x \<longrightarrow> d j x = Some y \<longrightarrow> P y)"

lemma preservesD: "preserves P d \<Longrightarrow> P x \<Longrightarrow> d j x = Some y \<Longrightarrow> P y"
  by (auto simp: preserves_def)

lemma field_of_in: "field_of fs k = Some d \<Longrightarrow> \<exists>n. (n, d) \<in> set fs"
  by (auto simp: field_of_def split: option.splits dest!: map_of_SomeD)

lemma preserves_struct:
  assumes "\<And>n d. (n, d) \<in> set fs \<Longrightarrow> preserves P d"
  shows "preserves P (dec_struct fs)"
proof -
  have "P y" if "P x" "dec_fields fs kvs x = Some y" for kvs x y
    using that
  proof (induction kvs arbitrary: x)
    case (Cons e kvs)
    obtain k j where e: "e = (k, j)" by (cases e)
    show ?case
    proof (cases "field_of fs k")
      case (Some d)
      then obtain x' where x': "d j x = Some x'" "dec_fields fs kvs x' = Some y"
        using Cons.prems(2) by (auto simp: e split: option.splits)
      obtain n where "(n, d) \<in> set fs" using field_of_in[OF Some] by blast
      from preservesD[OF assms[OF this] Cons.prems(1) x'(1)] have "P x'" .
      then show ?thesis using Cons.IH x'(2) by blast
    qed (use Cons in \<open>auto simp: e\<close>)
  qed simp
  then show ?thesis by (auto simp: preserves_def dec_struct_def split: json.splits)
qed

lemma preserves_ptr:
  assumes "preserves Q d" "Q zero" "\<And>x. P x \<Longrightarrow> opt_all Q (get x)" "\<And>x v. P x \<Longrightarrow> opt_all Q v \<Longrightarrow> P (put v x)"
  shows "preserves P (ptr_field get put zero d)"
  unfolding preserves_def
proof (intro allI impI)
  fix j x y assume x: "P x" "ptr_field get put zero d j x = Some y"
  then obtain v where v: "dec_ptr zero d j (get x) = Some v" "y = put v x"
    by (auto simp: ptr_field_def val_field_def)
  have "opt_all Q v"
    using v(1) assms(3)[OF x(1)] assms(2) preservesD[OF assms(1)]
    by (auto simp: dec_ptr_def opt_all_def split: if_splits option.splits)
  then show "P y" using assms(4) x(1) v(2) by blast
qed

lemma preserves_val:
  assumes "preserves Q d" "\<And>x. P x \<Longrightarrow> Q (get x)" "\<And>x v. P x \<Longrightarrow> Q v \<Longrightarrow> P (put v x)"
  shows "preserves P (val_field get put d)"
  using assms by (auto simp: preserves_def val_field_def) blast

lemma preserves_any: "preserves (\<lambda>_. True) d"
  by (simp add: preserves_def)

lemma preserves_int: "preserves in_int64 dec_int"
  by (auto simp: preserves_def dec_int_def split: json.splits dest: Atoi_range)

lemma preserves_int32: "preserves (\<lambda>n. to_int32 n = n) dec_int32"
  by (auto simp: preserves_def dec_int32_def split: json.splits option.splits if_splits)

lemma preserves_str_map: "preserves finite_map dec_str_map"
proof -
  have "finite_map m'" if "finite_map m" "dec_str_entries kvs m = Some m'" for kvs m m'
    using that by (induction kvs m rule: dec_str_entries.induct) (auto simp: finite_map_def split: option.splits)
  then show ?thesis by (auto simp: preserves_def dec_str_map_def finite_map_def split: json.splits)
qed

text \<open>The rules for the fields; a field whose values are not restricted needs the last ones.\<close>

lemmas typed_field =
  preserves_ptr[OF preserves_int] preserves_ptr[OF preserves_int32] preserves_ptr[OF preserves_str_map]

lemmas any_field = preserves_ptr[OF preserves_any, of _ _ _ _ dec_string] preserves_ptr[OF preserves_any, of _ _ _ _ dec_time]
  preserves_val[OF preserves_any, of _ _ _ dec_string]

lemma ACMProviderHints_typed: "preserves wf_ACMProviderHints dec_ACMProviderHints"
  unfolding dec_ACMProviderHints_def
  by (rule preserves_struct)
    (auto simp: ACMProviderHints_fields_def wf_ACMProviderHints_def finite_map_def intro!: typed_field any_field)

lemma ControlPlaneSpec_typed: "preserves wf_ControlPlaneSpec (dec_struct ControlPlaneSpec_fields)"
  by (rule preserves_struct)
    (auto simp: ControlPlaneSpec_fields_def wf_ControlPlaneSpec_def in_int64_def intro!: typed_field any_field)

lemma WorkerSpec_typed: "preserves wf_WorkerSpec (dec_struct WorkerSpec_fields)"
  by (rule preserves_struct)
    (auto simp: WorkerSpec_fields_def wf_WorkerSpec_def in_int64_def intro!: typed_field any_field)

lemma ClusterNodes_typed: "preserves wf_ClusterNodes (dec_struct ClusterNodes_fields)"
  by (rule preserves_struct)
    (auto simp: ClusterNodes_fields_def wf_ClusterNodes_def zero_ControlPlaneSpec_def zero_WorkerSpec_def
      wf_ControlPlaneSpec_def wf_WorkerSpec_def
      intro!: preserves_ptr[OF ControlPlaneSpec_typed] preserves_ptr[OF WorkerSpec_typed])

lemma ClusterMetadata_typed: "preserves wf_ClusterMetadata (dec_struct ClusterMetadata_fields)"
  by (rule preserves_struct)
    (auto simp: ClusterMetadata_fields_def wf_ClusterMetadata_def finite_map_def intro!: typed_field any_field)

text \<open>Reading a printed float again changes nothing.\<close>

definition stable_floats :: "(string \<Rightarrow> string option) \<Rightarrow> bool" where
  "stable_floats fnum \<longleftrightarrow> (\<forall>s t. fnum s = Some t \<longrightarrow> fnum t = Some t)"

lemma dec_any_canonical:
  "stable_floats fnum \<Longrightarrow> dec_any fnum j = Some v \<Longrightarrow> canonical fnum v"
  "stable_floats fnum \<Longrightarrow> dec_any_elems fnum js = Some vs \<Longrightarrow> \<forall>v \<in> set vs. canonical fnum v"
  "stable_floats fnum \<Longrightarrow> dec_any_members fnum kvs m = Some m' \<Longrightarrow>
     sorted_map m \<and> (\<forall>kv \<in> set m. canonical fnum (snd kv)) \<Longrightarrow>
     sorted_map m' \<and> (\<forall>kv \<in> set m'. canonical fnum (snd kv)) \<and> fst ` set m' \<subseteq> fst ` set m \<union> fst ` set kvs"
proof (induction fnum j and fnum js and fnum kvs m arbitrary: v and vs and m'
    rule: dec_any_dec_any_elems_dec_any_members.induct)
  case (6 fnum kvs)
  then show ?case by (fastforce simp: sorted_map_def)
next
  case (10 fnum k j kvs m)
  then obtain v where v: "dec_any fnum j = Some v" "dec_any_members fnum kvs (upsert k v m) = Some m'"
    by (auto split: option.splits)
  have "canonical fnum v" using 10(1)[OF 10(3) v(1)] .
  then have up: "sorted_map (upsert k v m) \<and> (\<forall>kv \<in> set (upsert k v m). canonical fnum (snd kv))"
    using 10(5) upsert_sorted[of m k v] upsert_values[of k v m] by auto
  show ?case using 10(2)[OF v(1) 10(3) v(2) up] upsert_keys[of k v m] by auto
qed (auto simp: stable_floats_def split: option.splits)

lemma ProviderHints_typed:
  assumes "stable_floats fnum"
  shows "preserves (wf_ProviderHints fnum) (dec_ProviderHints fnum)"
  unfolding preserves_def
proof (intro allI impI)
  fix j a y assume a: "wf_ProviderHints fnum a" "dec_ProviderHints fnum j a = Some y"
  show "wf_ProviderHints fnum y"
  proof (cases j)
    case (JObject kvs)
    define object where "object = fold (\<lambda>(k, v). upsert k v) kvs []"
    define rest where "rest = filter (\<lambda>(k, v). k \<noteq> ''acm'') object"
    obtain a' where a': "(case map_of object ''acm'' of
               None \<Rightarrow> Some a
             | Some raw \<Rightarrow>
                 map_option (\<lambda>v. a\<lparr>ph_Acm := v\<rparr>) (dec_ptr zero_ACMProviderHints dec_ACMProviderHints raw (ph_Acm a))) = Some a'"
      and y: "if rest = [] then y = a'
        else \<exists>m. dec_any_members fnum rest [] = Some m \<and> y = a'\<lparr>ph_AdditionalProperties := m\<rparr>"
      using a(2) unfolding JObject dec_ProviderHints_def
      by (auto simp: object_def[symmetric] rest_def[symmetric] Let_def split: option.splits if_splits)
    have "wf_ACMProviderHints zero_ACMProviderHints"
      by (simp add: zero_ACMProviderHints_def wf_ACMProviderHints_def)
    then have wf': "wf_ProviderHints fnum a'"
      using a(1) a' preservesD[OF ACMProviderHints_typed]
      by (auto simp: wf_ProviderHints_def dec_ptr_def split: option.splits if_splits)
    show ?thesis
    proof (cases "rest = []")
      case False
      then obtain m where m: "dec_any_members fnum rest [] = Some m" "y = a'\<lparr>ph_AdditionalProperties := m\<rparr>"
        using y by auto
      have "''acm'' \<notin> fst ` set rest" by (auto simp: rest_def)
      then show ?thesis
        using dec_any_canonical(3)[OF assms m(1)] wf' by (auto simp: m(2) wf_ProviderHints_def sorted_map_def)
    qed (use y wf' in simp)
  qed (use a in \<open>auto simp: dec_ProviderHints_def\<close>)
qed

lemma ClusterSpec_typed:
  assumes "stable_floats fnum"
  shows "preserves (wf_ClusterSpec fnum) (dec_struct (ClusterSpec_fields fnum))"
  by (rule preserves_struct)
    (auto simp: ClusterSpec_fields_def wf_ClusterSpec_def zero_ClusterNodes_def wf_ClusterNodes_def wf_ProviderHints_def
      sorted_map_def
      intro!: preserves_ptr[OF ClusterNodes_typed] preserves_ptr[OF ProviderHints_typed[OF assms]]
        preserves_val[OF ClusterMetadata_typed] any_field)

lemma Cluster_typed:
  assumes "stable_floats fnum"
  shows "preserves (wf_Cluster fnum) (dec_Cluster fnum)"
  unfolding dec_Cluster_def
  by (rule preserves_struct)
    (auto simp: Cluster_fields_def wf_Cluster_def intro!: preserves_val[OF ClusterSpec_typed[OF assms]] any_field)

lemma wf_zero_Cluster: "wf_Cluster fnum zero_Cluster"
  by (simp add: wf_Cluster_def zero_Cluster_def zero_ClusterSpec_def wf_ClusterSpec_def zero_ClusterMetadata_def
      wf_ClusterMetadata_def)

lemma Clusters_typed:
  assumes "stable_floats fnum"
  shows "preserves (list_all (wf_Cluster fnum)) (dec_Clusters fnum)"
proof -
  have "list_all (wf_Cluster fnum) ys"
    if "list_all (wf_Cluster fnum) xs" "dec_slice zero_Cluster (dec_Cluster fnum) js xs = Some ys" for js xs ys
    using that
  proof (induction js arbitrary: xs ys)
    case (Cons j js)
    then obtain x' ys' where x': "dec_Cluster fnum j (case xs of [] \<Rightarrow> zero_Cluster | x # _ \<Rightarrow> x) = Some x'"
      "dec_slice zero_Cluster (dec_Cluster fnum) js (tl xs) = Some ys'" "ys = x' # ys'"
      by (auto split: option.splits)
    have "wf_Cluster fnum x'"
      by (rule preservesD[OF Cluster_typed[OF assms] _ x'(1)]) (use Cons.prems(1) wf_zero_Cluster in \<open>auto split: list.split\<close>)
    moreover have "list_all (wf_Cluster fnum) ys'"
      by (rule Cons.IH[OF _ x'(2)]) (use Cons.prems(1) in \<open>cases xs; simp\<close>)
    ultimately show ?case by (simp add: x'(3))
  qed simp
  then show ?thesis by (auto simp: preserves_def dec_Clusters_def split: json.splits)
qed

lemma ErrorType_of_uri: "ErrorType_of (error_type_uri (ErrorType_of s)) = ErrorType_of s"
  by (auto simp: ErrorType_of_def known_types_def)

subsection \<open>Through the text\<close>

lemma unmarshal_printed: "json_ok maxNestingDepth j \<Longrightarrow> unmarshal_into d x (print_json j) = d j x"
  using Unmarshal_print(1)[of j "[]"] by (simp add: unmarshal_into_def)

text \<open>The text is valid UTF-8 and does not nest deeper than the decoder allows.\<close>

definition printable :: "('a \<Rightarrow> json option) \<Rightarrow> 'a \<Rightarrow> bool" where
  "printable enc x \<longleftrightarrow> (case enc x of None \<Rightarrow> True | Some j \<Rightarrow> json_ok maxNestingDepth j)"

text \<open>
  C19: the API types survive their JSON text.  A well-typed cluster, cluster list, problem or health
  report that is printed and read back is the same value, whatever its optional fields, maps and
  additional properties are, provided it is printable: its texts are valid UTF-8, its additional
  numbers are JSON numbers and it nests no deeper than the decoder allows.  The encoding of a cluster
  fails exactly when one of its times lies outside the years 0 to 9999.
\<close>

theorem api_text_roundtrip:
  "(enc_Cluster c = None \<longleftrightarrow> \<not> marshalable c)
   \<and> (wf_Cluster fnum c \<and> printable enc_Cluster c \<and> enc_Cluster c = Some j \<longrightarrow>
        unmarshal_into (dec_Cluster fnum) zero_Cluster (print_json j) = Some c)
   \<and> (wf_ClusterList fnum l \<and> printable enc_ClusterList l \<and> enc_ClusterList l = Some j \<longrightarrow>
        unmarshal_into (dec_ClusterList fnum) zero_ClusterList (print_json j) = Some l)
   \<and> (wf_Error e \<and> json_ok maxNestingDepth (enc_Error e) \<longrightarrow>
        unmarshal_into dec_Error zero_Error (print_json (enc_Error e)) = Some e)
   \<and> (wf_Health h \<and> json_ok maxNestingDepth (enc_Health h) \<longrightarrow>
        unmarshal_into dec_Health zero_Health (print_json (enc_Health h)) = Some h)"
  using enc_Cluster_iff[of c] Cluster_back[of fnum c j] ClusterList_back[of fnum l j] Error_back[of e] Health_back[of h]
  by (auto simp: printable_def unmarshal_printed)

definition sample_cluster :: Cluster where
  "sample_cluster = zero_Cluster\<lparr>cl_CreateTime := Some 0, cl_Id := Some ''a'',
     cl_Spec := zero_ClusterSpec\<lparr>cs_Metadata := \<lparr>cm_Labels = Some [''k'' \<mapsto> ''v''], cm_Name = ''n''\<rparr>,
        cs_ProviderHints := Some \<lparr>ph_Acm = None, ph_AdditionalProperties = [(''x'', JArray [JNull])]\<rparr>,
        cs_Version := ''1.30''\<rparr>\<rparr>"

lemma digit_chars: "digit_char 0 = CHR ''0''" "digit_char 1 = CHR ''1''"
  by code_simp+

lemma sample_time: "format_time 0 = Some ''0001-01-01T00:00:00Z''"
  by (simp add: format_time_def year_day_def month_lengths_def is_leap_def day_ns_def second_ns_def two_digits_def
      four_digits_def fraction_def nine_digits_def trim_zeros_def digit_chars digit_chars[unfolded One_nat_def] upt_rec Let_def)

lemma sample_json: "enc_Cluster sample_cluster = Some (JObject
    [(''create_time'', JString ''0001-01-01T00:00:00Z''), (''id'', JString ''a''),
     (''spec'', JObject
       [(''metadata'', JObject [(''labels'', JObject [(''k'', JString ''v'')]), (''name'', JString ''n'')]),
        (''provider_hints'', JObject [(''x'', JArray [JNull])]),
        (''service_type'', JString []), (''version'', JString ''1.30'')])])"
  by (simp add: enc_Cluster_def sample_cluster_def zero_Cluster_def zero_ClusterSpec_def time_entry_def sample_time
      enc_ClusterSpec_def ptr_entry_def enc_ClusterMetadata_def enc_str_map_def enc_ProviderHints_def)

lemma sample_printable: "printable enc_Cluster sample_cluster"
  by (simp add: printable_def sample_json maxNestingDepth_def valid_ascii byte_val_def)

lemma sample_wf: "wf_Cluster fnum sample_cluster"
  by (simp add: sample_cluster_def wf_Cluster_def zero_ClusterSpec_def wf_ClusterSpec_def wf_ClusterMetadata_def
      finite_map_def wf_ProviderHints_def sorted_map_def)

theorem api_text_roundtrip_witness:
  "\<exists>j. enc_Cluster sample_cluster = Some j
     \<and> unmarshal_into (dec_Cluster (\<lambda>s. Some s)) zero_Cluster (print_json j) = Some sample_cluster"
  using api_text_roundtrip[of sample_cluster "\<lambda>s. Some s"] sample_wf sample_printable sample_json by blast

text \<open>
  C17: whatever JSON a client sends, a decoded value is well-typed: its integers fit the width of
  their Go type, its maps are finite, its additional properties are sorted objects of printed floats
  without a key \<open>acm\<close>, and the type of a problem is one of the constants or a text that is none of them.
  The hypothesis is that a printed float is read back as itself.
\<close>

theorem decoded_well_typed:
  assumes "stable_floats fnum"
  shows "(dec_Cluster fnum j zero_Cluster = Some c \<longrightarrow> wf_Cluster fnum c)
    \<and> (dec_ClusterList fnum j zero_ClusterList = Some l \<longrightarrow> wf_ClusterList fnum l)
    \<and> (dec_Error j zero_Error = Some e \<longrightarrow> opt_all (\<lambda>n. - (2 ^ 31) \<le> n \<and> n < 2 ^ 31) (er_Status e) \<and> wf_Error e)
    \<and> (dec_Health j zero_Health = Some h \<longrightarrow> wf_Health h)"
proof (intro conjI impI)
  show "wf_Cluster fnum c" if "dec_Cluster fnum j zero_Cluster = Some c"
    using preservesD[OF Cluster_typed[OF assms] wf_zero_Cluster that] .
  have list: "preserves (wf_ClusterList fnum) (dec_ClusterList fnum)"
    unfolding dec_ClusterList_def
    by (rule preserves_struct)
      (auto simp: ClusterList_fields_def wf_ClusterList_def intro!: preserves_ptr[OF Clusters_typed[OF assms]] any_field)
  have zero_list: "wf_ClusterList fnum zero_ClusterList" by (simp add: wf_ClusterList_def zero_ClusterList_def)
  show "wf_ClusterList fnum l" if "dec_ClusterList fnum j zero_ClusterList = Some l"
    using preservesD[OF list zero_list that] .
  have "preserves (\<lambda>t. ErrorType_of (error_type_uri t) = t) dec_ErrorType"
    by (auto simp: preserves_def dec_ErrorType_def ErrorType_of_uri)
  then have err: "preserves wf_Error dec_Error"
    unfolding dec_Error_def
    by (intro preserves_struct)
      (auto simp: Error_fields_def wf_Error_def to_int32_def intro!: typed_field any_field preserves_val)
  have zero_err: "wf_Error zero_Error"
    by (simp add: wf_Error_def zero_Error_def ErrorType_of_def known_types_def)
  show wf: "wf_Error e" if "dec_Error j zero_Error = Some e"
    using preservesD[OF err zero_err that] .
  show "opt_all (\<lambda>n. - (2 ^ 31) \<le> n \<and> n < 2 ^ 31) (er_Status e)" if "dec_Error j zero_Error = Some e"
    using wf[OF that] to_int32_range by (auto simp: wf_Error_def opt_all_def split: option.splits) metis+
  have health: "preserves wf_Health dec_Health"
    unfolding dec_Health_def
    by (rule preserves_struct) (auto simp: Health_fields_def wf_Health_def in_int64_def intro!: typed_field any_field)
  have zero_health: "wf_Health zero_Health" by (simp add: wf_Health_def zero_Health_def)
  show "wf_Health h" if "dec_Health j zero_Health = Some h"
    using preservesD[OF health zero_health that] .
qed

theorem decoded_well_typed_witness:
  "wf_Cluster (\<lambda>s. Some s) (the (dec_Cluster (\<lambda>s. Some s)
     (JObject [(''spec'', JObject [(''nodes'', JObject [(''workers'', JObject [(''count'', JNumber ''3'')])])])]) zero_Cluster))"
proof -
  have "stable_floats (\<lambda>s. Some s)" by (simp add: stable_floats_def)
  moreover have "Atoi ''3'' = Some 3" by (simp add: Atoi_def digit_val_def in_int64_def)
  then have "dec_Cluster (\<lambda>s. Some s)
     (JObject [(''spec'', JObject [(''nodes'', JObject [(''workers'', JObject [(''count'', JNumber ''3'')])])])]) zero_Cluster \<noteq> None"
    by (simp add: dec_Cluster_def Cluster_fields_def val_field_def zero_Cluster_def ClusterSpec_fields_def
        ptr_field_def dec_ptr_def ClusterNodes_fields_def WorkerSpec_fields_def dec_int_def zero_ClusterSpec_def
        zero_ClusterNodes_def zero_WorkerSpec_def)
  ultimately show ?thesis using decoded_well_typed by fastforce
qed

text \<open>
  The conversions of the handler between the two packages' types, a JSON text written and read,
  are the identity or the error of a time without text, for every well-typed value with printable
  strings.
\<close>

lemma handler_conversions_are_json:
  assumes "wf_Cluster fnum c" "printable enc_Cluster c" "wf_ClusterList fnum l" "printable enc_ClusterList l"
  shows "toServiceCluster c =
      json_convert enc_Cluster (dec_Cluster fnum) zero_Cluster decErr ''oapigen cluster'' ''v1alpha1 cluster'' c
    \<and> toAPICluster c =
      json_convert enc_Cluster (dec_Cluster fnum) zero_Cluster decErr ''v1alpha1 cluster'' ''oapigen cluster'' c
    \<and> toAPIClusterList l = json_convert enc_ClusterList (dec_ClusterList fnum) zero_ClusterList decErr
        ''v1alpha1 cluster list'' ''oapigen cluster list'' l"
proof -
  have "enc_ClusterList l \<noteq> None \<longleftrightarrow> (case li_Clusters l of None \<Rightarrow> True | Some cls \<Rightarrow> list_all marshalable cls)"
    using enc_each_iff[of enc_Cluster] enc_Cluster_iff
    by (auto simp: enc_ClusterList_def list_all_iff split: option.split)
  then show ?thesis
    using assms enc_Cluster_iff[of c] Cluster_back[OF assms(1)] ClusterList_back[OF assms(3)]
    by (auto simp: json_convert_def toServiceCluster_def toAPICluster_def toAPIClusterList_def printable_def
        unmarshal_printed split: option.split)
qed

subsection \<open>Enumerations and accessors\<close>

text \<open>The statuses the program reports and the types of the problems it maps errors to are members.\<close>

lemma reported_statuses_valid: "ClusterStatus_Valid s \<longleftrightarrow> (\<exists>st. s = status_string st)"
proof -
  have "st \<in> set [DELETED, DELETING, FAILED, PENDING, PROVISIONING, READY, UNAVAILABLE]" for st
    by (cases st) simp_all
  then show ?thesis unfolding ClusterStatus_Valid_def set_map by blast
qed

lemma hints_Get_Set:
  "sorted_map (ph_AdditionalProperties a) \<Longrightarrow> hints_Get (hints_Set k v a) k' = (if k' = k then Some v else hints_Get a k')"
  by (simp add: hints_Get_def hints_Set_def map_of_upsert)

end
