(* ===== verification/HttpServer.thy ===== *)
theory HttpServer
  imports ApiServer Health ApiJsonLaws
begin

text \<open>
  The generated server of \<open>internal/api/server/server.gen.go\<close>: parameter binding, routes, the strict
  handlers with the decoding of the request body, and the methods that write the responses.  None of
  these handlers reads its writer, so a handler is a script: the calls it makes on the writer, the way
  it ends, and the next state of the world.  The router of chi, its \<open>URLParam\<close> and the functions that
  bind parameters are third-party code and parameters; so are the messages of JSON errors.
\<close>

type_synonym 's script = "http_request \<Rightarrow> 's \<Rightarrow> writer_op list \<times> ending \<times> 's"

definition newline :: string where
  "newline = [char_of (10 :: nat)]"

text \<open>\<open>http.Error\<close>.\<close>

definition http_Error :: "string \<Rightarrow> int \<Rightarrow> writer_op list" where
  "http_Error msg code = [SetContentType ''text/plain; charset=utf-8'', WriteHeader code, Write (msg @ newline)]"

subsection \<open>Parameter errors\<close>

datatype param_error =
    UnescapedCookieParamError string go_error
  | UnmarshalingParamError string go_error
  | RequiredParamError string
  | RequiredHeaderError string go_error
  | InvalidParamFormatError string go_error
  | TooManyValuesForParamError string int

fun param_error_text :: "param_error \<Rightarrow> string" where
  "param_error_text (UnescapedCookieParamError p err) = ''error unescaping cookie parameter '' @ [CHR 0x27] @ p @ [CHR 0x27]"
| "param_error_text (UnmarshalingParamError p err) = ''Error unmarshaling parameter '' @ p @ '' as JSON: '' @ error_text err"
| "param_error_text (RequiredParamError p) = ''Query argument '' @ p @ '' is required, but not found''"
| "param_error_text (RequiredHeaderError p err) = ''Header parameter '' @ p @ '' is required, but not found''"
| "param_error_text (InvalidParamFormatError p err) = ''Invalid format for parameter '' @ p @ '': '' @ error_text err"
| "param_error_text (TooManyValuesForParamError p n) = ''Expected one value for '' @ p @ '', got '' @ FormatInt n"

fun param_error_unwrap :: "param_error \<Rightarrow> go_error option" where
  "param_error_unwrap (UnescapedCookieParamError p err) = Some err"
| "param_error_unwrap (UnmarshalingParamError p err) = Some err"
| "param_error_unwrap (RequiredParamError p) = None"
| "param_error_unwrap (RequiredHeaderError p err) = Some err"
| "param_error_unwrap (InvalidParamFormatError p err) = Some err"
| "param_error_unwrap (TooManyValuesForParamError p n) = None"

text \<open>The chain of errors the scrubbing of validation errors walks.\<close>

fun param_node :: "param_error \<Rightarrow> err_node" where
  "param_node (UnescapedCookieParamError p err) = NUnescapedCookie p"
| "param_node (UnmarshalingParamError p err) = NUnmarshalingParam p"
| "param_node (RequiredParamError p) = NRequiredParam p"
| "param_node (RequiredHeaderError p err) = NRequiredHeader p"
| "param_node (InvalidParamFormatError p err) = NInvalidParamFormat p"
| "param_node (TooManyValuesForParamError p n) = NTooManyValues p"

definition param_chain :: "param_error \<Rightarrow> err_node list" where
  "param_chain e = param_node e # (case param_error_unwrap e of None \<Rightarrow> [] | Some err \<Rightarrow> [NOther (error_text err)])"

subsection \<open>Binding of parameters\<close>

record ListClustersParams =
  lp_PageToken :: "string option"
  lp_MaxPageSize :: "int option"

record CreateClusterParams =
  crp_Id :: "string option"

text \<open>
  \<open>runtime.BindQueryParameterWithOptions\<close> for an optional string and an optional \<open>int32\<close>, from a name
  and the query of the URL, and \<open>runtime.BindStyledParameterWithOptions\<close> from the text of \<open>chi.URLParam\<close>.
\<close>

record param_binder =
  BindQueryString :: "string \<Rightarrow> string \<Rightarrow> go_error + string option"
  BindQueryInt32 :: "string \<Rightarrow> string \<Rightarrow> go_error + int option"
  BindPathString :: "string \<Rightarrow> string \<Rightarrow> go_error + string"

record 's ServerInterface =
  si_ListClusters :: "ListClustersParams \<Rightarrow> 's script"
  si_CreateCluster :: "CreateClusterParams \<Rightarrow> 's script"
  si_GetHealth :: "'s script"
  si_DeleteCluster :: "string \<Rightarrow> 's script"
  si_GetCluster :: "string \<Rightarrow> 's script"

definition Unimplemented :: "'s ServerInterface" where
  "Unimplemented =
     \<lparr>si_ListClusters = \<lambda>params r s. ([WriteHeader 501], Finished, s),
      si_CreateCluster = \<lambda>params r s. ([WriteHeader 501], Finished, s),
      si_GetHealth = \<lambda>r s. ([WriteHeader 501], Finished, s),
      si_DeleteCluster = \<lambda>clusterId r s. ([WriteHeader 501], Finished, s),
      si_GetCluster = \<lambda>clusterId r s. ([WriteHeader 501], Finished, s)\<rparr>"

record 's ServerInterfaceWrapper =
  siw_Handler :: "'s ServerInterface"
  siw_HandlerMiddlewares :: "('s script \<Rightarrow> 's script) list"
  siw_ErrorHandlerFunc :: "param_error \<Rightarrow> http_request \<Rightarrow> writer_op list"

definition with_middlewares :: "('s script \<Rightarrow> 's script) list \<Rightarrow> 's script \<Rightarrow> 's script" where
  "with_middlewares middlewares handler = fold (\<lambda>middleware h. middleware h) middlewares handler"

definition siw_ListClusters :: "param_binder \<Rightarrow> 's ServerInterfaceWrapper \<Rightarrow> 's script" where
  "siw_ListClusters bd siw r s =
     (case BindQueryString bd ''page_token'' (hq_RawQuery r) of
        Inl err \<Rightarrow> (siw_ErrorHandlerFunc siw (InvalidParamFormatError ''page_token'' err) r, Finished, s)
      | Inr pageToken \<Rightarrow>
      (case BindQueryInt32 bd ''max_page_size'' (hq_RawQuery r) of
        Inl err \<Rightarrow> (siw_ErrorHandlerFunc siw (InvalidParamFormatError ''max_page_size'' err) r, Finished, s)
      | Inr maxPageSize \<Rightarrow>
          with_middlewares (siw_HandlerMiddlewares siw)
            (si_ListClusters (siw_Handler siw) \<lparr>lp_PageToken = pageToken, lp_MaxPageSize = maxPageSize\<rparr>) r s))"

definition siw_CreateCluster :: "param_binder \<Rightarrow> 's ServerInterfaceWrapper \<Rightarrow> 's script" where
  "siw_CreateCluster bd siw r s =
     (case BindQueryString bd ''id'' (hq_RawQuery r) of
        Inl err \<Rightarrow> (siw_ErrorHandlerFunc siw (InvalidParamFormatError ''id'' err) r, Finished, s)
      | Inr iid \<Rightarrow>
          with_middlewares (siw_HandlerMiddlewares siw) (si_CreateCluster (siw_Handler siw) \<lparr>crp_Id = iid\<rparr>) r s)"

definition siw_GetHealth :: "'s ServerInterfaceWrapper \<Rightarrow> 's script" where
  "siw_GetHealth siw r s = with_middlewares (siw_HandlerMiddlewares siw) (si_GetHealth (siw_Handler siw)) r s"

text \<open>The operations on one cluster get the text of the path parameter.\<close>

definition siw_DeleteCluster :: "param_binder \<Rightarrow> 's ServerInterfaceWrapper \<Rightarrow> string \<Rightarrow> 's script" where
  "siw_DeleteCluster bd siw urlParam r s =
     (case BindPathString bd ''clusterId'' urlParam of
        Inl err \<Rightarrow> (siw_ErrorHandlerFunc siw (InvalidParamFormatError ''clusterId'' err) r, Finished, s)
      | Inr clusterId \<Rightarrow>
          with_middlewares (siw_HandlerMiddlewares siw) (si_DeleteCluster (siw_Handler siw) clusterId) r s)"

definition siw_GetCluster :: "param_binder \<Rightarrow> 's ServerInterfaceWrapper \<Rightarrow> string \<Rightarrow> 's script" where
  "siw_GetCluster bd siw urlParam r s =
     (case BindPathString bd ''clusterId'' urlParam of
        Inl err \<Rightarrow> (siw_ErrorHandlerFunc siw (InvalidParamFormatError ''clusterId'' err) r, Finished, s)
      | Inr clusterId \<Rightarrow>
          with_middlewares (siw_HandlerMiddlewares siw) (si_GetCluster (siw_Handler siw) clusterId) r s)"

subsection \<open>Routes\<close>

text \<open>
  The answer of the router to a method and a path: the number of the registered route and the text of
  its path parameter, or what it writes itself.
\<close>

datatype mux_result = Matched nat string | NotMatched "writer_op list"

type_synonym mux = "(string \<times> string) list \<Rightarrow> string \<Rightarrow> string \<Rightarrow> mux_result"

record 's ChiServerOptions =
  so_BaseURL :: string
  so_Middlewares :: "('s script \<Rightarrow> 's script) list"
  so_ErrorHandlerFunc :: "(param_error \<Rightarrow> http_request \<Rightarrow> writer_op list) option"

definition route_table :: "string \<Rightarrow> (string \<times> string) list" where
  "route_table baseURL =
     [(''GET'', baseURL @ ''/api/v1alpha1/clusters''),
      (''POST'', baseURL @ ''/api/v1alpha1/clusters''),
      (''GET'', baseURL @ ''/api/v1alpha1/clusters/health''),
      (''DELETE'', baseURL @ ''/api/v1alpha1/clusters/{clusterId}''),
      (''GET'', baseURL @ ''/api/v1alpha1/clusters/{clusterId}'')]"

definition route_handlers :: "param_binder \<Rightarrow> 's ServerInterfaceWrapper \<Rightarrow> (string \<Rightarrow> 's script) list" where
  "route_handlers bd wrapper =
     [\<lambda>_. siw_ListClusters bd wrapper, \<lambda>_. siw_CreateCluster bd wrapper, \<lambda>_. siw_GetHealth wrapper,
      siw_DeleteCluster bd wrapper, siw_GetCluster bd wrapper]"

definition HandlerWithOptions :: "mux \<Rightarrow> param_binder \<Rightarrow> 's ServerInterface \<Rightarrow> 's ChiServerOptions \<Rightarrow> 's script" where
  "HandlerWithOptions mux bd si options r s =
     (let onError = (case so_ErrorHandlerFunc options of
            None \<Rightarrow> (\<lambda>err r. http_Error (param_error_text err) 400)
          | Some f \<Rightarrow> f);
          wrapper = \<lparr>siw_Handler = si, siw_HandlerMiddlewares = so_Middlewares options, siw_ErrorHandlerFunc = onError\<rparr>;
          handlers = route_handlers bd wrapper
      in case mux (route_table (so_BaseURL options)) (hq_Method r) (hq_Path r) of
           Matched i urlParam \<Rightarrow> if i < length handlers then (handlers ! i) urlParam r s else ([], Finished, s)
         | NotMatched ops \<Rightarrow> (ops, Finished, s))"

definition server_Handler :: "mux \<Rightarrow> param_binder \<Rightarrow> 's ServerInterface \<Rightarrow> 's script" where
  "server_Handler mux bd si =
     HandlerWithOptions mux bd si \<lparr>so_BaseURL = [], so_Middlewares = [], so_ErrorHandlerFunc = None\<rparr>"

definition HandlerFromMuxWithBaseURL :: "mux \<Rightarrow> param_binder \<Rightarrow> 's ServerInterface \<Rightarrow> string \<Rightarrow> 's script" where
  "HandlerFromMuxWithBaseURL mux bd si baseURL =
     HandlerWithOptions mux bd si \<lparr>so_BaseURL = baseURL, so_Middlewares = [], so_ErrorHandlerFunc = None\<rparr>"

subsection \<open>Writing responses\<close>

text \<open>
  Encode to a buffer, then content type, status and body; an encoding error comes before any of them.
  Only a time of a cluster can make the encoder fail.
\<close>

definition json_error :: go_error where
  "json_error = PlainError ''json: error calling MarshalJSON for type *time.Time: Time.MarshalJSON: year outside of range [0,9999]''"

definition visit_json :: "json option \<Rightarrow> string \<Rightarrow> int \<Rightarrow> go_error + writer_op list" where
  "visit_json j contentType code =
     (case j of
        None \<Rightarrow> Inl json_error
      | Some j \<Rightarrow> Inr [SetContentType contentType, WriteHeader code, Write (print_json j @ newline)])"

abbreviation visit_problem :: "Error \<Rightarrow> int \<Rightarrow> go_error + writer_op list" where
  "visit_problem e code \<equiv> visit_json (Some (enc_Error e)) ''application/problem+json'' code"

fun VisitListClustersResponse :: "list_response \<Rightarrow> go_error + writer_op list" where
  "VisitListClustersResponse (ListClusters200 l) = visit_json (enc_ClusterList l) ''application/json'' 200"
| "VisitListClustersResponse (ListClusters400 e) = visit_problem e 400"
| "VisitListClustersResponse (ListClusters401 e) = visit_problem e 401"
| "VisitListClustersResponse (ListClusters403 e) = visit_problem e 403"
| "VisitListClustersResponse (ListClusters500 e) = visit_problem e 500"

fun VisitCreateClusterResponse :: "create_response \<Rightarrow> go_error + writer_op list" where
  "VisitCreateClusterResponse (CreateCluster201 c) = visit_json (enc_Cluster c) ''application/json'' 201"
| "VisitCreateClusterResponse (CreateCluster400 e) = visit_problem e 400"
| "VisitCreateClusterResponse (CreateCluster401 e) = visit_problem e 401"
| "VisitCreateClusterResponse (CreateCluster403 e) = visit_problem e 403"
| "VisitCreateClusterResponse (CreateCluster409 e) = visit_problem e 409"
| "VisitCreateClusterResponse (CreateCluster422 e) = visit_problem e 422"
| "VisitCreateClusterResponse (CreateCluster500 e) = visit_problem e 500"

fun VisitGetHealthResponse :: "health_response \<Rightarrow> go_error + writer_op list" where
  "VisitGetHealthResponse (GetHealth200 h) = visit_json (Some (enc_Health h)) ''application/json'' 200"

fun VisitDeleteClusterResponse :: "delete_response \<Rightarrow> go_error + writer_op list" where
  "VisitDeleteClusterResponse DeleteCluster204 = Inr [WriteHeader 204]"
| "VisitDeleteClusterResponse (DeleteCluster401 e) = visit_problem e 401"
| "VisitDeleteClusterResponse (DeleteCluster403 e) = visit_problem e 403"
| "VisitDeleteClusterResponse (DeleteCluster404 e) = visit_problem e 404"
| "VisitDeleteClusterResponse (DeleteCluster500 e) = visit_problem e 500"

fun VisitGetClusterResponse :: "get_response \<Rightarrow> go_error + writer_op list" where
  "VisitGetClusterResponse (GetCluster200 c) = visit_json (enc_Cluster c) ''application/json'' 200"
| "VisitGetClusterResponse (GetCluster401 e) = visit_problem e 401"
| "VisitGetClusterResponse (GetCluster403 e) = visit_problem e 403"
| "VisitGetClusterResponse (GetCluster404 e) = visit_problem e 404"
| "VisitGetClusterResponse (GetCluster500 e) = visit_problem e 500"

subsection \<open>Strict handlers\<close>

datatype request_object =
    ListClustersRequestObject ListClustersParams
  | CreateClusterRequestObject CreateClusterParams Cluster
  | GetHealthRequestObject
  | DeleteClusterRequestObject string
  | GetClusterRequestObject string

text \<open>What a handler returns as an \<open>interface{}\<close>; the last one is of a type no operation answers with.\<close>

datatype response_object =
    RespListClusters list_response
  | RespCreateCluster create_response
  | RespGetHealth health_response
  | RespDeleteCluster delete_response
  | RespGetCluster get_response
  | RespOther string

type_synonym ('r, 's) strict_result = "(go_error + 'r option) outcome \<times> 's"

record 's StrictServerInterface =
  ssi_ListClusters :: "ListClustersParams \<Rightarrow> 's \<Rightarrow> (list_response, 's) strict_result"
  ssi_CreateCluster :: "CreateClusterParams \<Rightarrow> Cluster \<Rightarrow> 's \<Rightarrow> (create_response, 's) strict_result"
  ssi_GetHealth :: "'s \<Rightarrow> (health_response, 's) strict_result"
  ssi_DeleteCluster :: "string \<Rightarrow> 's \<Rightarrow> (delete_response, 's) strict_result"
  ssi_GetCluster :: "string \<Rightarrow> 's \<Rightarrow> (get_response, 's) strict_result"

type_synonym 's strict_handler_func =
  "http_request \<Rightarrow> request_object \<Rightarrow> 's \<Rightarrow> (response_object, 's) strict_result"

record StrictHTTPServerOptions =
  RequestErrorHandlerFunc :: "go_error \<Rightarrow> http_request \<Rightarrow> writer_op list"
  ResponseErrorHandlerFunc :: "go_error \<Rightarrow> http_request \<Rightarrow> writer_op list"

record 's strictHandler =
  sh_ssi :: "'s StrictServerInterface"
  sh_middlewares :: "('s strict_handler_func \<Rightarrow> string \<Rightarrow> 's strict_handler_func) list"
  sh_options :: StrictHTTPServerOptions

definition as_object :: "('r \<Rightarrow> response_object) \<Rightarrow> ('r, 's) strict_result \<Rightarrow> (response_object, 's) strict_result" where
  "as_object f res =
     (case res of
        (Panics m, s) \<Rightarrow> (Panics m, s)
      | (Returns (Inl err), s) \<Rightarrow> (Returns (Inl err), s)
      | (Returns (Inr resp), s) \<Rightarrow> (Returns (Inr (map_option f resp)), s))"

definition type_name :: "response_object \<Rightarrow> string" where
  "type_name resp =
     (case resp of RespListClusters _ \<Rightarrow> ''server.ListClustersResponseObject''
      | RespCreateCluster _ \<Rightarrow> ''server.CreateClusterResponseObject''
      | RespGetHealth _ \<Rightarrow> ''server.GetHealthResponseObject''
      | RespDeleteCluster _ \<Rightarrow> ''server.DeleteClusterResponseObject''
      | RespGetCluster _ \<Rightarrow> ''server.GetClusterResponseObject''
      | RespOther t \<Rightarrow> t)"

text \<open>
  The end every strict handler shares: a returned error, a response of the operation (\<open>visit\<close> is
  \<open>None\<close> on the others), a response of another type, or none.
\<close>

definition strict_finish ::
  "'s strictHandler \<Rightarrow> (response_object \<Rightarrow> (go_error + writer_op list) option) \<Rightarrow> http_request \<Rightarrow>
   (response_object, 's) strict_result \<Rightarrow> writer_op list \<times> ending \<times> 's" where
  "strict_finish sh visit r res =
     (let respErr = (\<lambda>err. ResponseErrorHandlerFunc (sh_options sh) err r) in
      case res of
        (Panics m, s) \<Rightarrow> ([], Panicked m, s)
      | (Returns (Inl err), s) \<Rightarrow> (respErr err, Finished, s)
      | (Returns (Inr None), s) \<Rightarrow> ([], Finished, s)
      | (Returns (Inr (Some resp)), s) \<Rightarrow>
          (case visit resp of
             Some (Inr ops) \<Rightarrow> (ops, Finished, s)
           | Some (Inl err) \<Rightarrow> (respErr err, Finished, s)
           | None \<Rightarrow> (respErr (PlainError (''unexpected response type: '' @ type_name resp)), Finished, s)))"

definition strict_call ::
  "'s strictHandler \<Rightarrow> string \<Rightarrow> 's strict_handler_func \<Rightarrow> 's strict_handler_func" where
  "strict_call sh operation handler = fold (\<lambda>middleware h. middleware h operation) (sh_middlewares sh) handler"

definition wrong_request :: string where
  "wrong_request = ''interface conversion''"

definition strict_ListClusters :: "'s strictHandler \<Rightarrow> ListClustersParams \<Rightarrow> 's script" where
  "strict_ListClusters sh params r s =
     (let handler = (\<lambda>r request s.
            case request of
              ListClustersRequestObject p \<Rightarrow> as_object RespListClusters (ssi_ListClusters (sh_ssi sh) p s)
            | _ \<Rightarrow> (Panics wrong_request, s))
      in strict_finish sh
           (\<lambda>resp. case resp of RespListClusters x \<Rightarrow> Some (VisitListClustersResponse x) | _ \<Rightarrow> None) r
           (strict_call sh ''ListClusters'' handler r (ListClustersRequestObject params) s))"

text \<open>The body of a create: the decoder's value, or the error of a body that cannot be decoded.\<close>

definition decode_body ::
  "(string \<Rightarrow> string option) \<Rightarrow> (string option \<Rightarrow> go_error) \<Rightarrow> http_request \<Rightarrow> go_error + Cluster" where
  "decode_body fnum json_err r =
     (case Option.bind (hq_Body r) (\<lambda>text. Option.bind (Decode text) (\<lambda>j. dec_Cluster fnum j zero_Cluster)) of
        None \<Rightarrow> Inl (json_err (hq_Body r))
      | Some body \<Rightarrow> Inr body)"

definition strict_CreateCluster ::
  "(string \<Rightarrow> string option) \<Rightarrow> (string option \<Rightarrow> go_error) \<Rightarrow> 's strictHandler \<Rightarrow> CreateClusterParams \<Rightarrow> 's script" where
  "strict_CreateCluster fnum json_err sh params r s =
     (case decode_body fnum json_err r of
        Inl err \<Rightarrow>
          (RequestErrorHandlerFunc (sh_options sh)
             (Wrapped (''can'' @ [CHR 0x27] @ ''t decode JSON body: '' @ error_text err) err) r, Finished, s)
      | Inr body \<Rightarrow>
          let handler = (\<lambda>r request s.
                case request of
                  CreateClusterRequestObject p b \<Rightarrow> as_object RespCreateCluster (ssi_CreateCluster (sh_ssi sh) p b s)
                | _ \<Rightarrow> (Panics wrong_request, s))
          in strict_finish sh
               (\<lambda>resp. case resp of RespCreateCluster x \<Rightarrow> Some (VisitCreateClusterResponse x) | _ \<Rightarrow> None) r
               (strict_call sh ''CreateCluster'' handler r (CreateClusterRequestObject params body) s))"

definition strict_GetHealth :: "'s strictHandler \<Rightarrow> 's script" where
  "strict_GetHealth sh r s =
     (let handler = (\<lambda>r request s.
            case request of
              GetHealthRequestObject \<Rightarrow> as_object RespGetHealth (ssi_GetHealth (sh_ssi sh) s)
            | _ \<Rightarrow> (Panics wrong_request, s))
      in strict_finish sh
           (\<lambda>resp. case resp of RespGetHealth x \<Rightarrow> Some (VisitGetHealthResponse x) | _ \<Rightarrow> None) r
           (strict_call sh ''GetHealth'' handler r GetHealthRequestObject s))"

definition strict_DeleteCluster :: "'s strictHandler \<Rightarrow> string \<Rightarrow> 's script" where
  "strict_DeleteCluster sh clusterId r s =
     (let handler = (\<lambda>r request s.
            case request of
              DeleteClusterRequestObject i \<Rightarrow> as_object RespDeleteCluster (ssi_DeleteCluster (sh_ssi sh) i s)
            | _ \<Rightarrow> (Panics wrong_request, s))
      in strict_finish sh
           (\<lambda>resp. case resp of RespDeleteCluster x \<Rightarrow> Some (VisitDeleteClusterResponse x) | _ \<Rightarrow> None) r
           (strict_call sh ''DeleteCluster'' handler r (DeleteClusterRequestObject clusterId) s))"

definition strict_GetCluster :: "'s strictHandler \<Rightarrow> string \<Rightarrow> 's script" where
  "strict_GetCluster sh clusterId r s =
     (let handler = (\<lambda>r request s.
            case request of
              GetClusterRequestObject i \<Rightarrow> as_object RespGetCluster (ssi_GetCluster (sh_ssi sh) i s)
            | _ \<Rightarrow> (Panics wrong_request, s))
      in strict_finish sh
           (\<lambda>resp. case resp of RespGetCluster x \<Rightarrow> Some (VisitGetClusterResponse x) | _ \<Rightarrow> None) r
           (strict_call sh ''GetCluster'' handler r (GetClusterRequestObject clusterId) s))"

definition NewStrictHandlerWithOptions ::
  "(string \<Rightarrow> string option) \<Rightarrow> (string option \<Rightarrow> go_error) \<Rightarrow> 's StrictServerInterface \<Rightarrow>
   ('s strict_handler_func \<Rightarrow> string \<Rightarrow> 's strict_handler_func) list \<Rightarrow> StrictHTTPServerOptions \<Rightarrow> 's ServerInterface" where
  "NewStrictHandlerWithOptions fnum json_err ssi middlewares options =
     (let sh = \<lparr>sh_ssi = ssi, sh_middlewares = middlewares, sh_options = options\<rparr> in
      \<lparr>si_ListClusters = strict_ListClusters sh, si_CreateCluster = strict_CreateCluster fnum json_err sh,
       si_GetHealth = strict_GetHealth sh, si_DeleteCluster = strict_DeleteCluster sh,
       si_GetCluster = strict_GetCluster sh\<rparr>)"

definition NewStrictHandler ::
  "(string \<Rightarrow> string option) \<Rightarrow> (string option \<Rightarrow> go_error) \<Rightarrow> 's StrictServerInterface \<Rightarrow>
   ('s strict_handler_func \<Rightarrow> string \<Rightarrow> 's strict_handler_func) list \<Rightarrow> 's ServerInterface" where
  "NewStrictHandler fnum json_err ssi middlewares =
     NewStrictHandlerWithOptions fnum json_err ssi middlewares
       \<lparr>RequestErrorHandlerFunc = \<lambda>err r. http_Error (error_text err) 400,
        ResponseErrorHandlerFunc = \<lambda>err r. http_Error (error_text err) 500\<rparr>"

end
