(* ===== verification/HttpApi.thy ===== *)
theory HttpApi
  imports HttpServer
begin

text \<open>
  The server as \<open>main.go\<close> and \<open>apiserver.New\<close> put it together: middleware chain, router, generated
  wrappers and strict handlers, the handler methods and the service below them.  A request is a
  function from the state of the hub to the response on the connection, the next state and the log.
\<close>

subsection \<open>Composition\<close>

record server_env =
  ev_mux :: mux
  ev_binder :: param_binder
  ev_fnum :: "string \<Rightarrow> string option"
  ev_json_err :: "string option \<Rightarrow> go_error"

text \<open>\<open>json.Marshal\<close> on an \<open>Error\<close>, and the calls of the bad request handler.\<close>

definition marshal_Error :: "Error \<Rightarrow> go_error + string" where
  "marshal_Error e = Inr (print_json (enc_Error e))"

definition problem_ops :: "int \<Rightarrow> ErrorType \<Rightarrow> string \<Rightarrow> string \<Rightarrow> writer_op list" where
  "problem_ops statusCode errType title detail =
     [SetContentType contentTypeProblemJSON, WriteHeader statusCode,
      Write (print_json (enc_Error \<lparr>er_Type = errType, er_Title = title, er_Status = Some (to_int32 statusCode),
        er_Detail = Some detail, er_Instance = None\<rparr>)), Write newline]"

definition bad_request_ops :: "err_node list \<Rightarrow> writer_op list" where
  "bad_request_ops err = problem_ops 400 ErrorTypeINVALIDARGUMENT ''Invalid argument'' (scrubValidationError err)"

lemma writeRFC9457_ops:
  "writeRFC9457 step marshal_Error code t title det w = fold step (problem_ops code t title det) w"
  by (simp add: writeRFC9457_def marshal_Error_def problem_ops_def newline_def)

lemma newBadRequestHandler_ops: "newBadRequestHandler step marshal_Error err w = fold step (bad_request_ops err) w"
  by (simp add: newBadRequestHandler_def bad_request_ops_def writeRFC9457_ops)

text \<open>The handler methods as the strict interface; the context of a request carries nothing the model needs.\<close>

definition handler_ssi ::
  "'s cluster_service \<Rightarrow> string \<Rightarrow> ('s \<Rightarrow> Health \<times> 's) \<Rightarrow> 's StrictServerInterface" where
  "handler_ssi svc uuid check =
     \<lparr>ssi_ListClusters = \<lambda>params s.
        (case handler_ListClusters svc (lp_MaxPageSize params) (lp_PageToken params) s of
           (Panics m, s') \<Rightarrow> (Panics m, s')
         | (Returns resp, s') \<Rightarrow> (Returns (Inr (Some resp)), s')),
      ssi_CreateCluster = \<lambda>params body s.
        (case handler_CreateCluster svc uuid (crp_Id params) body s of (resp, s') \<Rightarrow> (Returns (Inr (Some resp)), s')),
      ssi_GetHealth = \<lambda>s. (case handler_GetHealth check s of (resp, s') \<Rightarrow> (Returns (Inr (Some resp)), s')),
      ssi_DeleteCluster = \<lambda>iid s.
        (case handler_DeleteCluster svc iid s of (resp, s') \<Rightarrow> (Returns (Inr (Some resp)), s')),
      ssi_GetCluster = \<lambda>iid s.
        (case handler_GetCluster svc iid s of (resp, s') \<Rightarrow> (Returns (Inr (Some resp)), s'))\<rparr>"

definition api_routes :: "server_env \<Rightarrow> 's StrictServerInterface \<Rightarrow> 's script" where
  "api_routes env ssi =
     HandlerWithOptions (ev_mux env) (ev_binder env) (NewStrictHandler (ev_fnum env) (ev_json_err env) ssi [])
       \<lparr>so_BaseURL = [], so_Middlewares = [],
        so_ErrorHandlerFunc = Some (\<lambda>err r. bad_request_ops (param_chain err))\<rparr>"

text \<open>A script on the writers of the chain; the world is kept beside the connection.\<close>

definition pair_step :: "writer_op \<Rightarrow> http_response \<times> 's \<Rightarrow> http_response \<times> 's" where
  "pair_step op w = (conn_step op (fst w), snd w)"

definition on_connection :: "'s script \<Rightarrow> (http_response \<times> 's) responseWriter responseWriter http_handler" where
  "on_connection script r rw =
     (let inner = rw_ResponseWriter rw; w = rw_ResponseWriter inner;
          (ops, how, s') = script r (snd w);
          rw' = rw\<lparr>rw_ResponseWriter := inner\<lparr>rw_ResponseWriter := (fst w, s')\<rparr>\<rparr>
      in (how, fold (rw_step (rw_step pair_step)) ops rw', []))"

type_synonym 'route api_router =
  "((http_request \<Rightarrow> 'route option) \<times> ('route \<Rightarrow> http_request \<Rightarrow> err_node list option \<times> http_request)) option"

definition api_serve ::
  "'route api_router \<Rightarrow> 's script \<Rightarrow> http_request \<Rightarrow> 's \<Rightarrow> ending \<times> http_response \<times> 's \<times> log_entry list" where
  "api_serve router script r s =
     (case server_chain pair_step marshal_Error router (on_connection script) r (fresh_response, s) of
        (how, (w, s'), logged) \<Rightarrow> (how, w, s', logged))"

subsection \<open>What the chain does to a script\<close>

lemma pair_fold [simp]: "fold pair_step ops w = (fold conn_step ops (fst w), snd w)"
  by (induction ops arbitrary: w) (simp_all add: pair_step_def)

text \<open>The request the routes get: what the validator has read of the body is put back.\<close>

definition forwarded :: "'route api_router \<Rightarrow> http_request \<Rightarrow> http_request" where
  "forwarded router r =
     (case router of None \<Rightarrow> r
      | Some (FindRoute, ValidateRequest) \<Rightarrow>
          (case FindRoute r of None \<Rightarrow> r
           | Some route \<Rightarrow>
               (snd (ValidateRequest route r))\<lparr>hq_Body := if hq_Body r = None
                  then hq_Body (snd (ValidateRequest route r)) else hq_Body r\<rparr>))"

definition refusal :: "'route api_router \<Rightarrow> http_request \<Rightarrow> err_node list option" where
  "refusal router r =
     (case router of None \<Rightarrow> None
      | Some (FindRoute, ValidateRequest) \<Rightarrow>
          Option.bind (FindRoute r) (\<lambda>route. fst (ValidateRequest route r)))"

definition connection_after :: "writer_op list \<Rightarrow> ending \<Rightarrow> http_response" where
  "connection_after ops how =
     fold conn_step
       (if \<not> sends ops \<and> (\<exists>v. how = Panicked v)
        then ops @ problem_ops 500 ErrorTypeINTERNAL ''Internal Server Error'' detailUnexpectedPanicError
        else ops) fresh_response"

definition log_after :: "http_request \<Rightarrow> writer_op list \<Rightarrow> ending \<Rightarrow> log_entry list" where
  "log_after r ops how =
     (if how = Finished then [\<lparr>lg_method = hq_Method r, lg_path = hq_Path r, lg_status = logged_status ops 200\<rparr>]
      else [])"

lemma on_connection_state [simp]:
  "script r s = (ops, how, s') \<Longrightarrow>
   on_connection script r (wrap (wrap (w, s))) = (how, fold (rw_step (rw_step pair_step)) ops (wrap (wrap (w, s'))), [])"
  by (simp add: on_connection_def wrap_def)

lemma chain_middle:
  "server_chain pair_step marshal_Error router (on_connection script) r (w, s) =
     rfc9457RecoveryMiddleware pair_step marshal_Error (requestLoggingMiddleware
       (case refusal router r of
          Some err \<Rightarrow> (\<lambda>r w. (Finished, newBadRequestHandler (rw_step (rw_step pair_step)) marshal_Error err w, []))
        | None \<Rightarrow> (\<lambda>_. on_connection script (forwarded router r)))) r (w, s)"
  by (auto simp: server_chain_def openAPIValidationMiddleware_def rfc9457RecoveryMiddleware_def
      requestLoggingMiddleware_def refusal_def forwarded_def Let_def
      split: option.splits prod.splits)

text \<open>An accepted request: the script runs once on the forwarded request.\<close>

lemma serve_accepted:
  assumes "refusal router r = None" "script (forwarded router r) s = (ops, how, s')"
  shows "api_serve router script r s =
    (if how = Aborted then Aborted else Finished, connection_after ops how, s', log_after r ops how)"
  using assms(2)
  by (cases how)
    (auto simp: api_serve_def chain_middle assms(1) rfc9457RecoveryMiddleware_def requestLoggingMiddleware_def
      rw_under rw_wrote rw_status connection_after_def log_after_def writeRFC9457_ops)

text \<open>A refused request: the script does not run.\<close>

lemma serve_refused:
  assumes "refusal router r = Some err"
  shows "api_serve router script r s =
    (Finished, connection_after (bad_request_ops err) Finished, s, log_after r (bad_request_ops err) Finished)"
  by (auto simp: api_serve_def chain_middle assms rfc9457RecoveryMiddleware_def requestLoggingMiddleware_def
      rw_under rw_wrote rw_status connection_after_def log_after_def newBadRequestHandler_ops)

subsection \<open>Honest answers\<close>

text \<open>
  One complete response: JSON with 200 or 201, an empty 204, or a problem whose body states the
  status it is sent with and the title of its type.
\<close>

definition problem_answer :: "http_response \<Rightarrow> bool" where
  "problem_answer w \<longleftrightarrow>
     (\<exists>e code. hr_Sent w = Some (code, Some ''application/problem+json'') \<and> hr_Body w = print_json (enc_Error e) @ newline
       \<and> er_Status e = Some code \<and> mapErrorType (er_Type e) = (code, er_Title e))"

definition success_answer :: "http_response \<Rightarrow> bool" where
  "success_answer w \<longleftrightarrow>
     hr_Sent w = Some (204, None) \<and> hr_Body w = []
     \<or> (\<exists>code j. code \<in> {200, 201} \<and> hr_Sent w = Some (code, Some ''application/json'')
          \<and> hr_Body w = print_json j @ newline)"

definition honest_answer :: "http_response \<Rightarrow> bool" where
  "honest_answer w \<longleftrightarrow> hr_Superfluous w = 0 \<and> (success_answer w \<or> problem_answer w)"

text \<open>The text/plain answer to a body that cannot be decoded.\<close>

definition undecodable_ops :: "(string option \<Rightarrow> go_error) \<Rightarrow> http_request \<Rightarrow> writer_op list" where
  "undecodable_ops json_err r =
     http_Error (''can'' @ [CHR 0x27] @ ''t decode JSON body: '' @ error_text (json_err (hq_Body r))) 400"

lemma connection_finished [simp]: "connection_after ops Finished = fold conn_step ops fresh_response"
  by (simp add: connection_after_def)

lemma problem_connection:
  assumes "mapErrorType t = (code, title)"
  shows "problem_answer (fold conn_step (problem_ops code t title det) fresh_response)"
    and "honest_answer (fold conn_step (problem_ops code t title det) fresh_response)"
proof -
  let ?e = "\<lparr>er_Type = t, er_Title = title, er_Status = Some (to_int32 code), er_Detail = Some det, er_Instance = None\<rparr>"
  have code: "to_int32 code = code" "199 < code" using mapErrorType_code[of t] assms by (cases t; auto)+
  have "fold conn_step (problem_ops code t title det) fresh_response =
    \<lparr>hr_Type = Some contentTypeProblemJSON, hr_Sent = Some (code, Some contentTypeProblemJSON),
     hr_Body = print_json (enc_Error ?e) @ newline, hr_Superfluous = 0\<rparr>"
    using code by (simp add: problem_ops_def fresh_response_def conn_WriteHeader_def)
  then show "problem_answer (fold conn_step (problem_ops code t title det) fresh_response)"
      "honest_answer (fold conn_step (problem_ops code t title det) fresh_response)"
    using assms code by (auto simp: honest_answer_def problem_answer_def contentTypeProblemJSON_def intro!: exI[of _ ?e])
qed

lemma panicked_honest: "honest_answer (connection_after [] (Panicked m))"
  using problem_connection(2)[of ErrorTypeINTERNAL 500 "''Internal Server Error''" detailUnexpectedPanicError]
  by (simp add: connection_after_def sends_def)

lemma bad_request_honest:
  "problem_answer (fold conn_step (bad_request_ops err) fresh_response)"
  "honest_answer (fold conn_step (bad_request_ops err) fresh_response)"
  unfolding bad_request_ops_def by (rule problem_connection; simp)+

text \<open>An honest response of an operation, written by its \<open>Visit\<close> method.\<close>

lemma visit_problem_honest:
  assumes "honest (code, Some e)"
  shows "\<exists>ops. visit_problem e code = Inr ops \<and> honest_answer (fold conn_step ops fresh_response)"
proof -
  have "mapErrorType (er_Type e) = (code, er_Title e)" "er_Status e = Some code"
    using assms by (simp_all add: honest_def)
  moreover from this have "199 < code" by (cases "er_Type e"; auto)
  ultimately show ?thesis
    by (auto simp: visit_json_def fresh_response_def conn_WriteHeader_def honest_answer_def problem_answer_def)
qed

lemma visit_json_honest:
  assumes "j \<noteq> None" "code \<in> {200, 201}"
  shows "\<exists>ops. visit_json j ''application/json'' code = Inr ops \<and> honest_answer (fold conn_step ops fresh_response)"
proof -
  have "199 < code" using assms(2) by auto
  then show ?thesis
    using assms by (auto simp: visit_json_def fresh_response_def conn_WriteHeader_def honest_answer_def success_answer_def)
qed

lemma enc_ClusterList_iff:
  "enc_ClusterList l \<noteq> None \<longleftrightarrow> (case li_Clusters l of None \<Rightarrow> True | Some cls \<Rightarrow> list_all marshalable cls)"
  using enc_each_iff[of enc_Cluster] enc_Cluster_iff
  by (auto simp: enc_ClusterList_def list_all_iff split: option.split)

definition visit_ok :: "go_error + writer_op list \<Rightarrow> bool" where
  "visit_ok v \<longleftrightarrow> (\<exists>ops. v = Inr ops \<and> honest_answer (fold conn_step ops fresh_response))"

lemma create_visit_ok:
  "honest (create_status resp) \<Longrightarrow> (\<And>c. resp = CreateCluster201 c \<Longrightarrow> marshalable c) \<Longrightarrow>
   visit_ok (VisitCreateClusterResponse resp)"
  using visit_json_honest[of "enc_Cluster c" 201 for c] enc_Cluster_iff
  by (cases resp) (auto simp: visit_ok_def intro: visit_problem_honest)

lemma get_visit_ok:
  "honest (get_status resp) \<Longrightarrow> (\<And>c. resp = GetCluster200 c \<Longrightarrow> marshalable c) \<Longrightarrow>
   visit_ok (VisitGetClusterResponse resp)"
  using visit_json_honest[of "enc_Cluster c" 200 for c] enc_Cluster_iff
  by (cases resp) (auto simp: visit_ok_def intro: visit_problem_honest)

lemma list_visit_ok:
  "honest (list_status resp) \<Longrightarrow> (\<And>l. resp = ListClusters200 l \<Longrightarrow> enc_ClusterList l \<noteq> None) \<Longrightarrow>
   visit_ok (VisitListClustersResponse resp)"
  using visit_json_honest[of "enc_ClusterList l" 200 for l]
  by (cases resp) (auto simp: visit_ok_def intro: visit_problem_honest)

lemma delete_visit_ok: "honest (delete_status resp) \<Longrightarrow> visit_ok (VisitDeleteClusterResponse resp)"
  by (cases resp) (auto simp: visit_ok_def intro: visit_problem_honest,
      simp add: honest_answer_def success_answer_def fresh_response_def conn_WriteHeader_def)

lemma health_visit_ok: "visit_ok (VisitGetHealthResponse resp)"
  by (cases resp) (simp add: visit_ok_def visit_json_honest)

lemma success_marshalable:
  "fst (handler_CreateCluster svc uuid pid body s) = CreateCluster201 c \<Longrightarrow> marshalable c"
  "fst (handler_GetCluster svc iid s) = GetCluster200 c \<Longrightarrow> marshalable c"
  by (auto simp: handler_CreateCluster_def handler_GetCluster_def Let_def toAPICluster_def mapCreateError_def
      mapGetError_def split: option.splits sum.splits prod.splits if_splits)

lemma listed_marshalable:
  "fst (handler_ListClusters svc n tok s) = Returns (ListClusters200 l) \<Longrightarrow> enc_ClusterList l \<noteq> None"
  unfolding enc_ClusterList_iff
  by (auto simp: handler_ListClusters_def Let_def toAPIClusterList_def mapListError_def
      split: option.splits sum.splits prod.splits if_splits outcome.splits)

subsection \<open>The generated server on the handler\<close>

text \<open>What a strict handler does with the result of its \<open>Visit\<close> method.\<close>

definition written :: "go_error + writer_op list \<Rightarrow> 's \<Rightarrow> writer_op list \<times> ending \<times> 's" where
  "written v s = (case v of Inr ops \<Rightarrow> (ops, Finished, s) | Inl err \<Rightarrow> (http_Error (error_text err) 500, Finished, s))"

abbreviation strict_api ::
  "server_env \<Rightarrow> 's cluster_service \<Rightarrow> string \<Rightarrow> ('s \<Rightarrow> Health \<times> 's) \<Rightarrow> 's ServerInterface" where
  "strict_api env svc uuid check \<equiv> NewStrictHandler (ev_fnum env) (ev_json_err env) (handler_ssi svc uuid check) []"

lemmas strict_defs = NewStrictHandler_def NewStrictHandlerWithOptions_def strict_finish_def strict_call_def as_object_def
  handler_ssi_def written_def Let_def

lemma strict_list:
  "si_ListClusters (strict_api env svc uuid check) params r s =
     (case handler_ListClusters svc (lp_MaxPageSize params) (lp_PageToken params) s of
        (Panics m, s') \<Rightarrow> ([], Panicked m, s')
      | (Returns resp, s') \<Rightarrow> written (VisitListClustersResponse resp) s')"
  by (auto simp: strict_ListClusters_def strict_defs split: prod.splits outcome.splits sum.splits)

lemma strict_create:
  "si_CreateCluster (strict_api env svc uuid check) params r s =
     (case decode_body (ev_fnum env) (ev_json_err env) r of
        Inl err \<Rightarrow> (undecodable_ops (ev_json_err env) r, Finished, s)
      | Inr body \<Rightarrow>
          (case handler_CreateCluster svc uuid (crp_Id params) body s of (resp, s') \<Rightarrow>
             written (VisitCreateClusterResponse resp) s'))"
  by (auto simp: strict_CreateCluster_def strict_defs undecodable_ops_def decode_body_def
      split: prod.splits sum.splits option.splits)

lemma strict_health:
  "si_GetHealth (strict_api env svc uuid check) r s =
     (case handler_GetHealth check s of (resp, s') \<Rightarrow> written (VisitGetHealthResponse resp) s')"
  by (auto simp: strict_GetHealth_def strict_defs split: prod.splits sum.splits)

lemma strict_delete:
  "si_DeleteCluster (strict_api env svc uuid check) iid r s =
     (case handler_DeleteCluster svc iid s of (resp, s') \<Rightarrow> written (VisitDeleteClusterResponse resp) s')"
  by (auto simp: strict_DeleteCluster_def strict_defs split: prod.splits sum.splits)

lemma strict_get:
  "si_GetCluster (strict_api env svc uuid check) iid r s =
     (case handler_GetCluster svc iid s of (resp, s') \<Rightarrow> written (VisitGetClusterResponse resp) s')"
  by (auto simp: strict_GetCluster_def strict_defs split: prod.splits sum.splits)

lemmas strict_api_calls = strict_list strict_create strict_health strict_delete strict_get

text \<open>The routes, written out.\<close>

abbreviation bad_param :: "string \<Rightarrow> go_error \<Rightarrow> 's \<Rightarrow> writer_op list \<times> ending \<times> 's" where
  "bad_param name err s \<equiv> (bad_request_ops (param_chain (InvalidParamFormatError name err)), Finished, s)"

lemma api_routes_cases:
  "api_routes env ssi r s =
     (let si = NewStrictHandler (ev_fnum env) (ev_json_err env) ssi []; bd = ev_binder env in
      case ev_mux env (route_table []) (hq_Method r) (hq_Path r) of
        NotMatched ops \<Rightarrow> (ops, Finished, s)
      | Matched i urlParam \<Rightarrow>
          if i = 0 then
            (case BindQueryString bd ''page_token'' (hq_RawQuery r) of
               Inl err \<Rightarrow> bad_param ''page_token'' err s
             | Inr tok \<Rightarrow>
                (case BindQueryInt32 bd ''max_page_size'' (hq_RawQuery r) of
                   Inl err \<Rightarrow> bad_param ''max_page_size'' err s
                 | Inr n \<Rightarrow> si_ListClusters si \<lparr>lp_PageToken = tok, lp_MaxPageSize = n\<rparr> r s))
          else if i = 1 then
            (case BindQueryString bd ''id'' (hq_RawQuery r) of
               Inl err \<Rightarrow> bad_param ''id'' err s
             | Inr iid \<Rightarrow> si_CreateCluster si \<lparr>crp_Id = iid\<rparr> r s)
          else if i = 2 then si_GetHealth si r s
          else if i = 3 then
            (case BindPathString bd ''clusterId'' urlParam of
               Inl err \<Rightarrow> bad_param ''clusterId'' err s
             | Inr iid \<Rightarrow> si_DeleteCluster si iid r s)
          else if i = 4 then
            (case BindPathString bd ''clusterId'' urlParam of
               Inl err \<Rightarrow> bad_param ''clusterId'' err s
             | Inr iid \<Rightarrow> si_GetCluster si iid r s)
          else ([], Finished, s))"
  by (auto simp: api_routes_def HandlerWithOptions_def route_handlers_def Let_def with_middlewares_def
      siw_ListClusters_def siw_CreateCluster_def siw_GetHealth_def siw_DeleteCluster_def siw_GetCluster_def
      less_Suc_eq numeral_eq_Suc
      split: mux_result.split sum.split)

lemma written_honest:
  assumes "visit_ok v" "written v s = (ops, how, s')"
  shows "how = Finished \<and> honest_answer (connection_after ops how)"
  using assms by (auto simp: visit_ok_def written_def)

definition undecodable :: "server_env \<Rightarrow> http_request \<Rightarrow> bool" where
  "undecodable env r \<longleftrightarrow> (\<exists>err. decode_body (ev_fnum env) (ev_json_err env) r = Inl err)"

context cluster_service_contract
begin

lemma create_written:
  "visit_ok (VisitCreateClusterResponse (fst (handler_CreateCluster svc uuid pid body s)))"
  by (rule create_visit_ok[OF create_honest]) (rule success_marshalable(1))

lemma get_written: "visit_ok (VisitGetClusterResponse (fst (handler_GetCluster svc iid s)))"
  by (rule get_visit_ok[OF get_honest]) (rule success_marshalable(2))

lemma list_written:
  "fst (handler_ListClusters svc n tok s) = Returns resp \<Longrightarrow> visit_ok (VisitListClustersResponse resp)"
  by (rule list_visit_ok[OF list_honest]) (auto dest: listed_marshalable)

lemma delete_written: "visit_ok (VisitDeleteClusterResponse (fst (handler_DeleteCluster svc iid s)))"
  by (rule delete_visit_ok[OF delete_honest])

lemma strict_honest:
  "si_ListClusters (strict_api env svc uuid check) params r s = (ops, how, s') \<Longrightarrow>
     how \<noteq> Aborted \<and> honest_answer (connection_after ops how)"
  "si_CreateCluster (strict_api env svc uuid check) cparams r s = (ops, how, s') \<Longrightarrow>
     how \<noteq> Aborted \<and> honest_answer (connection_after ops how)
     \<or> undecodable env r \<and> ops = undecodable_ops (ev_json_err env) r \<and> how = Finished \<and> s' = s"
  "si_GetHealth (strict_api env svc uuid check) r s = (ops, how, s') \<Longrightarrow>
     how \<noteq> Aborted \<and> honest_answer (connection_after ops how)"
  "si_DeleteCluster (strict_api env svc uuid check) iid r s = (ops, how, s') \<Longrightarrow>
     how \<noteq> Aborted \<and> honest_answer (connection_after ops how)"
  "si_GetCluster (strict_api env svc uuid check) iid r s = (ops, how, s') \<Longrightarrow>
     how \<noteq> Aborted \<and> honest_answer (connection_after ops how)"
proof -
  show "how \<noteq> Aborted \<and> honest_answer (connection_after ops how)"
    if "si_ListClusters (strict_api env svc uuid check) params r s = (ops, how, s')"
    using that list_written[of "lp_MaxPageSize params" "lp_PageToken params" s]
    by (auto simp: strict_list panicked_honest split: prod.splits outcome.splits dest: written_honest)
  show "how \<noteq> Aborted \<and> honest_answer (connection_after ops how)
      \<or> undecodable env r \<and> ops = undecodable_ops (ev_json_err env) r \<and> how = Finished \<and> s' = s"
    if create: "si_CreateCluster (strict_api env svc uuid check) cparams r s = (ops, how, s')"
  proof (cases "decode_body (ev_fnum env) (ev_json_err env) r")
    case (Inl err)
    then show ?thesis using create by (simp add: strict_create undecodable_def)
  next
    case (Inr body)
    then show ?thesis
      using create create_written[of uuid "crp_Id cparams" body s]
      by (auto simp: strict_create split: prod.splits dest: written_honest)
  qed
  show "how \<noteq> Aborted \<and> honest_answer (connection_after ops how)"
    if "si_GetHealth (strict_api env svc uuid check) r s = (ops, how, s')"
    using that health_visit_ok by (auto simp: strict_health split: prod.splits dest: written_honest)
  show "how \<noteq> Aborted \<and> honest_answer (connection_after ops how)"
    if "si_DeleteCluster (strict_api env svc uuid check) iid r s = (ops, how, s')"
    using that delete_written[of iid s] by (auto simp: strict_delete split: prod.splits dest: written_honest)
  show "how \<noteq> Aborted \<and> honest_answer (connection_after ops how)"
    if "si_GetCluster (strict_api env svc uuid check) iid r s = (ops, how, s')"
    using that get_written[of iid s] by (auto simp: strict_get split: prod.splits dest: written_honest)
qed

lemma routes_honest:
  assumes "api_routes env (handler_ssi svc uuid check) r s = (ops, how, s')"
    and "ev_mux env (route_table []) (hq_Method r) (hq_Path r) = Matched i p" "i < 5"
  shows "how \<noteq> Aborted \<and> honest_answer (connection_after ops how)
    \<or> i = 1 \<and> undecodable env r \<and> ops = undecodable_ops (ev_json_err env) r \<and> how = Finished \<and> s' = s"
proof -
  have "i = 0 \<or> i = 1 \<or> i = 2 \<or> i = 3 \<or> i = 4" using assms(3) by linarith
  then show ?thesis
    using assms(1,2)
    by (elim disjE)
      (auto simp: api_routes_cases Let_def bad_request_honest split: sum.splits dest: strict_honest)
qed

end

text \<open>
  C15: what the composed server answers.  A request the validator refuses gets one problem and does not
  reach the hub.  Any other one whose method and path the router matches to a route of the API is answered
  once: with JSON, an empty 204, or a problem that states its own status and the title of its type, the
  answers after a panic included.  The one exception is the body of a create the decoder cannot read,
  which gets a text/plain 400 and changes nothing.  A request no route matches, a wrong method on a path
  of the API among them, gets the router's own answer as it is and changes nothing.
\<close>

theorem api_answers_honest:
  assumes "route = ev_mux env (route_table []) (hq_Method (forwarded router r)) (hq_Path (forwarded router r))"
    and "case route of Matched i p \<Rightarrow> i < 5 | NotMatched ops \<Rightarrow> True"
    and "api_serve router (api_routes env (handler_ssi (dispatcher_service c cfg qa enabled now) uuid check)) r s =
      (how, w, s', logged)"
  shows "how = Finished \<and> (refusal router r \<noteq> None \<longrightarrow> s' = s \<and> problem_answer w \<and> honest_answer w)
    \<and> (refusal router r = None \<longrightarrow>
        (case route of
           Matched i p \<Rightarrow> honest_answer w
             \<or> i = 1 \<and> undecodable env (forwarded router r) \<and> s' = s \<and> hr_Superfluous w = 0
               \<and> hr_Sent w = Some (400, Some ''text/plain; charset=utf-8'')
         | NotMatched ops \<Rightarrow> s' = s \<and> w = connection_after ops Finished))"
proof (cases "refusal router r")
  case (Some err)
  then show ?thesis using assms(3) Some by (auto simp: serve_refused[OF Some] bad_request_honest)
next
  case None
  let ?script = "api_routes env (handler_ssi (dispatcher_service c cfg qa enabled now) uuid check)"
  obtain ops how1 s1 where run: "?script (forwarded router r) s = (ops, how1, s1)" by (metis prod_cases3)
  note served = serve_accepted[where script = ?script, OF None run]
  show ?thesis
  proof (cases route)
    case (Matched i p)
    have match: "ev_mux env (route_table []) (hq_Method (forwarded router r)) (hq_Path (forwarded router r)) = Matched i p"
      using assms(1) unfolding Matched by (rule sym)
    have small: "i < 5" using assms(2) unfolding Matched by simp
    have "hr_Sent (connection_after (undecodable_ops f q) Finished) = Some (400, Some ''text/plain; charset=utf-8'')"
      "hr_Superfluous (connection_after (undecodable_ops f q) Finished) = 0" for f q
      by (simp_all add: undecodable_ops_def http_Error_def fresh_response_def conn_WriteHeader_def)
    then show ?thesis
      using assms(3) None served disp.routes_honest[OF run match small] Matched by auto
  next
    case (NotMatched own)
    then have "ops = own" "how1 = Finished" "s1 = s"
      using run assms(1) by (simp_all add: api_routes_cases Let_def)
    then show ?thesis using assms(3) None served NotMatched by auto
  qed
qed

subsection \<open>A concrete environment\<close>

text \<open>A router that prefers a static pattern, and matches the parameter with one segment of the path.\<close>

definition clusters_path :: string where
  "clusters_path = ''/api/v1alpha1/clusters''"

definition cluster_path :: "string \<Rightarrow> string" where
  "cluster_path iid = clusters_path @ ''/'' @ iid"

definition simple_mux :: mux where
  "simple_mux table m p =
     (let n = length (cluster_path []); seg = drop n p;
          find = (\<lambda>q. List.find (\<lambda>i. table ! i = (m, q)) [0..<length table])
      in case (if CHR ''{'' \<in> set p then None else find p) of
           Some i \<Rightarrow> Matched i []
         | None \<Rightarrow>
             (if take n p = cluster_path [] \<and> seg \<noteq> [] \<and> CHR ''/'' \<notin> set seg
              then (case find (cluster_path ''{clusterId}'') of
                  Some i \<Rightarrow> Matched i seg
                | None \<Rightarrow> NotMatched [WriteHeader 405])
              else NotMatched (http_Error ''404 page not found'' 404)))"

definition simple_binder :: param_binder where
  "simple_binder =
     \<lparr>BindQueryString = \<lambda>name q. Inr (if take (length name + 1) q = name @ ''='' then Some (drop (length name + 1) q) else None),
      BindQueryInt32 = \<lambda>name q. Inr None, BindPathString = \<lambda>name t. Inr t\<rparr>"

definition simple_env :: server_env where
  "simple_env = \<lparr>ev_mux = simple_mux, ev_binder = simple_binder, ev_fnum = \<lambda>s. Some s,
     ev_json_err = \<lambda>body. PlainError ''invalid JSON''\<rparr>"

abbreviation get_request :: "string \<Rightarrow> string \<Rightarrow> http_request" where
  "get_request m p \<equiv> \<lparr>hq_Method = m, hq_Path = p, hq_RawQuery = [], hq_Body = None\<rparr>"

lemma simple_routes:
  "simple_mux (route_table []) ''GET'' clusters_path = Matched 0 []"
  "simple_mux (route_table []) ''POST'' clusters_path = Matched 1 []"
  "simple_mux (route_table []) ''GET'' (cluster_path ''health'') = Matched 2 []"
  by (simp_all add: simple_mux_def route_table_def clusters_path_def cluster_path_def upt_rec)

text \<open>A server that validates nothing, and one that refuses every request.\<close>

definition open_router :: "nat api_router" where
  "open_router = None"

definition closed_router :: "nat api_router" where
  "closed_router = Some (\<lambda>r. Some 0, \<lambda>route r. (Some [NOther ''refused''], r))"

lemma open_router_simps [simp]: "forwarded open_router r = r" "refusal open_router r = None"
  by (simp_all add: forwarded_def refusal_def open_router_def)

theorem api_answers_honest_witness:
  "\<exists>w s' logged. api_serve open_router
     (api_routes simple_env (handler_ssi (dispatcher_service mem_client sample_cfg nat_quantities [''kubevirt''] 1)
        ''u-1'' (Check no_agents gvk_Kind sample_health ''1.0'' 3)))
     (get_request ''GET'' ''/api/v1alpha1/clusters'') two_hub = (Finished, w, s', logged) \<and> honest_answer w"
proof -
  let ?run = "api_serve open_router
     (api_routes simple_env (handler_ssi (dispatcher_service mem_client sample_cfg nat_quantities [''kubevirt''] 1)
        ''u-1'' (Check no_agents gvk_Kind sample_health ''1.0'' 3)))
     (get_request ''GET'' ''/api/v1alpha1/clusters'') two_hub"
  obtain how w s' logged where run: "?run = (how, w, s', logged)" by (metis prod_cases4)
  have "ev_mux simple_env (route_table []) ''GET'' ''/api/v1alpha1/clusters'' = Matched 0 []"
    using simple_routes(1) by (simp add: simple_env_def clusters_path_def)
  then have "case ev_mux simple_env (route_table []) (hq_Method (forwarded open_router (get_request ''GET'' ''/api/v1alpha1/clusters'')))
      (hq_Path (forwarded open_router (get_request ''GET'' ''/api/v1alpha1/clusters''))) of Matched i p \<Rightarrow> i < 5 | NotMatched ops \<Rightarrow> True"
    and route: "ev_mux simple_env (route_table []) (hq_Method (forwarded open_router (get_request ''GET'' ''/api/v1alpha1/clusters'')))
      (hq_Path (forwarded open_router (get_request ''GET'' ''/api/v1alpha1/clusters''))) = Matched 0 []" by simp_all
  from api_answers_honest[OF refl this(1) run] run route show ?thesis by simp
qed

subsection \<open>Which operation answers\<close>

text \<open>
  What chi documents of the routes: a static pattern comes before one with a parameter, and a parameter
  matches one segment of the path; and what the runtime does with a path parameter that needs no decoding.
\<close>

definition chi_like :: "mux \<Rightarrow> bool" where
  "chi_like mux \<longleftrightarrow>
     mux (route_table []) ''GET'' clusters_path = Matched 0 []
     \<and> mux (route_table []) ''POST'' clusters_path = Matched 1 []
     \<and> mux (route_table []) ''GET'' (cluster_path ''health'') = Matched 2 []
     \<and> (\<forall>seg. seg \<noteq> [] \<and> CHR ''/'' \<notin> set seg \<and> CHR ''{'' \<notin> set seg \<longrightarrow>
          mux (route_table []) ''DELETE'' (cluster_path seg) = Matched 3 seg
          \<and> (seg \<noteq> ''health'' \<longrightarrow> mux (route_table []) ''GET'' (cluster_path seg) = Matched 4 seg))"

definition plain_paths :: "param_binder \<Rightarrow> bool" where
  "plain_paths bd \<longleftrightarrow> (\<forall>t. clientIDRe t \<longrightarrow> BindPathString bd ''clusterId'' t = Inr t)"

lemma simple_mux_chi: "chi_like simple_mux"
proof -
  have delete: "simple_mux (route_table []) ''DELETE'' (cluster_path seg) = Matched 3 seg"
    and get: "seg \<noteq> ''health'' \<Longrightarrow> simple_mux (route_table []) ''GET'' (cluster_path seg) = Matched 4 seg"
    if "seg \<noteq> []" "CHR ''/'' \<notin> set seg" "CHR ''{'' \<notin> set seg" for seg
    using that by (auto simp: simple_mux_def route_table_def clusters_path_def cluster_path_def upt_rec)
  then show ?thesis using simple_routes unfolding chi_like_def by blast
qed

lemma clientID_segment:
  assumes "clientIDRe iid"
  shows "iid \<noteq> []" "CHR ''/'' \<notin> set iid" "CHR ''{'' \<notin> set iid"
  using assms by (auto simp: clientIDRe_def Let_def list_all_iff is_lower_def is_digit_def digit_val_def)

text \<open>The response of an operation, on the wire.\<close>

definition respond ::
  "http_request \<Rightarrow> go_error + writer_op list \<Rightarrow> 's \<Rightarrow> ending \<times> http_response \<times> 's \<times> log_entry list" where
  "respond r v s = (case written v s of (ops, how, s') \<Rightarrow> (Finished, connection_after ops how, s', log_after r ops how))"

lemma serve_written:
  assumes "refusal router r = None" "script (forwarded router r) s = written v s'"
  shows "api_serve router script r s = respond r v s'"
proof -
  obtain ops where "written v s' = (ops, Finished, s')" by (cases v) (auto simp: written_def)
  then show ?thesis using serve_accepted[OF assms(1), of script s ops Finished s'] assms(2) by (simp add: respond_def)
qed

text \<open>
  A valid client id names its cluster in the paths of the API, with one exception.  A GET of
  such a path answers what the handler answers for that id and a DELETE deletes it; but \<open>health\<close>,
  which the validation of client ids accepts, is the path of the health check, so that a cluster of
  that name can be created and deleted and never be read.
\<close>

theorem cluster_paths:
  assumes "chi_like (ev_mux env)" "plain_paths (ev_binder env)" "validateClientID iid = None"
    and "refusal router r = None" "hq_Path (forwarded router r) = cluster_path iid"
    and "serve = api_serve router (api_routes env (handler_ssi svc uuid check)) r"
  shows "(hq_Method (forwarded router r) = ''DELETE'' \<longrightarrow>
       (case handler_DeleteCluster svc iid s of (resp, s') \<Rightarrow>
          serve s = respond r (VisitDeleteClusterResponse resp) s'))
    \<and> (hq_Method (forwarded router r) = ''GET'' \<and> iid \<noteq> ''health'' \<longrightarrow>
       (case handler_GetCluster svc iid s of (resp, s') \<Rightarrow>
          serve s = respond r (VisitGetClusterResponse resp) s'))
    \<and> (hq_Method (forwarded router r) = ''GET'' \<and> iid = ''health'' \<longrightarrow>
       (case handler_GetHealth check s of (resp, s') \<Rightarrow>
          serve s = respond r (VisitGetHealthResponse resp) s'))
    \<and> validateClientID ''health'' = None"
proof -
  have iid: "clientIDRe iid" using assms(3) by (simp add: validateClientID_def split: if_splits)
  have bind: "BindPathString (ev_binder env) ''clusterId'' iid = Inr iid" using assms(2) iid by (simp add: plain_paths_def)
  have delete: "ev_mux env (route_table []) ''DELETE'' (cluster_path iid) = Matched 3 iid"
    and get: "iid \<noteq> ''health'' \<Longrightarrow> ev_mux env (route_table []) ''GET'' (cluster_path iid) = Matched 4 iid"
    and health: "ev_mux env (route_table []) ''GET'' (cluster_path ''health'') = Matched 2 []"
    using assms(1) clientID_segment[OF iid] by (auto simp: chi_like_def)
  have "validateClientID ''health'' = None"
    by (simp add: validateClientID_def clientIDRe_def is_lower_def is_digit_def digit_val_def)
  then show ?thesis
    unfolding assms(6)
    by (intro conjI impI; auto simp: api_routes_cases strict_api_calls assms(5) bind delete get health Let_def
        split: prod.split intro!: serve_written[OF assms(4)])
qed

lemma simple_plain_paths: "plain_paths (ev_binder simple_env)"
  by (simp add: plain_paths_def simple_env_def simple_binder_def)

theorem cluster_paths_witness:
  "api_serve open_router
     (api_routes simple_env (handler_ssi (dispatcher_service mem_client sample_cfg nat_quantities [''kubevirt''] 1)
        ''u-1'' (\<lambda>s. (zero_Health, s)))) (get_request ''GET'' (cluster_path ''health'')) two_hub =
   respond (get_request ''GET'' (cluster_path ''health'')) (VisitGetHealthResponse (GetHealth200 zero_Health)) two_hub"
proof -
  have "chi_like (ev_mux simple_env)" by (simp add: simple_env_def simple_mux_chi)
  moreover have "validateClientID ''health'' = None"
    by (simp add: validateClientID_def clientIDRe_def is_lower_def is_digit_def digit_val_def)
  ultimately show ?thesis
    using cluster_paths[where router = open_router and r = "get_request ''GET'' (cluster_path ''health'')"
        and iid = "''health''" and s = two_hub and check = "\<lambda>s. (zero_Health, s)", OF _ simple_plain_paths _ _ _ refl]
    by (simp add: handler_GetHealth_def)
qed

subsection \<open>Bodies the validator accepts and the decoder does not\<close>

text \<open>
  A create whose body passes the validator but cannot be decoded into the Go type is answered
  with the plain text of the decoder's error and status 400, not with a problem, and the hub is not
  touched.  The witness is a worker count written \<open>3.0\<close>, an integer to JSON schema and none to
  a Go \<open>int\<close>.
\<close>

theorem undecodable_body_plain_text:
  assumes "refusal router r = None" "undecodable env (forwarded router r)"
    and "ev_mux env (route_table []) (hq_Method (forwarded router r)) (hq_Path (forwarded router r)) = Matched 1 p"
    and "BindQueryString (ev_binder env) ''id'' (hq_RawQuery (forwarded router r)) = Inr iid"
  shows "api_serve router (api_routes env (handler_ssi svc uuid check)) r s =
    (Finished,
     \<lparr>hr_Type = Some ''text/plain; charset=utf-8'', hr_Sent = Some (400, Some ''text/plain; charset=utf-8''),
      hr_Body = ''can'' @ [CHR 0x27] @ ''t decode JSON body: ''
        @ error_text (ev_json_err env (hq_Body (forwarded router r))) @ newline, hr_Superfluous = 0\<rparr>,
     s, [\<lparr>lg_method = hq_Method r, lg_path = hq_Path r, lg_status = 400\<rparr>])"
proof -
  let ?script = "api_routes env (handler_ssi svc uuid check)"
  obtain err where "decode_body (ev_fnum env) (ev_json_err env) (forwarded router r) = Inl err"
    using assms(2) by (auto simp: undecodable_def)
  then have "?script (forwarded router r) s = (undecodable_ops (ev_json_err env) (forwarded router r), Finished, s)"
    using assms(3,4) by (simp add: api_routes_cases strict_create Let_def)
  from serve_accepted[where script = ?script, OF assms(1) this] show ?thesis
    by (simp add: undecodable_ops_def http_Error_def fresh_response_def conn_WriteHeader_def log_after_def)
qed

definition fractional_count :: json where
  "fractional_count = JObject [(''spec'', JObject [(''nodes'', JObject [(''workers'', JObject
     [(''count'', JNumber ''3.0'')])])])]"

lemma fractional_count_undecodable:
  "undecodable env \<lparr>hq_Method = m, hq_Path = p, hq_RawQuery = [], hq_Body = Some (print_json fractional_count)\<rparr>"
proof -
  have "json_number ''3.0''" by code_simp
  then have "json_ok maxNestingDepth fractional_count"
    by (simp add: fractional_count_def maxNestingDepth_def valid_ascii byte_val_def)
  then have "Decode (print_json fractional_count) = Some fractional_count"
    using Unmarshal_print(2)[of fractional_count "[]"] by simp
  moreover have "Atoi ''3.0'' = None" by (simp add: Atoi_def digit_val_def)
  then have "dec_Cluster fnum fractional_count zero_Cluster = None" for fnum
    by (simp add: fractional_count_def dec_Cluster_def Cluster_fields_def val_field_def zero_Cluster_def
        ClusterSpec_fields_def ptr_field_def dec_ptr_def ClusterNodes_fields_def WorkerSpec_fields_def dec_int_def
        zero_ClusterSpec_def zero_ClusterNodes_def zero_WorkerSpec_def)
  ultimately show ?thesis by (simp add: undecodable_def decode_body_def)
qed

theorem undecodable_body_plain_text_witness:
  "\<exists>w logged. api_serve open_router
     (api_routes simple_env (handler_ssi (dispatcher_service mem_client sample_cfg nat_quantities [''kubevirt''] 1)
        ''u-1'' (\<lambda>s. (zero_Health, s))))
     \<lparr>hq_Method = ''POST'', hq_Path = clusters_path, hq_RawQuery = [], hq_Body = Some (print_json fractional_count)\<rparr> two_hub
     = (Finished, w, two_hub, logged)
   \<and> hr_Sent w = Some (400, Some ''text/plain; charset=utf-8'')"
proof -
  have "BindQueryString (ev_binder simple_env) ''id'' [] = Inr None" "ev_mux simple_env = simple_mux"
    by (simp_all add: simple_env_def simple_binder_def)
  then show ?thesis
    using undecodable_body_plain_text[where router = open_router and env = simple_env and iid = None and s = two_hub and p = "[]"
        and r = "\<lparr>hq_Method = ''POST'', hq_Path = clusters_path, hq_RawQuery = [], hq_Body = Some (print_json fractional_count)\<rparr>"]
      simple_routes(2) fractional_count_undecodable
    by simp
qed

end
