(* ===== verification/UrlQuery.thy ===== *)
theory UrlQuery
  imports ApiJson
begin

text \<open>
  The part of \<open>net/url\<close> on queries: escaping, \<open>Values\<close> as the list of keys in their order with the
  values of each, \<open>Encode\<close>, \<open>ParseQuery\<close>.  An encoded query is parsed back to what it was made of.
\<close>

subsection \<open>Escaping\<close>

definition unreserved :: "char \<Rightarrow> bool" where
  "unreserved ch \<longleftrightarrow>
     (let n = byte_val ch in
      48 \<le> n \<and> n \<le> 57 \<or> 65 \<le> n \<and> n \<le> 90 \<or> 97 \<le> n \<and> n \<le> 122 \<or> ch \<in> {CHR ''-'', CHR ''_'', CHR ''.'', CHR ''~''})"

definition upper_hex :: "nat \<Rightarrow> char" where
  "upper_hex d = char_of (if d < 10 then 48 + d else 55 + d)"

definition escape_char :: "char \<Rightarrow> string" where
  "escape_char ch =
     (if unreserved ch then [ch]
      else if ch = CHR '' '' then ''+''
      else [CHR ''%'', upper_hex (byte_val ch div 16), upper_hex (byte_val ch mod 16)])"

definition QueryEscape :: "string \<Rightarrow> string" where
  "QueryEscape s = concat (map escape_char s)"

definition escape_error :: "string \<Rightarrow> go_error" where
  "escape_error s = PlainError (''invalid URL escape '' @ Quote (take 3 s))"

fun QueryUnescape :: "string \<Rightarrow> go_error + string" where
  "QueryUnescape [] = Inr []"
| "QueryUnescape (ch # s) =
     (if ch = CHR ''%'' then
        (case s of
           a # b # rest \<Rightarrow>
             (case (hex_val a, hex_val b) of
                (Some x, Some y) \<Rightarrow>
                  (case QueryUnescape rest of Inl err \<Rightarrow> Inl err | Inr t \<Rightarrow> Inr (char_of (16 * x + y) # t))
              | _ \<Rightarrow> Inl (escape_error (ch # s)))
         | _ \<Rightarrow> Inl (escape_error (ch # s)))
      else
        (case QueryUnescape s of
           Inl err \<Rightarrow> Inl err
         | Inr t \<Rightarrow> Inr ((if ch = CHR ''+'' then CHR '' '' else ch) # t)))"

subsection \<open>Values\<close>

type_synonym url_values = "(string \<times> string list) list"

definition Values_Add :: "string \<Rightarrow> string \<Rightarrow> url_values \<Rightarrow> url_values" where
  "Values_Add k v m = upsert k ((case map_of m k of None \<Rightarrow> [] | Some vs \<Rightarrow> vs) @ [v]) m"

definition pairs_of :: "url_values \<Rightarrow> (string \<times> string) list" where
  "pairs_of m = concat (map (\<lambda>(k, vs). map (Pair k) vs) m)"

definition encode_pair :: "string \<times> string \<Rightarrow> string" where
  "encode_pair kv = QueryEscape (fst kv) @ ''='' @ QueryEscape (snd kv)"

fun join_pairs :: "(string \<times> string) list \<Rightarrow> string" where
  "join_pairs [] = []"
| "join_pairs [kv] = encode_pair kv"
| "join_pairs (kv # kvs) = encode_pair kv @ ''&'' @ join_pairs kvs"

definition Values_Encode :: "url_values \<Rightarrow> string" where
  "Values_Encode m = join_pairs (pairs_of m)"

text \<open>\<open>strings.Cut\<close> at a character.\<close>

definition Cut :: "char \<Rightarrow> string \<Rightarrow> string \<times> string" where
  "Cut ch s = (takeWhile (\<lambda>x. x \<noteq> ch) s, drop 1 (dropWhile (\<lambda>x. x \<noteq> ch) s))"

text \<open>One piece of a query: the values and the first error so far.\<close>

definition parse_piece :: "string \<Rightarrow> url_values \<times> go_error option \<Rightarrow> url_values \<times> go_error option" where
  "parse_piece piece st =
     (case st of (m, err) \<Rightarrow>
        if CHR '';'' \<in> set piece then (m, Some (PlainError ''invalid semicolon separator in query''))
        else if piece = [] then (m, err)
        else case QueryUnescape (fst (Cut (CHR ''='') piece)) of
          Inl err1 \<Rightarrow> (m, if err = None then Some err1 else err)
        | Inr k \<Rightarrow>
            (case QueryUnescape (snd (Cut (CHR ''='') piece)) of
               Inl err1 \<Rightarrow> (m, if err = None then Some err1 else err)
             | Inr v \<Rightarrow> (Values_Add k v m, err)))"

function parse_query :: "string \<Rightarrow> url_values \<times> go_error option \<Rightarrow> url_values \<times> go_error option" where
  "parse_query s st =
     (if s = [] then st
      else parse_query (snd (Cut (CHR ''&'') s)) (parse_piece (fst (Cut (CHR ''&'') s)) st))"
  by pat_completeness auto

termination
proof (relation "measure (\<lambda>(s, st). length s)")
  fix s :: string and st :: "url_values \<times> go_error option"
  assume "s \<noteq> []"
  moreover have "length (dropWhile (\<lambda>x. x \<noteq> CHR ''&'') s) \<le> length s" by (rule length_dropWhile_le)
  ultimately show "((snd (Cut (CHR ''&'') s), parse_piece (fst (Cut (CHR ''&'') s)) st), s, st)
      \<in> measure (\<lambda>(s, st). length s)"
    by (cases s) (auto simp: Cut_def less_Suc_eq_le)
qed simp

declare parse_query.simps [simp del]

definition ParseQuery :: "string \<Rightarrow> url_values \<times> go_error option" where
  "ParseQuery s = parse_query s ([], None)"

subsection \<open>Round trip\<close>

lemma hex_val_upper: "d < 16 \<Longrightarrow> hex_val (upper_hex d) = Some d"
  by (simp add: hex_val_def upper_hex_def byte_val_def Let_def take_bit_eq_mod)

lemma unreserved_plain: "unreserved ch \<Longrightarrow> ch \<notin> {CHR ''%'', CHR ''+'', CHR '' '', CHR ''&'', CHR ''='', CHR '';''}"
  by (auto simp: unreserved_def byte_val_def)

lemma upper_hex_unreserved: "d < 16 \<Longrightarrow> unreserved (upper_hex d)"
  by (auto simp: unreserved_def upper_hex_def byte_val_def Let_def take_bit_eq_mod)

lemma byte_val_bound: "byte_val ch < 256"
  by (simp add: byte_val_def)

lemma unescape_escape_char:
  "QueryUnescape (escape_char ch @ s) = (case QueryUnescape s of Inl err \<Rightarrow> Inl err | Inr t \<Rightarrow> Inr (ch # t))"
proof -
  have "byte_val ch div 16 < 16" "byte_val ch mod 16 < 16" using byte_val_bound[of ch] by auto
  then have "hex_val (upper_hex (byte_val ch div 16)) = Some (byte_val ch div 16)"
    "hex_val (upper_hex (byte_val ch mod 16)) = Some (byte_val ch mod 16)"
    using hex_val_upper by blast+
  moreover have "char_of (16 * (byte_val ch div 16) + byte_val ch mod 16) = ch" by simp
  ultimately show ?thesis
    using unreserved_plain[of ch] by (auto simp: escape_char_def split: sum.splits)
qed

theorem QueryUnescape_Escape: "QueryUnescape (QueryEscape s) = Inr s"
  by (induction s) (simp_all add: QueryEscape_def unescape_escape_char)

lemma escape_safe: "ch \<in> set (QueryEscape s) \<Longrightarrow> unreserved ch \<or> ch = CHR ''%'' \<or> ch = CHR ''+''"
proof -
  have "unreserved (upper_hex (byte_val c div 16))" "unreserved (upper_hex (byte_val c mod 16))" for c
    using byte_val_bound[of c] by (auto intro!: upper_hex_unreserved)
  then have "unreserved x \<or> x = CHR ''%'' \<or> x = CHR ''+''" if "x \<in> set (escape_char c)" for x c
    using that by (auto simp: escape_char_def split: if_splits)
  then show "ch \<in> set (QueryEscape s) \<Longrightarrow> unreserved ch \<or> ch = CHR ''%'' \<or> ch = CHR ''+''"
    by (auto simp: QueryEscape_def)
qed

lemma escape_no_separator: "CHR ''&'' \<notin> set (QueryEscape s)" "CHR ''='' \<notin> set (QueryEscape s)" "CHR '';'' \<notin> set (QueryEscape s)"
  using escape_safe[of _ s] unreserved_plain by fastforce+

lemma Cut_at: "ch \<notin> set a \<Longrightarrow> Cut ch (a @ ch # b) = (a, b)" "ch \<notin> set a \<Longrightarrow> Cut ch a = (a, [])"
  by (induction a) (auto simp: Cut_def)

lemma parse_encoded_pair: "parse_piece (encode_pair (k, v)) (m, err) = (Values_Add k v m, err)"
  using escape_no_separator[of k] escape_no_separator[of v] Cut_at(1)[of "CHR ''=''" "QueryEscape k" "QueryEscape v"]
  by (simp add: parse_piece_def encode_pair_def QueryUnescape_Escape)

lemma encoded_no_amp: "CHR ''&'' \<notin> set (encode_pair kv)"
  using escape_no_separator(1)[of "fst kv"] escape_no_separator(1)[of "snd kv"] by (auto simp: encode_pair_def)

lemma encode_pair_nonempty: "encode_pair kv \<noteq> []"
  by (simp add: encode_pair_def)

lemma parse_joined: "parse_query (join_pairs kvs) (m, err) = (fold (\<lambda>(k, v). Values_Add k v) kvs m, err)"
proof (induction kvs arbitrary: m rule: join_pairs.induct)
  case (2 kv)
  then show ?case
    using Cut_at(2)[OF encoded_no_amp[of kv]] encode_pair_nonempty[of kv] parse_encoded_pair[of "fst kv" "snd kv" m err]
    by (subst parse_query.simps) (simp add: parse_query.simps[of "[]"] split_def)
next
  case (3 kv kv' kvs)
  then show ?case
    using Cut_at(1)[OF encoded_no_amp[of kv], of "join_pairs (kv' # kvs)"] encode_pair_nonempty[of kv]
      parse_encoded_pair[of "fst kv" "snd kv" m err]
    by (subst parse_query.simps) (simp add: split_def)
qed (simp add: parse_query.simps)

text \<open>Values a program can build with \<open>Add\<close>: sorted keys, and no key without a value.\<close>

definition wf_values :: "url_values \<Rightarrow> bool" where
  "wf_values m \<longleftrightarrow> sorted_map m \<and> (\<forall>kv \<in> set m. snd kv \<noteq> [])"

lemma wf_values_Add: "wf_values m \<Longrightarrow> wf_values (Values_Add k v m)"
  using upsert_values[of k] upsert_sorted[of m k] by (fastforce simp: wf_values_def Values_Add_def)

definition all_below :: "url_values \<Rightarrow> string \<Rightarrow> bool" where
  "all_below m k \<longleftrightarrow> (\<forall>k' \<in> fst ` set m. k' < k)"

lemma below_none: "all_below m k \<Longrightarrow> map_of m k = None"
  by (force simp: all_below_def map_of_eq_None_iff)

lemma below_last: "all_below m k \<Longrightarrow> upsert k v m = m @ [(k, v)]"
  by (rule upsert_last) (auto simp: all_below_def)

lemma below_replaces: "all_below m k \<Longrightarrow> upsert k v (m @ [(k, v')]) = m @ [(k, v)]"
proof (induction m)
  case (Cons e m)
  obtain a b where e: "e = (a, b)" by (cases e)
  have "a < k" using Cons.prems by (simp add: e all_below_def)
  then have "k \<noteq> a" "\<not> k < a" by auto
  then show ?case using Cons by (simp add: e all_below_def)
qed simp

lemma add_all:
  assumes "all_below m k"
  shows "fold (\<lambda>(k, v). Values_Add k v) (map (Pair k) vs) (m @ [(k, us)]) = m @ [(k, us @ vs)]"
proof (induction vs arbitrary: us)
  case (Cons v vs)
  have "Values_Add k v (m @ [(k, us)]) = m @ [(k, us @ [v])]"
    by (simp add: Values_Add_def map_add_def below_none[OF assms] below_replaces[OF assms])
  then show ?case using Cons by simp
qed simp

lemma add_pairs:
  "wf_values (m @ m') \<Longrightarrow> fold (\<lambda>(k, v). Values_Add k v) (pairs_of m') m = m @ m'"
proof (induction m' arbitrary: m)
  case (Cons e m')
  obtain k vs where e: "e = (k, vs)" by (cases e)
  have below: "all_below m k"
    using Cons.prems by (auto simp: wf_values_def sorted_map_def sorted_wrt_append e all_below_def)
  obtain v vs' where vs: "vs = v # vs'" using Cons.prems by (cases vs) (auto simp: wf_values_def e)
  have "Values_Add k v m = m @ [(k, [v])]"
    by (simp add: Values_Add_def below_none[OF below] below_last[OF below])
  then have "fold (\<lambda>(k, v). Values_Add k v) (map (Pair k) vs) m = m @ [e]"
    using add_all[OF below, where vs = vs' and us = "[v]"] by (simp add: e vs)
  then show ?case using Cons.IH[of "m @ [e]"] Cons.prems by (simp add: pairs_of_def e)
qed (simp add: pairs_of_def)

lemma parse_encoded: "wf_values m \<Longrightarrow> ParseQuery (Values_Encode m) = (m, None)"
  using add_pairs[of "[]" m] by (simp add: ParseQuery_def Values_Encode_def parse_joined)

lemma parse_pair: "ParseQuery (encode_pair (k, v)) = ([(k, [v])], None)"
  using parse_encoded[of "[(k, [v])]"]
  by (simp add: Values_Encode_def pairs_of_def wf_values_def sorted_map_def)

text \<open>
  A query built by the client is read as it was meant.  Unescaping undoes escaping for every
  string, and parsing an encoded query gives back its keys and values, whatever characters they hold,
  without an error.
\<close>

theorem query_roundtrip:
  "QueryUnescape (QueryEscape s) = Inr s
   \<and> (wf_values m \<longrightarrow> ParseQuery (Values_Encode m) = (m, None) \<and> wf_values (Values_Add s t m))"
  by (simp add: QueryUnescape_Escape parse_encoded wf_values_Add)

theorem query_roundtrip_witness:
  "ParseQuery (Values_Encode [(''id'', [''a b&c=%'']), (''page_token'', [[], ''x''])])
     = ([(''id'', [''a b&c=%'']), (''page_token'', [[], ''x''])], None)"
proof -
  have "wf_values [(''id'', [''a b&c=%'']), (''page_token'', [[], ''x''])]" by (simp add: wf_values_def sorted_map_def)
  with query_roundtrip show ?thesis by blast
qed

end
