(* ===== verification/ApiClient.thy ===== *)
theory ApiClient
  imports UrlQuery HttpServer
begin

text \<open>
  The generated client of \<open>pkg/client/client.gen.go\<close>: construction and options, the builders of the
  requests, the editors, the calls, and the parsing of the responses.  Parsing, resolving and printing of
  a URL and the styling of parameters are arguments; what a call does to the other side is the state
  a \<open>Doer\<close> is run in.  Contexts carry nothing the model needs.
\<close>

subsection \<open>Requests and responses\<close>

text \<open>A URL is what comes before its path (scheme, user and host), its path and its query.\<close>

record url =
  u_Base :: string
  u_Path :: string
  u_RawQuery :: string

record client_request =
  rq_Method :: string
  rq_URL :: url
  rq_Header :: "(string \<times> string) list"
  rq_Body :: "string option"

record client_response =
  rs_Status :: string
  rs_StatusCode :: int
  rs_ContentType :: string \<comment> \<open>\<open>Header.Get\<close>, empty when there is none\<close>
  rs_Body :: "go_error + string" \<comment> \<open>what \<open>io.ReadAll\<close> returns\<close>

datatype style_value = StyleString string | StyleInt int

record client_lib =
  url_Parse :: "string \<Rightarrow> go_error + url"
  url_Resolve :: "url \<Rightarrow> string \<Rightarrow> go_error + url" \<comment> \<open>the method \<open>URL.Parse\<close>\<close>
  url_String :: "url \<Rightarrow> string"
  StyleParam :: "string \<Rightarrow> bool \<Rightarrow> string \<Rightarrow> style_value \<Rightarrow> go_error + string"
  json_Error :: "string \<Rightarrow> go_error"
  float_text :: "string \<Rightarrow> string option"

type_synonym RequestEditorFn = "client_request \<Rightarrow> go_error option \<times> client_request"
type_synonym 's doer = "client_request \<Rightarrow> 's \<Rightarrow> (go_error + client_response) \<times> 's"

subsection \<open>Construction\<close>

record 's Client =
  c_Server :: string
  c_Client :: "'s doer option"
  c_RequestEditors :: "RequestEditorFn list"

type_synonym 's ClientOption = "'s Client \<Rightarrow> go_error + 's Client"

fun apply_options :: "'s ClientOption list \<Rightarrow> 's Client \<Rightarrow> go_error + 's Client" where
  "apply_options [] client = Inr client"
| "apply_options (opt # opts) client =
     (case opt client of Inl err \<Rightarrow> Inl err | Inr client \<Rightarrow> apply_options opts client)"

definition NewClient :: "'s doer \<Rightarrow> string \<Rightarrow> 's ClientOption list \<Rightarrow> go_error + 's Client" where
  "NewClient default_client server opts =
     (case apply_options opts \<lparr>c_Server = server, c_Client = None, c_RequestEditors = []\<rparr> of
        Inl err \<Rightarrow> Inl err
      | Inr client \<Rightarrow>
          let client = (if \<not> HasSuffix (c_Server client) ''/'' then client\<lparr>c_Server := c_Server client @ ''/''\<rparr> else client);
              client = (if c_Client client = None then client\<lparr>c_Client := Some default_client\<rparr> else client)
          in Inr client)"

definition WithHTTPClient :: "'s doer \<Rightarrow> 's ClientOption" where
  "WithHTTPClient doer c = Inr (c\<lparr>c_Client := Some doer\<rparr>)"

definition WithRequestEditorFn :: "RequestEditorFn \<Rightarrow> 's ClientOption" where
  "WithRequestEditorFn fn c = Inr (c\<lparr>c_RequestEditors := c_RequestEditors c @ [fn]\<rparr>)"

definition WithBaseURL :: "client_lib \<Rightarrow> string \<Rightarrow> 's ClientOption" where
  "WithBaseURL lib baseURL c =
     (case url_Parse lib baseURL of
        Inl err \<Rightarrow> Inl err
      | Inr newBaseURL \<Rightarrow> Inr (c\<lparr>c_Server := url_String lib newBaseURL\<rparr>))"

subsection \<open>Request builders\<close>

text \<open>\<open>http.NewRequest\<close> with a valid method.\<close>

definition http_NewRequest :: "client_lib \<Rightarrow> string \<Rightarrow> string \<Rightarrow> string option \<Rightarrow> go_error + client_request" where
  "http_NewRequest lib method u body =
     (case url_Parse lib u of
        Inl err \<Rightarrow> Inl err
      | Inr u \<Rightarrow> Inr \<lparr>rq_Method = method, rq_URL = u, rq_Header = [], rq_Body = body\<rparr>)"

text \<open>The URL of an operation, relative to the one of the server.\<close>

definition operation_url :: "client_lib \<Rightarrow> string \<Rightarrow> string \<Rightarrow> go_error + url" where
  "operation_url lib server operationPath =
     (case url_Parse lib server of
        Inl err \<Rightarrow> Inl err
      | Inr serverURL \<Rightarrow>
          url_Resolve lib serverURL (if take 1 operationPath = ''/'' then ''.'' @ operationPath else operationPath))"

text \<open>An optional query parameter is styled, parsed and added to the values.\<close>

definition add_query_param ::
  "client_lib \<Rightarrow> string \<Rightarrow> style_value option \<Rightarrow> url_values \<Rightarrow> go_error + url_values" where
  "add_query_param lib name v queryValues =
     (case v of
        None \<Rightarrow> Inr queryValues
      | Some v \<Rightarrow>
      (case StyleParam lib ''form'' True name v of
        Inl err \<Rightarrow> Inl err
      | Inr queryFrag \<Rightarrow>
          (case ParseQuery queryFrag of
             (parsed, Some err) \<Rightarrow> Inl err
           | (parsed, None) \<Rightarrow> Inr (fold (\<lambda>(k, v2). Values_Add k v2) (pairs_of parsed) queryValues))))"

definition NewListClustersRequest ::
  "client_lib \<Rightarrow> string \<Rightarrow> ListClustersParams option \<Rightarrow> go_error + client_request" where
  "NewListClustersRequest lib server params =
     (case operation_url lib server ''/api/v1alpha1/clusters'' of
        Inl err \<Rightarrow> Inl err
      | Inr queryURL \<Rightarrow>
          (case params of
             None \<Rightarrow> http_NewRequest lib ''GET'' (url_String lib queryURL) None
           | Some params \<Rightarrow>
          (case add_query_param lib ''page_token'' (map_option StyleString (lp_PageToken params))
               (fst (ParseQuery (u_RawQuery queryURL))) of
             Inl err \<Rightarrow> Inl err
           | Inr queryValues \<Rightarrow>
          (case add_query_param lib ''max_page_size'' (map_option StyleInt (lp_MaxPageSize params)) queryValues of
             Inl err \<Rightarrow> Inl err
           | Inr queryValues \<Rightarrow>
               http_NewRequest lib ''GET'' (url_String lib (queryURL\<lparr>u_RawQuery := Values_Encode queryValues\<rparr>)) None))))"

definition NewCreateClusterRequestWithBody ::
  "client_lib \<Rightarrow> string \<Rightarrow> CreateClusterParams option \<Rightarrow> string \<Rightarrow> string option \<Rightarrow> go_error + client_request" where
  "NewCreateClusterRequestWithBody lib server params contentType body =
     (let send = (\<lambda>queryURL.
            case http_NewRequest lib ''POST'' (url_String lib queryURL) body of
              Inl err \<Rightarrow> Inl err
            | Inr req \<Rightarrow> Inr (req\<lparr>rq_Header := rq_Header req @ [(''Content-Type'', contentType)]\<rparr>))
      in case operation_url lib server ''/api/v1alpha1/clusters'' of
        Inl err \<Rightarrow> Inl err
      | Inr queryURL \<Rightarrow>
          (case params of
             None \<Rightarrow> send queryURL
           | Some params \<Rightarrow>
          (case add_query_param lib ''id'' (map_option StyleString (crp_Id params))
               (fst (ParseQuery (u_RawQuery queryURL))) of
             Inl err \<Rightarrow> Inl err
           | Inr queryValues \<Rightarrow> send (queryURL\<lparr>u_RawQuery := Values_Encode queryValues\<rparr>))))"

definition NewCreateClusterRequest ::
  "client_lib \<Rightarrow> string \<Rightarrow> CreateClusterParams option \<Rightarrow> Cluster \<Rightarrow> go_error + client_request" where
  "NewCreateClusterRequest lib server params body =
     (case enc_Cluster body of
        None \<Rightarrow> Inl json_error
      | Some buf \<Rightarrow> NewCreateClusterRequestWithBody lib server params ''application/json'' (Some (print_json buf)))"

definition NewGetHealthRequest :: "client_lib \<Rightarrow> string \<Rightarrow> go_error + client_request" where
  "NewGetHealthRequest lib server =
     (case operation_url lib server ''/api/v1alpha1/clusters/health'' of
        Inl err \<Rightarrow> Inl err
      | Inr queryURL \<Rightarrow> http_NewRequest lib ''GET'' (url_String lib queryURL) None)"

definition NewDeleteClusterRequest :: "client_lib \<Rightarrow> string \<Rightarrow> string \<Rightarrow> go_error + client_request" where
  "NewDeleteClusterRequest lib server clusterId =
     (case StyleParam lib ''simple'' False ''clusterId'' (StyleString clusterId) of
        Inl err \<Rightarrow> Inl err
      | Inr pathParam0 \<Rightarrow>
      (case operation_url lib server (''/api/v1alpha1/clusters/'' @ pathParam0) of
        Inl err \<Rightarrow> Inl err
      | Inr queryURL \<Rightarrow> http_NewRequest lib ''DELETE'' (url_String lib queryURL) None))"

definition NewGetClusterRequest :: "client_lib \<Rightarrow> string \<Rightarrow> string \<Rightarrow> go_error + client_request" where
  "NewGetClusterRequest lib server clusterId =
     (case StyleParam lib ''simple'' False ''clusterId'' (StyleString clusterId) of
        Inl err \<Rightarrow> Inl err
      | Inr pathParam0 \<Rightarrow>
      (case operation_url lib server (''/api/v1alpha1/clusters/'' @ pathParam0) of
        Inl err \<Rightarrow> Inl err
      | Inr queryURL \<Rightarrow> http_NewRequest lib ''GET'' (url_String lib queryURL) None))"

subsection \<open>Calls\<close>

fun run_editors :: "RequestEditorFn list \<Rightarrow> client_request \<Rightarrow> go_error option \<times> client_request" where
  "run_editors [] req = (None, req)"
| "run_editors (r # rs) req =
     (case r req of (Some err, req) \<Rightarrow> (Some err, req) | (None, req) \<Rightarrow> run_editors rs req)"

definition applyEditors ::
  "'s Client \<Rightarrow> RequestEditorFn list \<Rightarrow> client_request \<Rightarrow> go_error option \<times> client_request" where
  "applyEditors c additionalEditors req =
     (case run_editors (c_RequestEditors c) req of
        (Some err, req) \<Rightarrow> (Some err, req)
      | (None, req) \<Rightarrow> run_editors additionalEditors req)"

text \<open>What every call does with the request it has built; calling without a doer panics.\<close>

definition client_send ::
  "'s Client \<Rightarrow> RequestEditorFn list \<Rightarrow> go_error + client_request \<Rightarrow> 's \<Rightarrow> (go_error + client_response) outcome \<times> 's" where
  "client_send c reqEditors req s =
     (case req of
        Inl err \<Rightarrow> (Returns (Inl err), s)
      | Inr req \<Rightarrow>
          (case applyEditors c reqEditors req of
             (Some err, req) \<Rightarrow> (Returns (Inl err), s)
           | (None, req) \<Rightarrow>
               (case c_Client c of
                  None \<Rightarrow> (Panics ''nil pointer dereference'', s)
                | Some do_request \<Rightarrow> (case do_request req s of (rsp, s') \<Rightarrow> (Returns rsp, s')))))"

definition Client_ListClusters ::
  "client_lib \<Rightarrow> 's Client \<Rightarrow> ListClustersParams option \<Rightarrow> RequestEditorFn list \<Rightarrow> 's \<Rightarrow> (go_error + client_response) outcome \<times> 's" where
  "Client_ListClusters lib c params reqEditors =
     client_send c reqEditors (NewListClustersRequest lib (c_Server c) params)"

definition Client_CreateClusterWithBody ::
  "client_lib \<Rightarrow> 's Client \<Rightarrow> CreateClusterParams option \<Rightarrow> string \<Rightarrow> string option \<Rightarrow> RequestEditorFn list \<Rightarrow> 's \<Rightarrow>
   (go_error + client_response) outcome \<times> 's" where
  "Client_CreateClusterWithBody lib c params contentType body reqEditors =
     client_send c reqEditors (NewCreateClusterRequestWithBody lib (c_Server c) params contentType body)"

definition Client_CreateCluster ::
  "client_lib \<Rightarrow> 's Client \<Rightarrow> CreateClusterParams option \<Rightarrow> Cluster \<Rightarrow> RequestEditorFn list \<Rightarrow> 's \<Rightarrow>
   (go_error + client_response) outcome \<times> 's" where
  "Client_CreateCluster lib c params body reqEditors =
     client_send c reqEditors (NewCreateClusterRequest lib (c_Server c) params body)"

definition Client_GetHealth ::
  "client_lib \<Rightarrow> 's Client \<Rightarrow> RequestEditorFn list \<Rightarrow> 's \<Rightarrow> (go_error + client_response) outcome \<times> 's" where
  "Client_GetHealth lib c reqEditors = client_send c reqEditors (NewGetHealthRequest lib (c_Server c))"

definition Client_DeleteCluster ::
  "client_lib \<Rightarrow> 's Client \<Rightarrow> string \<Rightarrow> RequestEditorFn list \<Rightarrow> 's \<Rightarrow> (go_error + client_response) outcome \<times> 's" where
  "Client_DeleteCluster lib c clusterId reqEditors =
     client_send c reqEditors (NewDeleteClusterRequest lib (c_Server c) clusterId)"

definition Client_GetCluster ::
  "client_lib \<Rightarrow> 's Client \<Rightarrow> string \<Rightarrow> RequestEditorFn list \<Rightarrow> 's \<Rightarrow> (go_error + client_response) outcome \<times> 's" where
  "Client_GetCluster lib c clusterId reqEditors =
     client_send c reqEditors (NewGetClusterRequest lib (c_Server c) clusterId)"

subsection \<open>Responses\<close>

text \<open>
  A parsed response has its body, the response itself, and at most one of the decoded payloads.  A
  case applies when the content type mentions JSON and the status is the case's.
\<close>

type_synonym 'r response_case = "int \<times> (string \<Rightarrow> 'r \<Rightarrow> 'r option)"

definition payload :: "'a decoder \<Rightarrow> 'a \<Rightarrow> ('a option \<Rightarrow> 'r \<Rightarrow> 'r) \<Rightarrow> string \<Rightarrow> 'r \<Rightarrow> 'r option" where
  "payload d zero put bodyBytes response =
     (case unmarshal_into d zero bodyBytes of None \<Rightarrow> None | Some dest \<Rightarrow> Some (put (Some dest) response))"

fun parse_cases ::
  "client_lib \<Rightarrow> 'r response_case list \<Rightarrow> client_response \<Rightarrow> string \<Rightarrow> 'r \<Rightarrow> go_error + 'r" where
  "parse_cases lib [] rsp bodyBytes response = Inr response"
| "parse_cases lib ((code, decode) # cases) rsp bodyBytes response =
     (if Index (rs_ContentType rsp) ''json'' \<noteq> None \<and> rs_StatusCode rsp = code
      then (case decode bodyBytes response of None \<Rightarrow> Inl (json_Error lib bodyBytes) | Some r \<Rightarrow> Inr r)
      else parse_cases lib cases rsp bodyBytes response)"

definition http_status :: "client_response option \<Rightarrow> string" where
  "http_status rsp = (case rsp of Some rsp \<Rightarrow> rs_Status rsp | None \<Rightarrow> [])"

definition http_status_code :: "client_response option \<Rightarrow> int" where
  "http_status_code rsp = (case rsp of Some rsp \<Rightarrow> rs_StatusCode rsp | None \<Rightarrow> 0)"

record ListClustersResponse =
  lrs_Body :: string
  lrs_HTTPResponse :: "client_response option"
  lrs_JSON200 :: "ClusterList option"
  lrs_ApplicationproblemJSON400 :: "Error option"
  lrs_ApplicationproblemJSON401 :: "Error option"
  lrs_ApplicationproblemJSON403 :: "Error option"
  lrs_ApplicationproblemJSON500 :: "Error option"

definition ListClustersResponse_Status :: "ListClustersResponse \<Rightarrow> string" where
  "ListClustersResponse_Status r = http_status (lrs_HTTPResponse r)"

definition ListClustersResponse_StatusCode :: "ListClustersResponse \<Rightarrow> int" where
  "ListClustersResponse_StatusCode r = http_status_code (lrs_HTTPResponse r)"

record CreateClusterResponse =
  crs_Body :: string
  crs_HTTPResponse :: "client_response option"
  crs_JSON201 :: "Cluster option"
  crs_ApplicationproblemJSON400 :: "Error option"
  crs_ApplicationproblemJSON401 :: "Error option"
  crs_ApplicationproblemJSON403 :: "Error option"
  crs_ApplicationproblemJSON409 :: "Error option"
  crs_ApplicationproblemJSON422 :: "Error option"
  crs_ApplicationproblemJSON500 :: "Error option"

definition CreateClusterResponse_Status :: "CreateClusterResponse \<Rightarrow> string" where
  "CreateClusterResponse_Status r = http_status (crs_HTTPResponse r)"

definition CreateClusterResponse_StatusCode :: "CreateClusterResponse \<Rightarrow> int" where
  "CreateClusterResponse_StatusCode r = http_status_code (crs_HTTPResponse r)"

record GetHealthResponse =
  hrs_Body :: string
  hrs_HTTPResponse :: "client_response option"
  hrs_JSON200 :: "Health option"

definition GetHealthResponse_Status :: "GetHealthResponse \<Rightarrow> string" where
  "GetHealthResponse_Status r = http_status (hrs_HTTPResponse r)"

definition GetHealthResponse_StatusCode :: "GetHealthResponse \<Rightarrow> int" where
  "GetHealthResponse_StatusCode r = http_status_code (hrs_HTTPResponse r)"

record DeleteClusterResponse =
  drs_Body :: string
  drs_HTTPResponse :: "client_response option"
  drs_ApplicationproblemJSON401 :: "Error option"
  drs_ApplicationproblemJSON403 :: "Error option"
  drs_ApplicationproblemJSON404 :: "Error option"
  drs_ApplicationproblemJSON500 :: "Error option"

definition DeleteClusterResponse_Status :: "DeleteClusterResponse \<Rightarrow> string" where
  "DeleteClusterResponse_Status r = http_status (drs_HTTPResponse r)"

definition DeleteClusterResponse_StatusCode :: "DeleteClusterResponse \<Rightarrow> int" where
  "DeleteClusterResponse_StatusCode r = http_status_code (drs_HTTPResponse r)"

record GetClusterResponse =
  grs_Body :: string
  grs_HTTPResponse :: "client_response option"
  grs_JSON200 :: "Cluster option"
  grs_ApplicationproblemJSON401 :: "Error option"
  grs_ApplicationproblemJSON403 :: "Error option"
  grs_ApplicationproblemJSON404 :: "Error option"
  grs_ApplicationproblemJSON500 :: "Error option"

definition GetClusterResponse_Status :: "GetClusterResponse \<Rightarrow> string" where
  "GetClusterResponse_Status r = http_status (grs_HTTPResponse r)"

definition GetClusterResponse_StatusCode :: "GetClusterResponse \<Rightarrow> int" where
  "GetClusterResponse_StatusCode r = http_status_code (grs_HTTPResponse r)"

definition ParseListClustersResponse :: "client_lib \<Rightarrow> client_response \<Rightarrow> go_error + ListClustersResponse" where
  "ParseListClustersResponse lib rsp =
     (case rs_Body rsp of
        Inl err \<Rightarrow> Inl err
      | Inr bodyBytes \<Rightarrow>
          parse_cases lib
            [(200, payload (dec_ClusterList (float_text lib)) zero_ClusterList (\<lambda>v r. r\<lparr>lrs_JSON200 := v\<rparr>)),
             (400, payload dec_Error zero_Error (\<lambda>v r. r\<lparr>lrs_ApplicationproblemJSON400 := v\<rparr>)),
             (401, payload dec_Error zero_Error (\<lambda>v r. r\<lparr>lrs_ApplicationproblemJSON401 := v\<rparr>)),
             (403, payload dec_Error zero_Error (\<lambda>v r. r\<lparr>lrs_ApplicationproblemJSON403 := v\<rparr>)),
             (500, payload dec_Error zero_Error (\<lambda>v r. r\<lparr>lrs_ApplicationproblemJSON500 := v\<rparr>))]
            rsp bodyBytes
            \<lparr>lrs_Body = bodyBytes, lrs_HTTPResponse = Some rsp,
               lrs_JSON200 = None, lrs_ApplicationproblemJSON400 = None,
               lrs_ApplicationproblemJSON401 = None, lrs_ApplicationproblemJSON403 = None,
               lrs_ApplicationproblemJSON500 = None\<rparr>)"

definition ParseCreateClusterResponse :: "client_lib \<Rightarrow> client_response \<Rightarrow> go_error + CreateClusterResponse" where
  "ParseCreateClusterResponse lib rsp =
     (case rs_Body rsp of
        Inl err \<Rightarrow> Inl err
      | Inr bodyBytes \<Rightarrow>
          parse_cases lib
            [(201, payload (dec_Cluster (float_text lib)) zero_Cluster (\<lambda>v r. r\<lparr>crs_JSON201 := v\<rparr>)),
             (400, payload dec_Error zero_Error (\<lambda>v r. r\<lparr>crs_ApplicationproblemJSON400 := v\<rparr>)),
             (401, payload dec_Error zero_Error (\<lambda>v r. r\<lparr>crs_ApplicationproblemJSON401 := v\<rparr>)),
             (403, payload dec_Error zero_Error (\<lambda>v r. r\<lparr>crs_ApplicationproblemJSON403 := v\<rparr>)),
             (409, payload dec_Error zero_Error (\<lambda>v r. r\<lparr>crs_ApplicationproblemJSON409 := v\<rparr>)),
             (422, payload dec_Error zero_Error (\<lambda>v r. r\<lparr>crs_ApplicationproblemJSON422 := v\<rparr>)),
             (500, payload dec_Error zero_Error (\<lambda>v r. r\<lparr>crs_ApplicationproblemJSON500 := v\<rparr>))]
            rsp bodyBytes
            \<lparr>crs_Body = bodyBytes, crs_HTTPResponse = Some rsp,
               crs_JSON201 = None, crs_ApplicationproblemJSON400 = None,
               crs_ApplicationproblemJSON401 = None, crs_ApplicationproblemJSON403 = None,
               crs_ApplicationproblemJSON409 = None, crs_ApplicationproblemJSON422 = None,
               crs_ApplicationproblemJSON500 = None\<rparr>)"

definition ParseGetHealthResponse :: "client_lib \<Rightarrow> client_response \<Rightarrow> go_error + GetHealthResponse" where
  "ParseGetHealthResponse lib rsp =
     (case rs_Body rsp of
        Inl err \<Rightarrow> Inl err
      | Inr bodyBytes \<Rightarrow>
          parse_cases lib
            [(200, payload dec_Health zero_Health (\<lambda>v r. r\<lparr>hrs_JSON200 := v\<rparr>))]
            rsp bodyBytes
            \<lparr>hrs_Body = bodyBytes, hrs_HTTPResponse = Some rsp,
               hrs_JSON200 = None\<rparr>)"

definition ParseDeleteClusterResponse :: "client_lib \<Rightarrow> client_response \<Rightarrow> go_error + DeleteClusterResponse" where
  "ParseDeleteClusterResponse lib rsp =
     (case rs_Body rsp of
        Inl err \<Rightarrow> Inl err
      | Inr bodyBytes \<Rightarrow>
          parse_cases lib
            [(401, payload dec_Error zero_Error (\<lambda>v r. r\<lparr>drs_ApplicationproblemJSON401 := v\<rparr>)),
             (403, payload dec_Error zero_Error (\<lambda>v r. r\<lparr>drs_ApplicationproblemJSON403 := v\<rparr>)),
             (404, payload dec_Error zero_Error (\<lambda>v r. r\<lparr>drs_ApplicationproblemJSON404 := v\<rparr>)),
             (500, payload dec_Error zero_Error (\<lambda>v r. r\<lparr>drs_ApplicationproblemJSON500 := v\<rparr>))]
            rsp bodyBytes
            \<lparr>drs_Body = bodyBytes, drs_HTTPResponse = Some rsp,
               drs_ApplicationproblemJSON401 = None, drs_ApplicationproblemJSON403 = None,
               drs_ApplicationproblemJSON404 = None, drs_ApplicationproblemJSON500 = None\<rparr>)"

definition ParseGetClusterResponse :: "client_lib \<Rightarrow> client_response \<Rightarrow> go_error + GetClusterResponse" where
  "ParseGetClusterResponse lib rsp =
     (case rs_Body rsp of
        Inl err \<Rightarrow> Inl err
      | Inr bodyBytes \<Rightarrow>
          parse_cases lib
            [(200, payload (dec_Cluster (float_text lib)) zero_Cluster (\<lambda>v r. r\<lparr>grs_JSON200 := v\<rparr>)),
             (401, payload dec_Error zero_Error (\<lambda>v r. r\<lparr>grs_ApplicationproblemJSON401 := v\<rparr>)),
             (403, payload dec_Error zero_Error (\<lambda>v r. r\<lparr>grs_ApplicationproblemJSON403 := v\<rparr>)),
             (404, payload dec_Error zero_Error (\<lambda>v r. r\<lparr>grs_ApplicationproblemJSON404 := v\<rparr>)),
             (500, payload dec_Error zero_Error (\<lambda>v r. r\<lparr>grs_ApplicationproblemJSON500 := v\<rparr>))]
            rsp bodyBytes
            \<lparr>grs_Body = bodyBytes, grs_HTTPResponse = Some rsp,
               grs_JSON200 = None, grs_ApplicationproblemJSON401 = None,
               grs_ApplicationproblemJSON403 = None, grs_ApplicationproblemJSON404 = None,
               grs_ApplicationproblemJSON500 = None\<rparr>)"

subsection \<open>Calls with parsed responses\<close>

definition NewClientWithResponses :: "'s doer \<Rightarrow> string \<Rightarrow> 's ClientOption list \<Rightarrow> go_error + 's Client" where
  "NewClientWithResponses default_client server opts =
     (case NewClient default_client server opts of Inl err \<Rightarrow> Inl err | Inr client \<Rightarrow> Inr client)"

definition parsed :: "(client_response \<Rightarrow> go_error + 'r) \<Rightarrow> (go_error + client_response) outcome \<times> 's \<Rightarrow> (go_error + 'r) outcome \<times> 's" where
  "parsed parse res =
     (case res of
        (Panics m, s) \<Rightarrow> (Panics m, s)
      | (Returns (Inl err), s) \<Rightarrow> (Returns (Inl err), s)
      | (Returns (Inr rsp), s) \<Rightarrow> (Returns (parse rsp), s))"

definition ListClustersWithResponse ::
  "client_lib \<Rightarrow> 's Client \<Rightarrow> ListClustersParams option \<Rightarrow> RequestEditorFn list \<Rightarrow> 's \<Rightarrow> (go_error + ListClustersResponse) outcome \<times> 's" where
  "ListClustersWithResponse lib c params reqEditors s =
     parsed (ParseListClustersResponse lib) (Client_ListClusters lib c params reqEditors s)"

definition CreateClusterWithBodyWithResponse ::
  "client_lib \<Rightarrow> 's Client \<Rightarrow> CreateClusterParams option \<Rightarrow> string \<Rightarrow> string option \<Rightarrow> RequestEditorFn list \<Rightarrow> 's \<Rightarrow> (go_error + CreateClusterResponse) outcome \<times> 's" where
  "CreateClusterWithBodyWithResponse lib c params contentType body reqEditors s =
     parsed (ParseCreateClusterResponse lib) (Client_CreateClusterWithBody lib c params contentType body reqEditors s)"

definition CreateClusterWithResponse ::
  "client_lib \<Rightarrow> 's Client \<Rightarrow> CreateClusterParams option \<Rightarrow> Cluster \<Rightarrow> RequestEditorFn list \<Rightarrow> 's \<Rightarrow> (go_error + CreateClusterResponse) outcome \<times> 's" where
  "CreateClusterWithResponse lib c params body reqEditors s =
     parsed (ParseCreateClusterResponse lib) (Client_CreateCluster lib c params body reqEditors s)"

definition GetHealthWithResponse ::
  "client_lib \<Rightarrow> 's Client \<Rightarrow> RequestEditorFn list \<Rightarrow> 's \<Rightarrow> (go_error + GetHealthResponse) outcome \<times> 's" where
  "GetHealthWithResponse lib c reqEditors s =
     parsed (ParseGetHealthResponse lib) (Client_GetHealth lib c reqEditors s)"

definition DeleteClusterWithResponse ::
  "client_lib \<Rightarrow> 's Client \<Rightarrow> string \<Rightarrow> RequestEditorFn list \<Rightarrow> 's \<Rightarrow> (go_error + DeleteClusterResponse) outcome \<times> 's" where
  "DeleteClusterWithResponse lib c clusterId reqEditors s =
     parsed (ParseDeleteClusterResponse lib) (Client_DeleteCluster lib c clusterId reqEditors s)"

definition GetClusterWithResponse ::
  "client_lib \<Rightarrow> 's Client \<Rightarrow> string \<Rightarrow> RequestEditorFn list \<Rightarrow> 's \<Rightarrow> (go_error + GetClusterResponse) outcome \<times> 's" where
  "GetClusterWithResponse lib c clusterId reqEditors s =
     parsed (ParseGetClusterResponse lib) (Client_GetCluster lib c clusterId reqEditors s)"


end
