(* ===== verification/ClientServer.thy ===== *)
theory ClientServer
  imports HttpApi ApiClient
begin

text \<open>
  The generated client against the composed server: the server as a \<open>Doer\<close>, what is assumed of the URL
  and parameter libraries at both ends, and the answer a caller sees.
\<close>

subsection \<open>The server as the other side of a call\<close>

text \<open>
  \<open>net/http\<close> between the two: a handler that has sent nothing is answered for with 200, an aborted
  one breaks the connection.  The text of a status is an argument.
\<close>

definition response_of :: "(int \<Rightarrow> string) \<Rightarrow> http_response \<Rightarrow> client_response" where
  "response_of status_text w =
     (let (code, ct) = (case hr_Sent w of None \<Rightarrow> (200, None) | Some sent \<Rightarrow> sent)
      in \<lparr>rs_Status = FormatInt code @ '' '' @ status_text code, rs_StatusCode = code,
          rs_ContentType = (case ct of None \<Rightarrow> [] | Some t \<Rightarrow> t), rs_Body = Inr (hr_Body w)\<rparr>)"

definition server_request :: "client_request \<Rightarrow> http_request" where
  "server_request req =
     \<lparr>hq_Method = rq_Method req, hq_Path = u_Path (rq_URL req), hq_RawQuery = u_RawQuery (rq_URL req),
      hq_Body = rq_Body req\<rparr>"

definition serve_doer :: "(int \<Rightarrow> string) \<Rightarrow> 'route api_router \<Rightarrow> 's script \<Rightarrow> 's doer" where
  "serve_doer status_text router script req s =
     (case api_serve router script (server_request req) s of
        (how, w, s', logged) \<Rightarrow>
          (if how = Aborted then Inl (PlainError ''EOF'') else Inr (response_of status_text w), s'))"

subsection \<open>What the libraries are documented to do\<close>

text \<open>
  The server is named by a URL with an empty path or a slash, a path without special characters resolves
  below it, and a URL is parsed back from its text; a string or an integer is styled as an escaped
  pair in a query and a plain word as itself in a path.
\<close>

definition api_path :: "string \<Rightarrow> bool" where
  "api_path p \<longleftrightarrow> p = clusters_path \<or> (\<exists>seg. clientIDRe seg \<and> p = cluster_path seg)"

definition library_laws :: "client_lib \<Rightarrow> string \<Rightarrow> string \<Rightarrow> bool" where
  "library_laws lib server base \<longleftrightarrow>
     (\<exists>root. url_Parse lib server = Inr root \<and> u_Base root = base
        \<and> (\<forall>p. api_path p \<longrightarrow>
             url_Resolve lib root (''.'' @ p) = Inr \<lparr>u_Base = base, u_Path = p, u_RawQuery = []\<rparr>))
     \<and> (\<forall>p m. api_path p \<longrightarrow>
          url_Parse lib (url_String lib \<lparr>u_Base = base, u_Path = p, u_RawQuery = Values_Encode m\<rparr>) =
            Inr \<lparr>u_Base = base, u_Path = p, u_RawQuery = Values_Encode m\<rparr>)
     \<and> (\<forall>name v. StyleParam lib ''form'' True name (StyleString v) = Inr (encode_pair (name, v)))
     \<and> (\<forall>name n. StyleParam lib ''form'' True name (StyleInt n) = Inr (encode_pair (name, FormatInt n)))
     \<and> (\<forall>iid. clientIDRe iid \<longrightarrow> StyleParam lib ''simple'' False ''clusterId'' (StyleString iid) = Inr iid)"

text \<open>Binding of a query parameter given at most once.\<close>

definition query_laws :: "param_binder \<Rightarrow> bool" where
  "query_laws bd \<longleftrightarrow>
     (\<forall>m name. wf_values m \<longrightarrow>
        (map_of m name = None \<longrightarrow> BindQueryString bd name (Values_Encode m) = Inr None
           \<and> BindQueryInt32 bd name (Values_Encode m) = Inr None)
        \<and> (\<forall>v. map_of m name = Some [v] \<longrightarrow> BindQueryString bd name (Values_Encode m) = Inr (Some v))
        \<and> (\<forall>n. map_of m name = Some [FormatInt n] \<and> to_int32 n = n \<longrightarrow>
             BindQueryInt32 bd name (Values_Encode m) = Inr (Some n)))"

text \<open>The validator of the server lets a request through as it is.\<close>

definition passes :: "'route api_router \<Rightarrow> string \<Rightarrow> string \<Rightarrow> string \<Rightarrow> string option \<Rightarrow> bool" where
  "passes router m p q b \<longleftrightarrow>
     (let r = \<lparr>hq_Method = m, hq_Path = p, hq_RawQuery = q, hq_Body = b\<rparr>
      in refusal router r = None \<and> forwarded router r = r)"

text \<open>A client of the server at \<open>server\<close>, without editors.\<close>

definition plain_client :: "'s doer \<Rightarrow> string \<Rightarrow> 's Client" where
  "plain_client doer server = \<lparr>c_Server = server, c_Client = Some doer, c_RequestEditors = []\<rparr>"

lemma plain_client_new:
  "HasSuffix server ''/'' \<Longrightarrow> NewClient d server [WithHTTPClient doer] = Inr (plain_client doer server)"
  by (simp add: NewClient_def WithHTTPClient_def plain_client_def Let_def)

subsection \<open>What a caller sees\<close>

text \<open>The responses whose texts survive the wire.\<close>

definition clean_error :: "Error \<Rightarrow> bool" where
  "clean_error e \<longleftrightarrow> wf_Error e \<and> json_ok maxNestingDepth (enc_Error e)"

definition clean_cluster :: "(string \<Rightarrow> string option) \<Rightarrow> Cluster \<Rightarrow> bool" where
  "clean_cluster fnum c \<longleftrightarrow> wf_Cluster fnum c \<and> printable enc_Cluster c"

definition clean_list :: "(string \<Rightarrow> string option) \<Rightarrow> ClusterList \<Rightarrow> bool" where
  "clean_list fnum l \<longleftrightarrow> wf_ClusterList fnum l \<and> printable enc_ClusterList l"

fun clean_get :: "(string \<Rightarrow> string option) \<Rightarrow> get_response \<Rightarrow> bool" where
  "clean_get fnum (GetCluster200 c) = clean_cluster fnum c"
| "clean_get fnum (GetCluster401 e) = clean_error e"
| "clean_get fnum (GetCluster403 e) = clean_error e"
| "clean_get fnum (GetCluster404 e) = clean_error e"
| "clean_get fnum (GetCluster500 e) = clean_error e"

fun clean_create :: "(string \<Rightarrow> string option) \<Rightarrow> create_response \<Rightarrow> bool" where
  "clean_create fnum (CreateCluster201 c) = clean_cluster fnum c"
| "clean_create fnum (CreateCluster400 e) = clean_error e"
| "clean_create fnum (CreateCluster401 e) = clean_error e"
| "clean_create fnum (CreateCluster403 e) = clean_error e"
| "clean_create fnum (CreateCluster409 e) = clean_error e"
| "clean_create fnum (CreateCluster422 e) = clean_error e"
| "clean_create fnum (CreateCluster500 e) = clean_error e"

fun clean_listing :: "(string \<Rightarrow> string option) \<Rightarrow> list_response \<Rightarrow> bool" where
  "clean_listing fnum (ListClusters200 l) = clean_list fnum l"
| "clean_listing fnum (ListClusters400 e) = clean_error e"
| "clean_listing fnum (ListClusters401 e) = clean_error e"
| "clean_listing fnum (ListClusters403 e) = clean_error e"
| "clean_listing fnum (ListClusters500 e) = clean_error e"

fun clean_delete :: "delete_response \<Rightarrow> bool" where
  "clean_delete DeleteCluster204 = True"
| "clean_delete (DeleteCluster401 e) = clean_error e"
| "clean_delete (DeleteCluster403 e) = clean_error e"
| "clean_delete (DeleteCluster404 e) = clean_error e"
| "clean_delete (DeleteCluster500 e) = clean_error e"

text \<open>The handler's response, read off the fields of the parsed one.\<close>

definition seen_get :: "GetClusterResponse \<Rightarrow> get_response option" where
  "seen_get r =
     (case (grs_JSON200 r, grs_ApplicationproblemJSON401 r, grs_ApplicationproblemJSON403 r,
            grs_ApplicationproblemJSON404 r, grs_ApplicationproblemJSON500 r) of
        (Some c, None, None, None, None) \<Rightarrow> Some (GetCluster200 c)
      | (None, Some e, None, None, None) \<Rightarrow> Some (GetCluster401 e)
      | (None, None, Some e, None, None) \<Rightarrow> Some (GetCluster403 e)
      | (None, None, None, Some e, None) \<Rightarrow> Some (GetCluster404 e)
      | (None, None, None, None, Some e) \<Rightarrow> Some (GetCluster500 e)
      | _ \<Rightarrow> None)"

definition seen_delete :: "DeleteClusterResponse \<Rightarrow> delete_response option" where
  "seen_delete r =
     (case (drs_ApplicationproblemJSON401 r, drs_ApplicationproblemJSON403 r, drs_ApplicationproblemJSON404 r,
            drs_ApplicationproblemJSON500 r) of
        (None, None, None, None) \<Rightarrow> if DeleteClusterResponse_StatusCode r = 204 then Some DeleteCluster204 else None
      | (Some e, None, None, None) \<Rightarrow> Some (DeleteCluster401 e)
      | (None, Some e, None, None) \<Rightarrow> Some (DeleteCluster403 e)
      | (None, None, Some e, None) \<Rightarrow> Some (DeleteCluster404 e)
      | (None, None, None, Some e) \<Rightarrow> Some (DeleteCluster500 e)
      | _ \<Rightarrow> None)"

definition seen_list :: "ListClustersResponse \<Rightarrow> list_response option" where
  "seen_list r =
     (case (lrs_JSON200 r, lrs_ApplicationproblemJSON400 r, lrs_ApplicationproblemJSON401 r,
            lrs_ApplicationproblemJSON403 r, lrs_ApplicationproblemJSON500 r) of
        (Some l, None, None, None, None) \<Rightarrow> Some (ListClusters200 l)
      | (None, Some e, None, None, None) \<Rightarrow> Some (ListClusters400 e)
      | (None, None, Some e, None, None) \<Rightarrow> Some (ListClusters401 e)
      | (None, None, None, Some e, None) \<Rightarrow> Some (ListClusters403 e)
      | (None, None, None, None, Some e) \<Rightarrow> Some (ListClusters500 e)
      | _ \<Rightarrow> None)"

definition seen_create :: "CreateClusterResponse \<Rightarrow> create_response option" where
  "seen_create r =
     (case (crs_JSON201 r, [crs_ApplicationproblemJSON400 r, crs_ApplicationproblemJSON401 r,
            crs_ApplicationproblemJSON403 r, crs_ApplicationproblemJSON409 r, crs_ApplicationproblemJSON422 r,
            crs_ApplicationproblemJSON500 r]) of
        (Some c, [None, None, None, None, None, None]) \<Rightarrow> Some (CreateCluster201 c)
      | (None, [Some e, None, None, None, None, None]) \<Rightarrow> Some (CreateCluster400 e)
      | (None, [None, Some e, None, None, None, None]) \<Rightarrow> Some (CreateCluster401 e)
      | (None, [None, None, Some e, None, None, None]) \<Rightarrow> Some (CreateCluster403 e)
      | (None, [None, None, None, Some e, None, None]) \<Rightarrow> Some (CreateCluster409 e)
      | (None, [None, None, None, None, Some e, None]) \<Rightarrow> Some (CreateCluster422 e)
      | (None, [None, None, None, None, None, Some e]) \<Rightarrow> Some (CreateCluster500 e)
      | _ \<Rightarrow> None)"

subsection \<open>Over the wire\<close>

text \<open>The calls of a handler, as the client gets them.\<close>

definition answer_of :: "(int \<Rightarrow> string) \<Rightarrow> writer_op list \<Rightarrow> client_response" where
  "answer_of st ops = response_of st (fold conn_step ops fresh_response)"

lemma wire [simp]:
  "199 < code \<Longrightarrow> answer_of st [SetContentType ct, WriteHeader code, Write body] =
     \<lparr>rs_Status = FormatInt code @ '' '' @ st code, rs_StatusCode = code, rs_ContentType = ct, rs_Body = Inr body\<rparr>"
  "answer_of st [WriteHeader 204] =
     \<lparr>rs_Status = FormatInt 204 @ '' '' @ st 204, rs_StatusCode = 204, rs_ContentType = [], rs_Body = Inr []\<rparr>"
  by (simp_all add: answer_of_def response_of_def fresh_response_def conn_WriteHeader_def)

lemma json_in_types [simp]:
  "\<exists>i. Index ''application/json'' ''json'' = Some i" "\<exists>i. Index ''application/problem+json'' ''json'' = Some i"
  by (simp_all add: Index_def upt_rec)

lemma newline_space: "list_all is_space newline"
  by code_simp

lemma read_line: "json_ok maxNestingDepth j \<Longrightarrow> unmarshal_into d x (print_json j @ newline) = d j x"
  using Unmarshal_print(1)[of j newline] newline_space by (simp add: unmarshal_into_def)

lemma read_error [simp]: "clean_error e \<Longrightarrow> unmarshal_into dec_Error zero_Error (print_json (enc_Error e) @ newline) = Some e"
  by (simp add: clean_error_def read_line Error_back)

lemma read_cluster:
  assumes "clean_cluster fnum c" "enc_Cluster c = Some j"
  shows "unmarshal_into (dec_Cluster fnum) zero_Cluster (print_json j @ newline) = Some c"
  using assms by (auto simp: clean_cluster_def printable_def read_line Cluster_back)

lemma read_list:
  assumes "clean_list fnum l" "enc_ClusterList l = Some j"
  shows "unmarshal_into (dec_ClusterList fnum) zero_ClusterList (print_json j @ newline) = Some l"
  using assms by (auto simp: clean_list_def printable_def read_line ClusterList_back)

text \<open>An answer written by its \<open>Visit\<close> method is parsed back to the response it was.\<close>

lemma visit_json_Some [simp]: "visit_json (Some j) ct code = Inr [SetContentType ct, WriteHeader code, Write (print_json j @ newline)]"
  by (simp add: visit_json_def)

lemma visit_json_Inr: "visit_json j ct code = Inr ops \<longleftrightarrow>
    (\<exists>v. j = Some v \<and> ops = [SetContentType ct, WriteHeader code, Write (print_json v @ newline)])"
  by (auto simp: visit_json_def split: option.splits)

lemmas wire_defs = payload_def http_status_def http_status_code_def

lemma get_over_wire:
  assumes "clean_get (float_text lib) resp" "VisitGetClusterResponse resp = Inr ops"
  shows "\<exists>r. ParseGetClusterResponse lib (answer_of st ops) = Inr r
    \<and> seen_get r = Some resp \<and> GetClusterResponse_StatusCode r = fst (get_status resp)"
  using assms
  by (cases resp)
    (auto simp: visit_json_Inr ParseGetClusterResponse_def seen_get_def GetClusterResponse_StatusCode_def wire_defs
      read_cluster)

lemma delete_over_wire:
  assumes "clean_delete resp" "VisitDeleteClusterResponse resp = Inr ops"
  shows "\<exists>r. ParseDeleteClusterResponse lib (answer_of st ops) = Inr r
    \<and> seen_delete r = Some resp \<and> DeleteClusterResponse_StatusCode r = fst (delete_status resp)"
  using assms
  by (cases resp)
    (auto simp: visit_json_Inr ParseDeleteClusterResponse_def seen_delete_def DeleteClusterResponse_StatusCode_def wire_defs
      Index_def split del: if_split)

lemma list_over_wire:
  assumes "clean_listing (float_text lib) resp" "VisitListClustersResponse resp = Inr ops"
  shows "\<exists>r. ParseListClustersResponse lib (answer_of st ops) = Inr r
    \<and> seen_list r = Some resp \<and> ListClustersResponse_StatusCode r = fst (list_status resp)"
  using assms
  by (cases resp)
    (auto simp: visit_json_Inr ParseListClustersResponse_def seen_list_def ListClustersResponse_StatusCode_def wire_defs
      read_list)

lemma create_over_wire:
  assumes "clean_create (float_text lib) resp" "VisitCreateClusterResponse resp = Inr ops"
  shows "\<exists>r. ParseCreateClusterResponse lib (answer_of st ops) = Inr r
    \<and> seen_create r = Some resp \<and> CreateClusterResponse_StatusCode r = fst (create_status resp)"
  using assms
  by (cases resp)
    (auto simp: visit_json_Inr ParseCreateClusterResponse_def seen_create_def CreateClusterResponse_StatusCode_def wire_defs
      read_cluster)

lemma health_over_wire:
  assumes "wf_Health h" "json_ok maxNestingDepth (enc_Health h)" "VisitGetHealthResponse (GetHealth200 h) = Inr ops"
  shows "\<exists>r. ParseGetHealthResponse lib (answer_of st ops) = Inr r
    \<and> hrs_JSON200 r = Some h \<and> GetHealthResponse_StatusCode r = 200"
  using assms
  by (auto simp: visit_json_Inr ParseGetHealthResponse_def GetHealthResponse_StatusCode_def wire_defs read_line Health_back)

subsection \<open>Requests\<close>

lemma plain_send:
  "client_send (plain_client doer server) [] (Inr req) s = (case doer req s of (rsp, s') \<Rightarrow> (Returns rsp, s'))"
  by (simp add: client_send_def plain_client_def applyEditors_def)

lemma api_path_clusters: "api_path clusters_path"
  by (simp add: api_path_def)

lemma built_request:
  assumes "library_laws lib server base" "api_path p"
  shows "operation_url lib server p = Inr \<lparr>u_Base = base, u_Path = p, u_RawQuery = []\<rparr>"
    and "http_NewRequest lib m (url_String lib \<lparr>u_Base = base, u_Path = p, u_RawQuery = Values_Encode q\<rparr>) b =
      Inr \<lparr>rq_Method = m, rq_URL = \<lparr>u_Base = base, u_Path = p, u_RawQuery = Values_Encode q\<rparr>, rq_Header = [], rq_Body = b\<rparr>"
    and "http_NewRequest lib m (url_String lib \<lparr>u_Base = base, u_Path = p, u_RawQuery = []\<rparr>) b =
      Inr \<lparr>rq_Method = m, rq_URL = \<lparr>u_Base = base, u_Path = p, u_RawQuery = []\<rparr>, rq_Header = [], rq_Body = b\<rparr>"
proof -
  have "take 1 p = ''/''" using assms(2) by (auto simp: api_path_def clusters_path_def cluster_path_def)
  moreover obtain root where "url_Parse lib server = Inr root"
      "url_Resolve lib root (''.'' @ p) = Inr \<lparr>u_Base = base, u_Path = p, u_RawQuery = []\<rparr>"
    using assms unfolding library_laws_def by blast
  ultimately show "operation_url lib server p = Inr \<lparr>u_Base = base, u_Path = p, u_RawQuery = []\<rparr>"
    by (simp add: operation_url_def)
  show query: "http_NewRequest lib m (url_String lib \<lparr>u_Base = base, u_Path = p, u_RawQuery = Values_Encode q\<rparr>) b =
      Inr \<lparr>rq_Method = m, rq_URL = \<lparr>u_Base = base, u_Path = p, u_RawQuery = Values_Encode q\<rparr>, rq_Header = [], rq_Body = b\<rparr>" for q
    using assms by (simp add: http_NewRequest_def library_laws_def)
  show "http_NewRequest lib m (url_String lib \<lparr>u_Base = base, u_Path = p, u_RawQuery = []\<rparr>) b =
      Inr \<lparr>rq_Method = m, rq_URL = \<lparr>u_Base = base, u_Path = p, u_RawQuery = []\<rparr>, rq_Header = [], rq_Body = b\<rparr>"
    using query[of "[]"] by (simp add: Values_Encode_def pairs_of_def)
qed

text \<open>A call whose handler has returned a response that its \<open>Visit\<close> method can write.\<close>

lemma served_call:
  assumes "passes router m p q b" "script \<lparr>hq_Method = m, hq_Path = p, hq_RawQuery = q, hq_Body = b\<rparr> s = written (Inr ops) s'"
  shows "client_send (plain_client (serve_doer st router script) server) []
    (Inr \<lparr>rq_Method = m, rq_URL = \<lparr>u_Base = base, u_Path = p, u_RawQuery = q\<rparr>, rq_Header = hdr, rq_Body = b\<rparr>) s =
      (Returns (Inr (answer_of st ops)), s')"
  using assms serve_written[of router "\<lparr>hq_Method = m, hq_Path = p, hq_RawQuery = q, hq_Body = b\<rparr>" script s "Inr ops" s']
  by (simp add: plain_send serve_doer_def server_request_def passes_def Let_def respond_def written_def answer_of_def)

lemma route_script:
  assumes "chi_like (ev_mux env)" "plain_paths (ev_binder env)" "clientIDRe iid"
  shows "iid \<noteq> ''health'' \<Longrightarrow> api_routes env (handler_ssi svc uuid check)
      \<lparr>hq_Method = ''GET'', hq_Path = cluster_path iid, hq_RawQuery = q, hq_Body = b\<rparr> s =
      (case handler_GetCluster svc iid s of (resp, s') \<Rightarrow> written (VisitGetClusterResponse resp) s')"
    and "api_routes env (handler_ssi svc uuid check)
      \<lparr>hq_Method = ''DELETE'', hq_Path = cluster_path iid, hq_RawQuery = q, hq_Body = b\<rparr> s =
      (case handler_DeleteCluster svc iid s of (resp, s') \<Rightarrow> written (VisitDeleteClusterResponse resp) s')"
    and "api_routes env (handler_ssi svc uuid check)
      \<lparr>hq_Method = ''GET'', hq_Path = cluster_path ''health'', hq_RawQuery = q, hq_Body = b\<rparr> s =
      (case handler_GetHealth check s of (resp, s') \<Rightarrow> written (VisitGetHealthResponse resp) s')"
  using assms clientID_segment[OF assms(3)]
  by (auto simp: api_routes_cases strict_api_calls Let_def chi_like_def plain_paths_def split: prod.split)

lemma visits_write:
  "\<exists>ops. VisitGetClusterResponse (fst (handler_GetCluster svc iid s)) = Inr ops"
  "\<exists>ops. VisitDeleteClusterResponse gone = Inr ops"
  "fst (handler_ListClusters svc n tok s) = Returns l \<Longrightarrow> \<exists>ops. VisitListClustersResponse l = Inr ops"
  "\<exists>ops. VisitCreateClusterResponse (fst (handler_CreateCluster svc uuid pid body s)) = Inr ops"
proof -
  show "\<exists>ops. VisitGetClusterResponse (fst (handler_GetCluster svc iid s)) = Inr ops"
    using success_marshalable(2)[of svc iid s] enc_Cluster_iff
    by (cases "fst (handler_GetCluster svc iid s)") (auto simp: visit_json_Inr)
  show "\<exists>ops. VisitDeleteClusterResponse gone = Inr ops" by (cases gone) simp_all
  show "\<exists>ops. VisitListClustersResponse l = Inr ops" if "fst (handler_ListClusters svc n tok s) = Returns l"
    using listed_marshalable[of svc n tok s] that by (cases l) (auto simp: visit_json_Inr)
  show "\<exists>ops. VisitCreateClusterResponse (fst (handler_CreateCluster svc uuid pid body s)) = Inr ops"
    using success_marshalable(1)[of svc uuid pid body s] enc_Cluster_iff
    by (cases "fst (handler_CreateCluster svc uuid pid body s)") (auto simp: visit_json_Inr)
qed

lemma parsed_Inr [simp]: "parsed parse (Returns (Inr rsp), s) = (Returns (parse rsp), s)"
  by (simp add: parsed_def)

text \<open>The calls of a cluster by its id.\<close>

lemma id_request:
  assumes "library_laws lib server base" "clientIDRe iid"
  shows "NewGetClusterRequest lib server iid = Inr \<lparr>rq_Method = ''GET'',
      rq_URL = \<lparr>u_Base = base, u_Path = cluster_path iid, u_RawQuery = []\<rparr>, rq_Header = [], rq_Body = None\<rparr>"
    and "NewDeleteClusterRequest lib server iid = Inr \<lparr>rq_Method = ''DELETE'',
      rq_URL = \<lparr>u_Base = base, u_Path = cluster_path iid, u_RawQuery = []\<rparr>, rq_Header = [], rq_Body = None\<rparr>"
proof -
  have path: "''/api/v1alpha1/clusters/'' @ iid = cluster_path iid" by (simp add: cluster_path_def clusters_path_def)
  have style: "StyleParam lib ''simple'' False ''clusterId'' (StyleString iid) = Inr iid"
    using assms by (simp add: library_laws_def)
  have "api_path (cluster_path iid)" using assms(2) by (auto simp: api_path_def)
  note req = built_request[OF assms(1) this]
  show "NewGetClusterRequest lib server iid = Inr \<lparr>rq_Method = ''GET'',
      rq_URL = \<lparr>u_Base = base, u_Path = cluster_path iid, u_RawQuery = []\<rparr>, rq_Header = [], rq_Body = None\<rparr>"
    unfolding NewGetClusterRequest_def style sum.case path req ..
  show "NewDeleteClusterRequest lib server iid = Inr \<lparr>rq_Method = ''DELETE'',
      rq_URL = \<lparr>u_Base = base, u_Path = cluster_path iid, u_RawQuery = []\<rparr>, rq_Header = [], rq_Body = None\<rparr>"
    unfolding NewDeleteClusterRequest_def style sum.case path req ..
qed

lemma client_get_run:
  assumes "library_laws lib server base" "chi_like (ev_mux env)" "plain_paths (ev_binder env)"
    and "clientIDRe iid" "iid \<noteq> ''health''" "passes router ''GET'' (cluster_path iid) [] None"
    and "c = plain_client (serve_doer st router (api_routes env (handler_ssi svc uuid check))) server"
    and "handler_GetCluster svc iid s = (got, s1)" "clean_get (float_text lib) got"
  shows "\<exists>r. GetClusterWithResponse lib c iid [] s = (Returns (Inr r), s1) \<and> seen_get r = Some got
    \<and> GetClusterResponse_StatusCode r = fst (get_status got)"
proof -
  obtain ops where ops: "VisitGetClusterResponse got = Inr ops"
    using visits_write(1)[of svc iid s] assms(8) by auto
  have server: "c_Server c = server" by (simp add: assms(7) plain_client_def)
  have "Client_GetCluster lib c iid [] s = (Returns (Inr (answer_of st ops)), s1)"
    using served_call[OF assms(6), where script = "api_routes env (handler_ssi svc uuid check)" and ops = ops and s' = s1]
      route_script(1)[OF assms(2-4,5), of svc uuid check "[]" None s] assms(8) ops
    by (simp add: Client_GetCluster_def server id_request[OF assms(1,4)]) (simp add: assms(7))
  then show ?thesis
    using get_over_wire[OF assms(9) ops, of st] by (auto simp: GetClusterWithResponse_def)
qed

lemma client_delete_run:
  assumes "library_laws lib server base" "chi_like (ev_mux env)" "plain_paths (ev_binder env)"
    and "clientIDRe iid" "passes router ''DELETE'' (cluster_path iid) [] None"
    and "c = plain_client (serve_doer st router (api_routes env (handler_ssi svc uuid check))) server"
    and "handler_DeleteCluster svc iid s = (gone, s1)" "clean_delete gone"
  shows "\<exists>r. DeleteClusterWithResponse lib c iid [] s = (Returns (Inr r), s1) \<and> seen_delete r = Some gone
    \<and> DeleteClusterResponse_StatusCode r = fst (delete_status gone)"
proof -
  obtain ops where ops: "VisitDeleteClusterResponse gone = Inr ops"
    using visits_write(2)[of gone] by auto
  have server: "c_Server c = server" by (simp add: assms(6) plain_client_def)
  have "Client_DeleteCluster lib c iid [] s = (Returns (Inr (answer_of st ops)), s1)"
    using served_call[OF assms(5), where script = "api_routes env (handler_ssi svc uuid check)" and ops = ops and s' = s1]
      route_script(2)[OF assms(2-4), of svc uuid check "[]" None s] assms(7) ops
    by (simp add: Client_DeleteCluster_def server id_request[OF assms(1,4)]) (simp add: assms(6))
  then show ?thesis
    using delete_over_wire[OF assms(8) ops, of lib st] by (auto simp: DeleteClusterWithResponse_def)
qed

text \<open>
  C16: the generated client sees what the handler answers.  For a valid client id other than \<open>health\<close>,
  \<open>GetCluster\<close> and \<open>DeleteCluster\<close> through client, wire, router and server return the very response of the
  handler, decoded into the field of its status, and leave the hub as the handler does.  Assumed are
  requests the validator lets through unchanged, answers that are well-typed and whose texts are valid
  UTF-8, a client without request editors, and the documented behaviour of the router, of the parameter
  runtime and of the client's URL library.
\<close>

theorem client_get_delete:
  assumes "library_laws lib server base" "chi_like (ev_mux env)" "plain_paths (ev_binder env)"
    and "validateClientID iid = None" "iid \<noteq> ''health''"
    and "passes router ''GET'' (cluster_path iid) [] None" "passes router ''DELETE'' (cluster_path iid) [] None"
    and "c = plain_client (serve_doer st router (api_routes env (handler_ssi svc uuid check))) server"
    and "handler_GetCluster svc iid s = (got, s1)" "clean_get (float_text lib) got"
    and "handler_DeleteCluster svc iid s = (gone, s2)" "clean_delete gone"
  shows "(\<exists>r. GetClusterWithResponse lib c iid [] s = (Returns (Inr r), s1) \<and> seen_get r = Some got
        \<and> GetClusterResponse_StatusCode r = fst (get_status got))
    \<and> (\<exists>r. DeleteClusterWithResponse lib c iid [] s = (Returns (Inr r), s2) \<and> seen_delete r = Some gone
        \<and> DeleteClusterResponse_StatusCode r = fst (delete_status gone))"
proof -
  have "clientIDRe iid" using assms(4) by (simp add: validateClientID_def split: if_splits)
  then show ?thesis
    using client_get_run[OF assms(1-3) _ assms(5,6,8-10)] client_delete_run[OF assms(1-3) _ assms(7,8,11,12)] by blast
qed

subsection \<open>Lists\<close>

text \<open>The values the client sends with a list request.\<close>

definition list_values :: "ListClustersParams \<Rightarrow> url_values" where
  "list_values params =
     (case lp_MaxPageSize params of None \<Rightarrow> id | Some n \<Rightarrow> Values_Add ''max_page_size'' (FormatInt n))
       ((case lp_PageToken params of None \<Rightarrow> id | Some t \<Rightarrow> Values_Add ''page_token'' t) [])"

lemma wf_list_values: "wf_values (list_values params)"
  by (auto simp: list_values_def intro!: wf_values_Add split: option.split) (simp_all add: wf_values_def sorted_map_def)

lemma list_values_of:
  "map_of (list_values params) ''page_token'' = map_option (\<lambda>t. [t]) (lp_PageToken params)"
  "map_of (list_values params) ''max_page_size'' = map_option (\<lambda>n. [FormatInt n]) (lp_MaxPageSize params)"
  by (auto simp: list_values_def Values_Add_def split: option.split)

lemma add_query_styled:
  assumes "\<And>v. StyleParam lib ''form'' True name (val v) = Inr (encode_pair (name, txt v))"
  shows "add_query_param lib name (map_option val v) m = Inr ((case v of None \<Rightarrow> id | Some v \<Rightarrow> Values_Add name (txt v)) m)"
  using assms by (simp add: add_query_param_def parse_pair pairs_of_def split: option.split)

lemma list_request:
  assumes "library_laws lib server base"
  shows "NewListClustersRequest lib server (Some params) =
    Inr \<lparr>rq_Method = ''GET'',
      rq_URL = \<lparr>u_Base = base, u_Path = clusters_path, u_RawQuery = Values_Encode (list_values params)\<rparr>,
      rq_Header = [], rq_Body = None\<rparr>"
proof -
  have path: "''/api/v1alpha1/clusters'' = clusters_path" by (simp add: clusters_path_def)
  have tok: "add_query_param lib ''page_token'' (map_option StyleString v) m =
      Inr ((case v of None \<Rightarrow> id | Some v \<Rightarrow> Values_Add ''page_token'' v) m)" for v m
    using add_query_styled[of lib "''page_token''" StyleString "\<lambda>v. v"] assms by (simp add: library_laws_def)
  have num: "add_query_param lib ''max_page_size'' (map_option StyleInt v) m =
      Inr ((case v of None \<Rightarrow> id | Some n \<Rightarrow> Values_Add ''max_page_size'' (FormatInt n)) m)" for v m
    using add_query_styled[of lib "''max_page_size''" StyleInt FormatInt] assms by (simp add: library_laws_def)
  have "fst (ParseQuery []) = []" by (simp add: ParseQuery_def parse_query.simps)
  then show ?thesis
    using built_request[OF assms, of clusters_path] api_path_clusters
    by (simp add: NewListClustersRequest_def path tok num list_values_def)
qed

lemma list_script:
  assumes "chi_like (ev_mux env)" "query_laws (ev_binder env)"
    and "\<And>n. lp_MaxPageSize params = Some n \<Longrightarrow> to_int32 n = n"
    and "handler_ListClusters svc (lp_MaxPageSize params) (lp_PageToken params) s = (Returns l, s')"
  shows "api_routes env (handler_ssi svc uuid check)
      \<lparr>hq_Method = ''GET'', hq_Path = clusters_path, hq_RawQuery = Values_Encode (list_values params), hq_Body = b\<rparr> s =
      written (VisitListClustersResponse l) s'"
proof -
  have "BindQueryString (ev_binder env) ''page_token'' (Values_Encode (list_values params)) = Inr (lp_PageToken params)"
    using assms(2) wf_list_values list_values_of(1)[of params] unfolding query_laws_def
    by (cases "lp_PageToken params") auto
  moreover have "BindQueryInt32 (ev_binder env) ''max_page_size'' (Values_Encode (list_values params)) = Inr (lp_MaxPageSize params)"
    using assms(2,3) wf_list_values list_values_of(2)[of params] unfolding query_laws_def
    by (cases "lp_MaxPageSize params") auto
  ultimately show ?thesis
    using assms(1,4) by (simp add: api_routes_cases strict_list Let_def chi_like_def)
qed

text \<open>
  Listing through the generated client.  The page token, whatever characters it holds, and the
  page size reach the handler as they were given, and the caller sees the handler's response.
\<close>

theorem client_list:
  assumes "library_laws lib server base" "chi_like (ev_mux env)" "query_laws (ev_binder env)"
    and "\<And>n. lp_MaxPageSize params = Some n \<Longrightarrow> to_int32 n = n"
    and "passes router ''GET'' clusters_path (Values_Encode (list_values params)) None"
    and "c = plain_client (serve_doer st router (api_routes env (handler_ssi svc uuid check))) server"
    and "handler_ListClusters svc (lp_MaxPageSize params) (lp_PageToken params) s = (Returns l, s')"
    and "clean_listing (float_text lib) l"
  shows "\<exists>r. ListClustersWithResponse lib c (Some params) [] s = (Returns (Inr r), s') \<and> seen_list r = Some l
    \<and> ListClustersResponse_StatusCode r = fst (list_status l)"
proof -
  obtain ops where ops: "VisitListClustersResponse l = Inr ops"
    using visits_write(3)[of svc "lp_MaxPageSize params" "lp_PageToken params" s l] assms(7) by auto
  have "Client_ListClusters lib c (Some params) [] s = (Returns (Inr (answer_of st ops)), s')"
    using served_call[OF assms(5), where script = "api_routes env (handler_ssi svc uuid check)" and ops = ops and s' = s']
      list_script[OF assms(2,3,4,7)] list_request[OF assms(1), of params] ops
    by (simp add: Client_ListClusters_def assms(6)) (simp add: plain_client_def)
  then show ?thesis
    using list_over_wire[OF assms(8) ops, of st] by (auto simp: ListClustersWithResponse_def)
qed

subsection \<open>Creation\<close>

definition create_values :: "CreateClusterParams \<Rightarrow> url_values" where
  "create_values params = (case crp_Id params of None \<Rightarrow> [] | Some iid \<Rightarrow> Values_Add ''id'' iid [])"

lemma create_values_facts:
  "wf_values (create_values params)" "map_of (create_values params) ''id'' = map_option (\<lambda>i. [i]) (crp_Id params)"
  by (auto simp: create_values_def Values_Add_def wf_values_def sorted_map_def split: option.split)

lemma create_request:
  assumes "library_laws lib server base" "enc_Cluster body = Some j"
  shows "NewCreateClusterRequest lib server (Some params) body =
    Inr \<lparr>rq_Method = ''POST'',
      rq_URL = \<lparr>u_Base = base, u_Path = clusters_path, u_RawQuery = Values_Encode (create_values params)\<rparr>,
      rq_Header = [(''Content-Type'', ''application/json'')], rq_Body = Some (print_json j)\<rparr>"
proof -
  have path: "''/api/v1alpha1/clusters'' = clusters_path" by (simp add: clusters_path_def)
  have iid: "add_query_param lib ''id'' (map_option StyleString v) [] =
      Inr (case v of None \<Rightarrow> [] | Some i \<Rightarrow> Values_Add ''id'' i [])" for v
    using add_query_styled[of lib "''id''" StyleString "\<lambda>v. v" v "[]"] assms(1)
    by (simp add: library_laws_def split: option.split)
  have "fst (ParseQuery []) = []" by (simp add: ParseQuery_def parse_query.simps)
  then show ?thesis
    using built_request[OF assms(1), of clusters_path] api_path_clusters
    by (simp add: NewCreateClusterRequest_def NewCreateClusterRequestWithBody_def assms(2) path iid create_values_def Let_def)
qed

lemma decode_sent:
  assumes "clean_cluster (ev_fnum env) body" "enc_Cluster body = Some j"
  shows "decode_body (ev_fnum env) f \<lparr>hq_Method = m, hq_Path = p, hq_RawQuery = q, hq_Body = Some (print_json j)\<rparr> = Inr body"
proof -
  have "Decode (print_json j) = Some j"
    using assms Unmarshal_print(2)[of j "[]"] by (simp add: clean_cluster_def printable_def)
  moreover have "dec_Cluster (ev_fnum env) j zero_Cluster = Some body"
    using assms Cluster_back by (simp add: clean_cluster_def)
  ultimately show ?thesis by (simp add: decode_body_def)
qed

lemma create_script:
  assumes "chi_like (ev_mux env)" "query_laws (ev_binder env)"
    and "clean_cluster (ev_fnum env) body" "enc_Cluster body = Some j"
    and "handler_CreateCluster svc uuid (crp_Id params) body s = (resp, s')"
  shows "api_routes env (handler_ssi svc uuid check)
      \<lparr>hq_Method = ''POST'', hq_Path = clusters_path, hq_RawQuery = Values_Encode (create_values params),
       hq_Body = Some (print_json j)\<rparr> s =
      written (VisitCreateClusterResponse resp) s'"
proof -
  have "BindQueryString (ev_binder env) ''id'' (Values_Encode (create_values params)) = Inr (crp_Id params)"
    using assms(2) create_values_facts[of params] unfolding query_laws_def by (cases "crp_Id params") auto
  then show ?thesis
    using assms(1,5) decode_sent[OF assms(3,4)] by (simp add: api_routes_cases strict_create Let_def chi_like_def)
qed

lemma client_create_run:
  assumes "library_laws lib server base" "chi_like (ev_mux env)" "query_laws (ev_binder env)"
    and "clean_cluster (ev_fnum env) body" "enc_Cluster body = Some j"
    and "passes router ''POST'' clusters_path (Values_Encode (create_values params)) (Some (print_json j))"
    and "c = plain_client (serve_doer st router (api_routes env (handler_ssi svc uuid check))) server"
    and "handler_CreateCluster svc uuid (crp_Id params) body s = (resp, s')"
    and "clean_create (float_text lib) resp"
  shows "\<exists>r. CreateClusterWithResponse lib c (Some params) body [] s = (Returns (Inr r), s') \<and> seen_create r = Some resp
    \<and> CreateClusterResponse_StatusCode r = fst (create_status resp)"
proof -
  obtain ops where ops: "VisitCreateClusterResponse resp = Inr ops"
    using visits_write(4)[of svc uuid "crp_Id params" body s] assms(8) by auto
  have "Client_CreateCluster lib c (Some params) body [] s = (Returns (Inr (answer_of st ops)), s')"
    using served_call[OF assms(6), where script = "api_routes env (handler_ssi svc uuid check)" and ops = ops and s' = s']
      create_script[OF assms(2-5,8)] create_request[OF assms(1,5), of params] ops
    by (simp add: Client_CreateCluster_def assms(7)) (simp add: plain_client_def)
  then show ?thesis
    using create_over_wire[OF assms(9) ops, of st] by (auto simp: CreateClusterWithResponse_def)
qed

text \<open>
  C13: creating through the generated client, when the validator lets the request through unchanged.
  The cluster a caller passes, written as JSON and read by the strict server, and its id reach the
  handler as they were given; the caller sees the handler's response and the hub is left as the handler
  leaves it.  Assumed are a cluster and an answer that are well-typed and whose texts are valid UTF-8, a
  client without request editors, and the documented behaviour of the router, of the parameter runtime
  and of the client's URL library.
\<close>

theorem client_create:
  assumes "library_laws lib server base" "chi_like (ev_mux env)" "query_laws (ev_binder env)"
    and "clean_cluster (ev_fnum env) body" "enc_Cluster body = Some j"
    and "passes router ''POST'' clusters_path (Values_Encode (create_values params)) (Some (print_json j))"
    and "c = plain_client (serve_doer st router (api_routes env (handler_ssi svc uuid check))) server"
    and "handler_CreateCluster svc uuid (crp_Id params) body s = (resp, s')"
    and "clean_create (float_text lib) resp"
  shows "\<exists>r. CreateClusterWithResponse lib c (Some params) body [] s = (Returns (Inr r), s') \<and> seen_create r = Some resp
    \<and> CreateClusterResponse_StatusCode r = fst (create_status resp)"
  by (rule client_create_run[OF assms])

subsection \<open>The cluster named health\<close>

lemma fold_name_ascii: "list_all (\<lambda>ch. byte_val ch < 128) s \<Longrightarrow> fold_name s = map upper s"
proof (induction s rule: fold_name.induct)
  case (2 ch s)
  have "take 3 (ch # s) \<noteq> utf8_bytes 0x212A" "take 2 (ch # s) \<noteq> utf8_bytes 0x17F"
    using 2(4) by (auto simp: utf8_bytes_def byte_val_def)
  then show ?case using 2 by simp
qed simp

text \<open>Names of lower-case letters and underscores are told apart without case as well.\<close>

definition plain_name :: "string \<Rightarrow> bool" where
  "plain_name s \<longleftrightarrow> list_all (\<lambda>ch. ch = CHR ''_'' \<or> 97 \<le> byte_val ch \<and> byte_val ch \<le> 122) s"

lemma upper_byte: "97 \<le> byte_val ch \<Longrightarrow> byte_val ch \<le> 122 \<Longrightarrow> byte_val (upper ch) = byte_val ch - 32"
  by (simp add: upper_def byte_val_def take_bit_eq_mod)

lemma underscore: "byte_val (CHR ''_'') = 95" "upper (CHR ''_'') = CHR ''_''"
  by (simp_all add: upper_def byte_val_def)

lemma upper_inj:
  assumes "a = CHR ''_'' \<or> 97 \<le> byte_val a \<and> byte_val a \<le> 122" "b = CHR ''_'' \<or> 97 \<le> byte_val b \<and> byte_val b \<le> 122"
  shows "upper a = upper b \<longleftrightarrow> a = b"
  using assms upper_byte[of a] upper_byte[of b] underscore byte_val_eq_iff[of a b] byte_val_eq_iff[of "upper a" "upper b"]
  by (auto simp: underscore)

lemma map_upper_inj: "plain_name s \<Longrightarrow> plain_name t \<Longrightarrow> map upper s = map upper t \<Longrightarrow> s = t"
proof (induction s arbitrary: t)
  case (Cons a s)
  then obtain b t' where t: "t = b # t'" "upper a = upper b" "map upper s = map upper t'" by (cases t) auto
  have "a = b" using Cons.prems(1,2) t(1,2) upper_inj[of a b] by (simp add: plain_name_def)
  moreover have "s = t'" by (rule Cons.IH) (use Cons.prems t in \<open>simp_all add: plain_name_def\<close>)
  ultimately show ?case by (simp add: t(1))
qed simp

lemma plain_ascii: "plain_name s \<Longrightarrow> fold_name s = map upper s"
proof (rule fold_name_ascii)
  assume "plain_name s"
  moreover have "byte_val ch < 128" if "ch = CHR ''_'' \<or> 97 \<le> byte_val ch \<and> byte_val ch \<le> 122" for ch
    using that underscore(1) by auto
  ultimately show "list_all (\<lambda>ch. byte_val ch < 128) s" unfolding plain_name_def list_all_iff by blast
qed

lemma fold_plain: "plain_name s \<Longrightarrow> plain_name t \<Longrightarrow> fold_name s = fold_name t \<longleftrightarrow> s = t"
  using map_upper_inj[of s t] by (auto simp: plain_ascii)

lemma field_of_plain:
  assumes "plain_name k" "\<And>n. n \<in> fst ` set fs \<Longrightarrow> plain_name n"
  shows "field_of fs k = map_of fs k"
proof -
  have "map_of (map (\<lambda>(n, d). (fold_name n, d)) fs) (fold_name k) = map_of fs k"
    using assms(2)
  proof (induction fs)
    case (Cons e fs)
    obtain n d where e: "e = (n, d)" by (cases e)
    have "fold_name n = fold_name k \<longleftrightarrow> n = k" using Cons.prems fold_plain assms(1) by (simp add: e)
    moreover have "map_of (map (\<lambda>(n, d). (fold_name n, d)) fs) (fold_name k) = map_of fs k"
      by (rule Cons.IH) (use Cons.prems in auto)
    ultimately show ?case by (auto simp: e)
  qed simp
  then show ?thesis by (simp add: field_of_def split: option.split)
qed

lemma plain_Cluster_fields: "n \<in> fst ` set (Cluster_fields fnum) \<Longrightarrow> plain_name n"
  by (auto simp: Cluster_fields_def plain_name_def byte_val_def)

lemma health_fields:
  "field_of (Cluster_fields fnum) ''type'' = None" "field_of (Cluster_fields fnum) ''uptime'' = None"
  "field_of (Cluster_fields fnum) ''version'' = None"
proof -
  have plain: "plain_name ''type''" "plain_name ''uptime''" "plain_name ''version''"
    by (simp_all add: plain_name_def byte_val_def)
  have "map_of (Cluster_fields fnum) ''type'' = None" "map_of (Cluster_fields fnum) ''uptime'' = None"
    "map_of (Cluster_fields fnum) ''version'' = None"
    by (simp_all add: Cluster_fields_def)
  then show "field_of (Cluster_fields fnum) ''type'' = None" "field_of (Cluster_fields fnum) ''uptime'' = None"
    "field_of (Cluster_fields fnum) ''version'' = None"
    by (simp_all only: field_of_plain[OF plain(1) plain_Cluster_fields] field_of_plain[OF plain(2) plain_Cluster_fields]
        field_of_plain[OF plain(3) plain_Cluster_fields])
qed

lemma health_as_cluster:
  assumes "he_Status h = Some status" "he_Path h = Some path"
  shows "dec_Cluster fnum (enc_Health h) zero_Cluster = Some (zero_Cluster\<lparr>cl_Path := Some path, cl_Status := Some status\<rparr>)"
proof -
  have known: "field_of (Cluster_fields fnum) ''path'' = Some (ptr_field cl_Path (\<lambda>v x. x\<lparr>cl_Path := v\<rparr>) [] dec_string)"
    "field_of (Cluster_fields fnum) ''status'' = Some (ptr_field cl_Status (\<lambda>v x. x\<lparr>cl_Status := v\<rparr>) [] dec_string)"
    by (simp_all add: Cluster_fields_def)
  show ?thesis
    using assms health_fields[of fnum]
    by (simp add: dec_Cluster_def enc_Health_def dec_fields_entry known zero_Cluster_def)
qed

lemma health_is_valid_id: "clientIDRe ''health''"
  by (simp add: clientIDRe_def is_lower_def is_digit_def digit_val_def)

text \<open>
  C39: the id \<open>health\<close> passes the validation of a create, but a client that asks for that cluster gets
  the answer of the health check, decoded as a cluster: with status 200, an empty spec, the path
  \<open>health\<close> and a status that is not a cluster status.
\<close>

theorem health_id_misread:
  assumes "library_laws lib server base" "chi_like (ev_mux env)" "plain_paths (ev_binder env)"
    and "passes router ''GET'' (cluster_path ''health'') [] None"
    and "client = plain_client (serve_doer st router
           (api_routes env (handler_ssi svc uuid (Check c gvk_String cfg version elapsed)))) server"
    and "json_ok maxNestingDepth (enc_Health (fst (Check c gvk_String cfg version elapsed s)))"
  shows "\<exists>r status. GetClusterWithResponse lib client ''health'' [] s =
        (Returns (Inr r), snd (Check c gvk_String cfg version elapsed s))
    \<and> seen_get r = Some (GetCluster200 (zero_Cluster\<lparr>cl_Path := Some ''health'', cl_Status := Some status\<rparr>))
    \<and> GetClusterResponse_StatusCode r = 200 \<and> \<not> ClusterStatus_Valid status \<and> validateClientID ''health'' = None"
proof -
  obtain h s' where run: "Check c gvk_String cfg version elapsed s = (h, s')" by fastforce
  have path: "he_Path h = Some ''health''"
    using run by (auto simp: Check_def Let_def split: prod.splits option.splits bool.splits)
  obtain status where status: "he_Status h = Some status" "status \<in> {''healthy'', ''unhealthy''}"
    using hc.check_populated[OF run] by (auto simp: populated_def)
  have bad: "\<not> ClusterStatus_Valid status" using status(2) by (auto simp: ClusterStatus_Valid_def)
  define ops where "ops = [SetContentType ''application/json'', WriteHeader 200, Write (print_json (enc_Health h) @ newline)]"
  have "handler_GetHealth (Check c gvk_String cfg version elapsed) s = (GetHealth200 h, s')"
    by (simp add: handler_GetHealth_def run)
  then have script: "api_routes env (handler_ssi svc uuid (Check c gvk_String cfg version elapsed))
      \<lparr>hq_Method = ''GET'', hq_Path = cluster_path ''health'', hq_RawQuery = [], hq_Body = None\<rparr> s = written (Inr ops) s'"
    by (simp add: ops_def route_script(3)[OF assms(2,3) health_is_valid_id])
  have server: "c_Server client = server" by (simp add: assms(5) plain_client_def)
  have "Client_GetCluster lib client ''health'' [] s = (Returns (Inr (answer_of st ops)), s')"
    using served_call[where script = "api_routes env (handler_ssi svc uuid (Check c gvk_String cfg version elapsed))", OF assms(4) script]
    by (simp add: Client_GetCluster_def server id_request(1)[OF assms(1) health_is_valid_id]) (simp add: assms(5))
  moreover have "unmarshal_into (dec_Cluster (float_text lib)) zero_Cluster (print_json (enc_Health h) @ newline)
      = Some (zero_Cluster\<lparr>cl_Path := Some ''health'', cl_Status := Some status\<rparr>)"
    using assms(6) run by (simp add: read_line health_as_cluster[OF status(1) path])
  then have "\<exists>r. ParseGetClusterResponse lib (answer_of st ops) = Inr r
      \<and> seen_get r = Some (GetCluster200 (zero_Cluster\<lparr>cl_Path := Some ''health'', cl_Status := Some status\<rparr>))
      \<and> GetClusterResponse_StatusCode r = 200"
    by (auto simp: ops_def ParseGetClusterResponse_def seen_get_def GetClusterResponse_StatusCode_def wire_defs)
  ultimately show ?thesis
    using bad health_is_valid_id by (auto simp: GetClusterWithResponse_def run validateClientID_def)
qed

subsection \<open>Concrete libraries\<close>

definition test_base :: string where
  "test_base = ''http://acm''"

definition simple_lib :: client_lib where
  "simple_lib =
     \<lparr>url_Parse = \<lambda>t. (let rest = drop (length test_base) t in
        if take (length test_base) t = test_base
        then Inr \<lparr>u_Base = test_base, u_Path = takeWhile (\<lambda>ch. ch \<noteq> CHR ''?'') rest,
                  u_RawQuery = drop 1 (dropWhile (\<lambda>ch. ch \<noteq> CHR ''?'') rest)\<rparr>
        else Inl (PlainError ''missing protocol scheme'')),
      url_Resolve = \<lambda>u p. Inr (u\<lparr>u_Path := drop 1 p, u_RawQuery := []\<rparr>),
      url_String = \<lambda>u. u_Base u @ u_Path u @ (if u_RawQuery u = [] then [] else ''?'' @ u_RawQuery u),
      StyleParam = \<lambda>style explode name v. Inr
        (case v of
           StyleString t \<Rightarrow> if style = ''form'' then encode_pair (name, t) else t
         | StyleInt n \<Rightarrow> if style = ''form'' then encode_pair (name, FormatInt n) else FormatInt n),
      json_Error = \<lambda>body. PlainError ''invalid JSON'', float_text = \<lambda>t. Some t\<rparr>"

definition query_binder :: param_binder where
  "query_binder =
     \<lparr>BindQueryString = \<lambda>name q. (case map_of (fst (ParseQuery q)) name of
        None \<Rightarrow> Inr None
      | Some [v] \<Rightarrow> Inr (Some v)
      | Some vs \<Rightarrow> Inl (PlainError ''multiple values for single value parameter'')),
      BindQueryInt32 = \<lambda>name q. (case map_of (fst (ParseQuery q)) name of
        None \<Rightarrow> Inr None
      | Some [v] \<Rightarrow> (case Atoi v of
          Some n \<Rightarrow> if to_int32 n = n then Inr (Some n) else Inl (PlainError ''out of range'')
        | None \<Rightarrow> Inl (PlainError ''not a number''))
      | Some vs \<Rightarrow> Inl (PlainError ''multiple values for single value parameter'')),
      BindPathString = \<lambda>name t. Inr t\<rparr>"

definition query_env :: server_env where
  "query_env = simple_env\<lparr>ev_binder := query_binder\<rparr>"

lemma int32_in_int64: "to_int32 n = n \<Longrightarrow> in_int64 n"
  using to_int32_range[of n] by (simp add: in_int64_def)

lemma query_binder_laws: "query_laws query_binder"
  using Atoi_FormatInt[OF int32_in_int64]
  by (auto simp: query_laws_def query_binder_def parse_encoded)

lemma query_env_laws:
  "chi_like (ev_mux query_env)" "query_laws (ev_binder query_env)" "plain_paths (ev_binder query_env)"
  using simple_mux_chi query_binder_laws
  by (simp_all add: query_env_def simple_env_def plain_paths_def) (simp add: query_binder_def)

lemma segment_no_query:
  assumes "clientIDRe seg"
  shows "CHR ''?'' \<notin> set seg"
  using assms by (auto simp: clientIDRe_def Let_def list_all_iff is_lower_def is_digit_def digit_val_def)

lemma api_path_plain: "api_path p \<Longrightarrow> CHR ''?'' \<notin> set p"
  using segment_no_query by (auto simp: api_path_def clusters_path_def cluster_path_def)

lemma simple_lib_parse:
  assumes "CHR ''?'' \<notin> set p"
  shows "url_Parse simple_lib (url_String simple_lib \<lparr>u_Base = test_base, u_Path = p, u_RawQuery = q\<rparr>) =
    Inr \<lparr>u_Base = test_base, u_Path = p, u_RawQuery = q\<rparr>"
proof -
  have plain: "takeWhile (\<lambda>ch. ch \<noteq> CHR ''?'') p = p" "dropWhile (\<lambda>ch. ch \<noteq> CHR ''?'') p = []"
    using assms by (auto simp: takeWhile_eq_all_conv dropWhile_eq_Nil_conv)
  have "takeWhile (\<lambda>ch. ch \<noteq> CHR ''?'') (p @ ''?'' @ q) = p" "dropWhile (\<lambda>ch. ch \<noteq> CHR ''?'') (p @ ''?'' @ q) = ''?'' @ q"
    using assms by (induction p) auto
  then show ?thesis using plain by (simp add: simple_lib_def test_base_def Let_def)
qed

lemma simple_lib_laws: "library_laws simple_lib test_base test_base"
proof -
  have "url_Parse simple_lib test_base = Inr \<lparr>u_Base = test_base, u_Path = [], u_RawQuery = []\<rparr>"
    by (simp add: simple_lib_def test_base_def)
  moreover have "url_Resolve simple_lib \<lparr>u_Base = test_base, u_Path = [], u_RawQuery = []\<rparr> (''.'' @ p) =
      Inr \<lparr>u_Base = test_base, u_Path = p, u_RawQuery = []\<rparr>" for p
    by (simp add: simple_lib_def)
  moreover have "StyleParam simple_lib ''form'' True name (StyleString v) = Inr (encode_pair (name, v))"
    "StyleParam simple_lib ''form'' True name (StyleInt n) = Inr (encode_pair (name, FormatInt n))"
    "StyleParam simple_lib ''simple'' False ''clusterId'' (StyleString v) = Inr v" for name v n
    by (simp_all add: simple_lib_def)
  ultimately show ?thesis
    unfolding library_laws_def using simple_lib_parse[OF api_path_plain] by (metis url.select_convs(1))
qed

lemma open_passes: "passes open_router m p q b"
  by (simp add: passes_def)

text \<open>The sample world: a server for the in-memory hub and its client.\<close>

abbreviation sample_service :: "nat hub cluster_service" where
  "sample_service \<equiv> dispatcher_service mem_client sample_cfg nat_quantities [''kubevirt''] 1"

abbreviation sample_check :: "nat hub \<Rightarrow> Health \<times> nat hub" where
  "sample_check \<equiv> Check no_agents gvk_Kind sample_health ''1.0'' 3"

definition sample_client :: "nat hub Client" where
  "sample_client = plain_client (serve_doer (\<lambda>code. []) open_router
     (api_routes query_env (handler_ssi sample_service ''u-1'' sample_check))) test_base"

lemma clean_error500: "clean_error error500"
proof -
  have "valid_utf8 (error_type_uri ErrorTypeINTERNAL)" "valid_utf8 ''Internal Server Error''" "valid_utf8 DetailInternalError"
    by (simp_all add: valid_ascii DetailInternalError_def byte_val_def)
  then show ?thesis
    by (simp add: clean_error_def error500_def buildErrorResponse_def wf_Error_def enc_Error_def ptr_entry_def
        maxNestingDepth_def to_int32_def ErrorType_of_uri enc_int_def valid_ascii byte_val_def ErrorType_of_def known_types_def)
qed

lemma known_type_text: "list_all (\<lambda>t. ErrorType_of (error_type_uri t) = t) known_types"
  by code_simp

lemma known_type_ascii: "t \<in> set known_types \<Longrightarrow> list_all (\<lambda>ch. byte_val ch < 128) (error_type_uri t)"
  by (cases t) (simp_all add: byte_val_def known_types_def)

lemma clean_errorI:
  assumes "er_Type e \<in> set known_types" "valid_utf8 (er_Title e)" "opt_all valid_utf8 (er_Detail e)"
    "opt_all (\<lambda>n. to_int32 n = n) (er_Status e)" "er_Instance e = None"
  shows "clean_error e"
proof -
  have "valid_utf8 (error_type_uri (er_Type e))" "ErrorType_of (error_type_uri (er_Type e)) = er_Type e"
    using assms(1) known_type_ascii valid_ascii known_type_text by (auto simp: list_all_iff)
  moreover have "valid_utf8 ''detail''" "valid_utf8 ''status''" "valid_utf8 ''title''" "valid_utf8 ''type''"
    by (simp_all add: valid_ascii byte_val_def)
  ultimately show ?thesis
    using assms(2-)
    by (cases "er_Status e"; cases "er_Detail e")
      (simp_all add: clean_error_def wf_Error_def enc_Error_def ptr_entry_def enc_int_def maxNestingDepth_def)
qed

lemma clean_error400: "valid_utf8 d \<Longrightarrow> clean_error (error400 d)"
  by (rule clean_errorI)
    (simp_all add: error400_def buildErrorResponse_def known_types_def valid_ascii byte_val_def to_int32_def)

definition missing :: Error where
  "missing = \<lparr>er_Type = ErrorTypeNOTFOUND, er_Title = ''Not found'', er_Status = Some 404,
     er_Detail = Some ''cluster ab not found'', er_Instance = None\<rparr>"

lemma sample_missing:
  "handler_GetCluster sample_service ''ab'' empty_hub = (GetCluster404 missing, empty_hub)"
  "handler_DeleteCluster sample_service ''ab'' empty_hub = (DeleteCluster404 missing, empty_hub)"
proof -
  have none: "findByInstanceID mem_client ns iid empty_hub =
      (Inl (NewNotFoundError (''cluster '' @ iid @ '' not found'')), empty_hub)" for ns iid
    by (simp add: findByInstanceID_def mem_client_def empty_hub_def)
  have obj: "domainErrorObject (NewNotFoundError ''cluster ab not found'') = (missing, 404)"
    by (simp add: domainErrorObject_def MapDomainError_def NewNotFoundError_def missing_def buildErrorResponse_def
        to_int32_def Let_def)
  show "handler_GetCluster sample_service ''ab'' empty_hub = (GetCluster404 missing, empty_hub)"
    "handler_DeleteCluster sample_service ''ab'' empty_hub = (DeleteCluster404 missing, empty_hub)"
    by (simp_all add: handler_GetCluster_def handler_DeleteCluster_def dispatcher_methods GetCluster_def
        DeleteCluster_def none mapGetError_def mapDeleteError_def obj)
qed

lemma clean_missing: "clean_error missing"
  by (rule clean_errorI) (simp_all add: missing_def known_types_def valid_ascii byte_val_def to_int32_def)

theorem client_get_delete_witness:
  "\<exists>r. GetClusterWithResponse simple_lib sample_client ''ab'' [] empty_hub = (Returns (Inr r), empty_hub)
     \<and> seen_get r = Some (GetCluster404 missing)"
proof -
  have "validateClientID ''ab'' = None"
    by (simp add: validateClientID_def clientIDRe_def is_lower_def is_digit_def digit_val_def)
  then show ?thesis
    using client_get_delete[OF simple_lib_laws query_env_laws(1,3) _ _ open_passes open_passes sample_client_def
        sample_missing(1) _ sample_missing(2)] clean_missing
    by auto
qed

theorem client_list_witness:
  "\<exists>r e. ListClustersWithResponse simple_lib sample_client (Some \<lparr>lp_PageToken = Some ''a b&c=%'', lp_MaxPageSize = Some 0\<rparr>) []
     two_hub = (Returns (Inr r), two_hub) \<and> seen_list r = Some (ListClusters400 e)"
proof -
  let ?params = "\<lparr>lp_PageToken = Some ''a b&c=%'', lp_MaxPageSize = Some 0\<rparr>"
  have run: "handler_ListClusters sample_service (lp_MaxPageSize ?params) (lp_PageToken ?params) two_hub =
      (Returns (ListClusters400 (error400 ''max_page_size must be between 1 and 100'')), two_hub)"
    by (simp add: handler_ListClusters_def validateMaxPageSize_def)
  have "clean_listing (float_text simple_lib) (ListClusters400 (error400 ''max_page_size must be between 1 and 100''))"
    by (simp add: clean_error400 valid_ascii byte_val_def)
  from client_list[OF simple_lib_laws query_env_laws(1,2) _ open_passes sample_client_def run this]
  show ?thesis by (auto simp: to_int32_def)
qed

theorem client_create_witness:
  "\<exists>r e. CreateClusterWithResponse simple_lib sample_client (Some \<lparr>crp_Id = Some ''my-id''\<rparr>) sample_cluster [] two_hub =
     (Returns (Inr r), two_hub) \<and> seen_create r = Some (CreateCluster400 e)"
proof -
  let ?e = "error400 (''service_type must be '' @ Quote ClusterSpecServiceTypeCluster)"
  have run: "handler_CreateCluster sample_service ''u-1'' (crp_Id \<lparr>crp_Id = Some ''my-id''\<rparr>) sample_cluster two_hub =
      (CreateCluster400 ?e, two_hub)"
    by (simp add: handler_CreateCluster_def validateClientID_def clientIDRe_def is_lower_def is_digit_def digit_val_def
        validateCreateRequest_def sample_cluster_def zero_Cluster_def zero_ClusterSpec_def ClusterSpecServiceTypeCluster_def)
  have "valid_utf8 (''service_type must be '' @ Quote ClusterSpecServiceTypeCluster)"
    by (simp add: valid_ascii Quote_def quote_byte_def ClusterSpecServiceTypeCluster_def byte_val_def)
  then have "clean_create (float_text simple_lib) (CreateCluster400 ?e)" by (simp add: clean_error400)
  moreover have "clean_cluster (ev_fnum query_env) sample_cluster"
    by (simp add: clean_cluster_def sample_wf sample_printable)
  ultimately show ?thesis
    using client_create[OF simple_lib_laws query_env_laws(1,2) _ sample_json open_passes sample_client_def run] by blast
qed

theorem health_id_misread_witness:
  "\<exists>r s. fst (GetClusterWithResponse simple_lib sample_client ''health'' [] empty_hub) = Returns (Inr r)
     \<and> GetClusterResponse_StatusCode r = 200"
proof -
  have "json_ok maxNestingDepth (enc_Health (fst (sample_check empty_hub)))"
    by (auto simp: Check_def Let_def enc_Health_def ptr_entry_def maxNestingDepth_def enc_int_def valid_ascii byte_val_def
        split: prod.split option.split bool.split)
  from health_id_misread[OF simple_lib_laws query_env_laws(1,3) open_passes sample_client_def this] show ?thesis by auto
qed

end
