(* ===== verification/EndToEnd.thy ===== *)
theory EndToEnd
  imports ClientServer
begin

text \<open>
  The life of a cluster as a caller of the generated client sees it: the calls of \<open>pkg/client\<close> through
  the generated server, the handlers, the dispatcher and the cluster operations down to the hub.  The
  lemmas read the outcome of a handler off its status; the client side of each call is \<open>ClientServer\<close>'s.
\<close>

subsection \<open>What a status says of the service\<close>

lemma mapped_not_success [simp]:
  "fst (create_status (mapCreateError e)) \<noteq> 201" "fst (delete_status (mapDeleteError e)) \<noteq> 204"
  "mapGetError e \<noteq> GetCluster200 x"
  by (simp_all add: mapCreateError_def mapDeleteError_def mapGetError_def case_prod_beta' Let_def)

lemma mapGetError_internal:
  "domain_type e = Some ErrorTypeINTERNAL \<Longrightarrow> fst (get_status (mapGetError e)) = 500"
  using domainErrorObject_known[of e ErrorTypeINTERNAL] by (auto simp: mapGetError_def)

lemma mapGetError_not_found:
  "domain_type e = Some ErrorTypeNOTFOUND \<Longrightarrow> \<exists>err. mapGetError e = GetCluster404 err"
  using domainErrorObject_known[of e ErrorTypeNOTFOUND] by (auto simp: mapGetError_def)

lemma created_by_service:
  assumes "handler_CreateCluster svc uuid (Some iid) body s = (resp, s')" "fst (create_status resp) = 201" "iid \<noteq> []"
  shows "\<exists>made. resp = CreateCluster201 made \<and> svc_Create svc iid body s = (Inr made, s') \<and> clientIDRe iid"
  using assms
  by (auto simp: handler_CreateCluster_def Let_def validateClientID_def toServiceCluster_def toAPICluster_def
      split: option.splits if_splits sum.splits prod.splits)

lemma read_by_service:
  assumes "handler_GetCluster svc iid s = (resp, s')" "fst (get_status resp) \<noteq> 500"
  shows "\<exists>r. svc_Get svc iid s = (r, s')
    \<and> resp = (case r of Inl e \<Rightarrow> mapGetError e | Inr cl \<Rightarrow> GetCluster200 cl)
    \<and> (\<forall>e. r = Inl e \<longrightarrow> domain_type e \<noteq> Some ErrorTypeINTERNAL)"
  using assms mapGetError_internal
  by (auto simp: handler_GetCluster_def toAPICluster_def split: sum.splits prod.splits if_splits)

lemma deleted_by_service:
  assumes "handler_DeleteCluster svc iid s = (resp, s')" "fst (delete_status resp) = 204"
  shows "resp = DeleteCluster204 \<and> svc_Delete svc iid s = (None, s')"
  using assms by (auto simp: handler_DeleteCluster_def split: option.splits prod.splits)

subsection \<open>Deletion from a consistent hub\<close>

text \<open>The HostedClusters of an instance, and the node pools, after a delete of it that succeeded.\<close>

definition deleted_from :: "ClusterConfig \<Rightarrow> string \<Rightarrow> 'q hub \<Rightarrow> 'q hub \<Rightarrow> bool" where
  "deleted_from cfg iid h h' \<longleftrightarrow>
     (let mine = has_instance (cc_ClusterNamespace cfg) iid;
          pool = np_matches (cc_ClusterNamespace cfg) [(LabelInstanceID, iid)]
      in filter (\<lambda>x. \<not> mine x) (hub_hcs h') = filter (\<lambda>x. \<not> mine x) (hub_hcs h)
         \<and> filter (\<lambda>x. \<not> pool x) (hub_nps h') = filter (\<lambda>x. \<not> pool x) (hub_nps h)
         \<and> hub_images h' = hub_images h \<and> hub_secrets h' = hub_secrets h
         \<and> list_all (\<lambda>x. mine x \<longrightarrow> hc_DeletionTimestamp x \<noteq> None) (hub_hcs h')
         \<and> list_all (\<lambda>x. pool x \<longrightarrow> np_DeletionTimestamp x \<noteq> None) (hub_nps h'))"

lemma deleted_consistent:
  assumes "hub_api c view" "consistent cfg (view s)" "DeleteCluster c cfg iid s = (None, s')"
  shows "deleted_from cfg iid (view s) (view s')"
proof -
  let ?mine = "has_instance (cc_ClusterNamespace cfg) iid" and ?B = "hub_hcs (view s)" and ?A = "hub_hcs (view s')"
  have nps: "distinct (map np_key (hub_nps (view s)))" using assms(2) by (simp add: consistent_def)
  note eff = delete_on_hub[OF assms(1) nps assms(3) refl refl, simplified]
  obtain hc where hc: "hc \<in> set ?B" "?mine hc" "hc_gone (hc_key hc) ?B ?A" using eff by blast
  note gone = hc(3)[unfolded hc_gone_def]
  have inj: "inj_on hc_key (set ?B)" using assms(2) by (simp add: consistent_def distinct_map)
  have key: "hc_key x \<in> {hc_key hc} \<longleftrightarrow> ?mine x" if "x \<in> set ?B" for x
    using inj hc(1,2) that assms(2) unfolding consistent_def inj_on_def by blast
  have key': "hc_key x \<in> {hc_key hc} \<longleftrightarrow> ?mine x" if "x \<in> set ?A" for x
    using obj_gone_origin[OF gone that] key by auto
  have "filter (\<lambda>x. \<not> ?mine x) ?A = filter (\<lambda>x. hc_key x \<notin> {hc_key hc}) ?A"
    using key' by (intro filter_cong) auto
  also have "\<dots> = filter (\<lambda>x. hc_key x \<notin> {hc_key hc}) ?B"
    by (rule obj_gone_outside[OF gone]) simp_all
  also have "\<dots> = filter (\<lambda>x. \<not> ?mine x) ?B" using key by (intro filter_cong) auto
  finally have others: "filter (\<lambda>x. \<not> ?mine x) ?A = filter (\<lambda>x. \<not> ?mine x) ?B" .
  have "hc_DeletionTimestamp x \<noteq> None" if "x \<in> set ?A" "?mine x" for x
    using obj_gone_at[OF gone _ that(1)] key'[OF that(1)] that(2) by auto
  then show ?thesis using others eff by (simp add: deleted_from_def Let_def list_all_iff)
qed

text \<open>What a later read of the instance can answer, once all that is left of it is marked.\<close>

definition all_marked :: "ClusterConfig \<Rightarrow> string \<Rightarrow> 'q hub \<Rightarrow> bool" where
  "all_marked cfg iid h \<longleftrightarrow>
     list_all (\<lambda>x. has_instance (cc_ClusterNamespace cfg) iid x \<longrightarrow> hc_DeletionTimestamp x \<noteq> None) (hub_hcs h)"

lemma deleted_all_marked: "deleted_from cfg iid h h' \<Longrightarrow> all_marked cfg iid h'"
  by (simp add: deleted_from_def all_marked_def Let_def)

lemma all_marked_kept: "all_marked cfg iid h \<Longrightarrow> instance_kept cfg iid h h' \<Longrightarrow> all_marked cfg iid h'"
  unfolding all_marked_def instance_kept_def Let_def list_all_iff hc_kept_def by blast

lemma read_marked:
  assumes "hub_api c view" "all_marked cfg iid (view s)" "GetCluster c cfg iid s = (r, s')"
    and "\<And>e. r = Inl e \<Longrightarrow> domain_type e \<noteq> Some ErrorTypeINTERNAL"
  shows "(\<exists>e. r = Inl e \<and> domain_type e = Some ErrorTypeNOTFOUND)
    \<or> (\<exists>cl. r = Inr cl \<and> cl_Id cl = Some iid \<and> cl_Status cl = Some (status_string DELETING))"
proof -
  obtain f s1 where find: "findByInstanceID c (cc_ClusterNamespace cfg) iid s = (f, s1)" by fastforce
  show ?thesis
  proof (cases f)
    case (Inl e)
    then have "r = Inl e" using assms(3) find by (simp add: GetCluster_def)
    then show ?thesis using find_error[OF assms(1) find[unfolded Inl]] assms(4) by auto
  next
    case (Inr hc)
    note found = find_ok[OF assms(1) find[unfolded Inr]]
    have "r = Inr (fst (HostedClusterToCluster c cfg hc s1))"
      using assms(3) find Inr by (simp add: GetCluster_def case_prod_beta' Let_def)
    moreover have "hc_DeletionTimestamp hc \<noteq> None"
      using found assms(2) by (auto simp: all_marked_def list_all_iff)
    ultimately show ?thesis
      using found by (simp add: convert_fields MapConditionsToStatus_def has_instance_def map_get_SomeI)
  qed
qed

subsection \<open>What others do meanwhile\<close>

text \<open>
  One step of the rest of the world: a request for another instance, a read or a list, whatever it
  answers, or the controllers of the hub, which leave the deletion of this instance to its owner.
\<close>

inductive other_step ::
  "('s, 'q) k8s_client \<Rightarrow> ('s \<Rightarrow> 'q hub) \<Rightarrow> ClusterConfig \<Rightarrow> 'q quantity_api \<Rightarrow> string list \<Rightarrow> string \<Rightarrow> 's \<Rightarrow> 's \<Rightarrow> bool"
  for c view cfg qa enabled iid where
  other_create: "svc_Create (dispatcher_service c cfg qa enabled now) i req s = (r, s') \<Longrightarrow> i \<noteq> iid \<Longrightarrow>
    other_step c view cfg qa enabled iid s s'"
| other_get: "svc_Get (dispatcher_service c cfg qa enabled now) i s = (r, s') \<Longrightarrow>
    other_step c view cfg qa enabled iid s s'"
| other_list: "svc_List (dispatcher_service c cfg qa enabled now) n tok s = (l, s') \<Longrightarrow>
    other_step c view cfg qa enabled iid s s'"
| other_delete: "svc_Delete (dispatcher_service c cfg qa enabled now) i s = (d, s') \<Longrightarrow> i \<noteq> iid \<Longrightarrow>
    other_step c view cfg qa enabled iid s s'"
| other_controllers: "hub_evolves (view s) (view s') \<Longrightarrow> instance_kept cfg iid (view s) (view s') \<Longrightarrow>
    other_step c view cfg qa enabled iid s s'"

lemma other_is_service_step: "other_step c view cfg qa enabled iid s s' \<Longrightarrow> service_step c view cfg qa enabled s s'"
  by (induction rule: other_step.induct) (blast intro: service_step.intros)+

lemma one_instance: "has_instance ns i x \<Longrightarrow> has_instance ns j x \<Longrightarrow> i = j"
  by (simp add: has_instance_def)

lemma create_keeps:
  assumes "hub_api c view" "dispatcher_Create c cfg qa services now i req s = (r, s')" "i \<noteq> iid"
  shows "instance_kept cfg iid (view s) (view s')"
proof -
  have other: "\<not> has_instance (cc_ClusterNamespace cfg) iid hc" if "created_hc cfg i req img hc" for img hc
    using that assms(3) by (simp add: created_hc_def has_instance_def)
  have "filter (has_instance (cc_ClusterNamespace cfg) iid) (hub_hcs (view s')) =
      filter (has_instance (cc_ClusterNamespace cfg) iid) (hub_hcs (view s))"
  proof (cases r)
    case (Inr cl)
    then show ?thesis using create_on_hub[OF assms(1,2)] other by (auto simp: create_ok_def)
  next
    case (Inl e)
    then have "create_failed cfg i req (view s) e (view s')" using create_on_hub[OF assms(1,2)] by simp
    then show ?thesis using other unfolding create_failed_def by auto
  qed
  then show ?thesis by (rule instance_kept_same)
qed

lemma delete_keeps:
  assumes "hub_api c view" "consistent cfg (view s)" "DeleteCluster c cfg i s = (r, s')" "i \<noteq> iid"
  shows "instance_kept cfg iid (view s) (view s')"
proof (cases r)
  case (Some e)
  have "distinct (map np_key (hub_nps (view s)))" using assms(2) by (simp add: consistent_def)
  from delete_on_hub[OF assms(1) this assms(3) refl refl] have "hub_hcs (view s') = hub_hcs (view s)"
    by (simp add: Some)
  then show ?thesis by (intro instance_kept_same) simp
next
  case None
  let ?mine = "has_instance (cc_ClusterNamespace cfg) iid" and ?his = "has_instance (cc_ClusterNamespace cfg) i"
  have "filter (\<lambda>x. \<not> ?his x) (hub_hcs (view s')) = filter (\<lambda>x. \<not> ?his x) (hub_hcs (view s))"
    using deleted_consistent[OF assms(1,2) assms(3)[unfolded None]] by (simp add: deleted_from_def Let_def)
  then have "filter ?mine (filter (\<lambda>x. \<not> ?his x) (hub_hcs (view s'))) = filter ?mine (filter (\<lambda>x. \<not> ?his x) (hub_hcs (view s)))"
    by simp
  moreover have "filter ?mine (filter (\<lambda>x. \<not> ?his x) xs) = filter ?mine xs" for xs
    using one_instance assms(4) by (auto simp: filter_filter intro!: filter_cong)
  ultimately show ?thesis by (intro instance_kept_same) simp
qed

lemma other_step_keeps:
  assumes "hub_api c view" "other_step c view cfg qa enabled iid s s'" "consistent cfg (view s)"
  shows "instance_kept cfg iid (view s) (view s')"
  using assms(2)
proof cases
  case other_create
  then show ?thesis using create_keeps[OF assms(1)] by (simp add: dispatcher_methods)
next
  case other_get
  then show ?thesis using get_view[OF assms(1)] by (simp add: dispatcher_methods)
next
  case other_list
  then show ?thesis using list_view[OF assms(1)] by (simp add: dispatcher_methods)
next
  case other_delete
  then show ?thesis using delete_keeps[OF assms(1,3)] by (simp add: dispatcher_methods)
qed

lemma others_keep:
  assumes "hub_api c view" "rtranclp (other_step c view cfg qa enabled iid) s s'" "consistent cfg (view s)"
  shows "consistent cfg (view s') \<and> instance_kept cfg iid (view s) (view s')"
  using assms(2)
proof (induction rule: rtranclp_induct)
  case (step y z)
  then show ?case
    using other_step_keeps[OF assms(1) step.hyps(2)] service_step_consistent[OF assms(1) other_is_service_step[OF step.hyps(2)]]
    by (blast intro: instance_kept_trans)
qed (simp add: assms(3))

subsection \<open>From a creation to its deletion\<close>

text \<open>The calls of the handlers, on any hub that behaves as documented, with others in between.\<close>

lemma handler_lifecycle:
  assumes "hub_api c view" "consistent cfg (view s)" "svc = dispatcher_service c cfg qa enabled now" "iid \<noteq> []"
    and "handler_CreateCluster svc uuid (Some iid) body s = (a, s1)" "fst (create_status a) = 201"
    and "rtranclp (other_step c view cfg qa enabled iid) s1 t1"
    and "handler_GetCluster svc iid t1 = (b, s2)" "fst (get_status b) \<noteq> 500"
    and "rtranclp (other_step c view cfg qa enabled iid) s2 t2"
    and "handler_DeleteCluster svc iid t2 = (d, s3)" "fst (delete_status d) = 204"
    and "rtranclp (other_step c view cfg qa enabled iid) s3 t3"
    and "handler_GetCluster svc iid t3 = (e, s4)" "fst (get_status e) \<noteq> 500"
  shows "(\<exists>made. a = CreateCluster201 made \<and> create_ok cfg now iid body (view s) made (view s1))
    \<and> (\<exists>got. b = GetCluster200 got \<and> cl_Id got = Some iid
         \<and> cm_Name (cs_Metadata (cl_Spec got)) = cm_Name (cs_Metadata (cl_Spec body))
         \<and> (version_readable cfg body \<longrightarrow> cs_Version (cl_Spec got) = cs_Version (cl_Spec body)))
    \<and> view s2 = view t1 \<and> d = DeleteCluster204 \<and> deleted_from cfg iid (view t2) (view s3) \<and> view s4 = view t3
    \<and> ((\<exists>err. e = GetCluster404 err)
       \<or> (\<exists>cl. e = GetCluster200 cl \<and> cl_Id cl = Some iid \<and> cl_Status cl = Some ''DELETING''))"
proof -
  note others = others_keep[OF assms(1)]
  obtain made where made: "a = CreateCluster201 made"
      "dispatcher_Create c cfg qa (dispatcher_New enabled) now iid body s = (Inr made, s1)"
    using created_by_service[OF assms(5,6,4)] by (auto simp: assms(3) dispatcher_methods)
  have ok: "create_ok cfg now iid body (view s) made (view s1)" using create_on_hub[OF assms(1) made(2)] by simp
  have t1: "consistent cfg (view t1)" "instance_kept cfg iid (view s1) (view t1)"
    using others[OF assms(7) create_consistent[OF assms(1,2) made(2)]] by simp_all
  obtain r where r: "GetCluster c cfg iid t1 = (r, s2)" "b = (case r of Inl e \<Rightarrow> mapGetError e | Inr cl \<Rightarrow> GetCluster200 cl)"
      "\<And>e. r = Inl e \<Longrightarrow> domain_type e \<noteq> Some ErrorTypeINTERNAL"
    using read_by_service[OF assms(8,9)] by (auto simp: assms(3) dispatcher_methods)
  have v2: "view s2 = view t1" by (rule get_view[OF assms(1) r(1)])
  have t2: "consistent cfg (view t2)" using others[OF assms(10)] v2 t1(1) by simp
  have del: "d = DeleteCluster204" "DeleteCluster c cfg iid t2 = (None, s3)"
    using deleted_by_service[OF assms(11,12)] by (simp_all add: assms(3) dispatcher_methods)
  have gone: "deleted_from cfg iid (view t2) (view s3)" by (rule deleted_consistent[OF assms(1) t2 del(2)])
  have "all_marked cfg iid (view t3)"
    using others[OF assms(13) delete_consistent[OF assms(1) t2 del(2)]] all_marked_kept[OF deleted_all_marked[OF gone]] by blast
  note marked = read_marked[OF assms(1) this]
  obtain q where q: "GetCluster c cfg iid t3 = (q, s4)" "e = (case q of Inl e \<Rightarrow> mapGetError e | Inr cl \<Rightarrow> GetCluster200 cl)"
      "\<And>e. q = Inl e \<Longrightarrow> domain_type e \<noteq> Some ErrorTypeINTERNAL"
    using read_by_service[OF assms(14,15)] by (auto simp: assms(3) dispatcher_methods)
  show ?thesis
    using made(1) ok r(2) created_is_read[OF assms(1) ok t1(2) r(1,3)] v2 del(1) gone get_view[OF assms(1) q(1)]
      marked[OF q(1,3)] q(2) mapGetError_not_found
    by auto
qed

text \<open>
  C2: the life of a cluster over HTTP.  A caller of the generated client creates a cluster under an id
  of its own (201), reads it, deletes it (204) and reads it again.  In between the controllers run,
  leaving the instance, its release image and its deletion alone, and requests for other clusters are
  served, in any number and order.  The first read shows the cluster that was ordered, by id and name,
  and by version when the request has no release image hint and the configured matrix is not empty,
  injective and without an empty key; the second is not-found or a cluster being deleted.  The creation
  adds exactly its two resources, the reads change nothing, and the delete marks or removes what belongs
  to the instance and nothing else.  Assumed are: an id that is neither empty nor \<open>health\<close>, requests the
  validator lets through, a well-typed body and answers whose texts are valid UTF-8, reads that do
  not fail with 500, a hub that starts consistent, and the documented behaviour of the router, of the
  parameter runtime and of the client's URL and JSON libraries.
\<close>

theorem lifecycle_over_http:
  assumes "library_laws lib server base" "chi_like (ev_mux env)" "query_laws (ev_binder env)" "plain_paths (ev_binder env)"
    and "clean_cluster (ev_fnum env) body" "enc_Cluster body = Some j" "params = \<lparr>crp_Id = Some iid\<rparr>"
    and "passes router ''POST'' clusters_path (Values_Encode (create_values params)) (Some (print_json j))"
      "passes router ''GET'' (cluster_path iid) [] None" "passes router ''DELETE'' (cluster_path iid) [] None"
    and "svc = dispatcher_service c cfg qa enabled now"
      "client = plain_client (serve_doer st router (api_routes env (handler_ssi svc uuid check))) server"
    and "hub_api c view" "consistent cfg (view s)" "iid \<noteq> []" "iid \<noteq> ''health''"
    and "clean_create (float_text lib) (fst (handler_CreateCluster svc uuid (Some iid) body s))"
      "clean_get (float_text lib) (fst (handler_GetCluster svc iid t1))"
      "clean_delete (fst (handler_DeleteCluster svc iid t2))"
      "clean_get (float_text lib) (fst (handler_GetCluster svc iid t3))"
    and "CreateClusterWithResponse lib client (Some params) body [] s = (Returns (Inr r1), s1)"
      "CreateClusterResponse_StatusCode r1 = 201"
    and "rtranclp (other_step c view cfg qa enabled iid) s1 t1"
    and "GetClusterWithResponse lib client iid [] t1 = (Returns (Inr r2), s2)" "GetClusterResponse_StatusCode r2 \<noteq> 500"
    and "rtranclp (other_step c view cfg qa enabled iid) s2 t2"
    and "DeleteClusterWithResponse lib client iid [] t2 = (Returns (Inr r3), s3)"
      "DeleteClusterResponse_StatusCode r3 = 204"
    and "rtranclp (other_step c view cfg qa enabled iid) s3 t3"
    and "GetClusterWithResponse lib client iid [] t3 = (Returns (Inr r4), s4)" "GetClusterResponse_StatusCode r4 \<noteq> 500"
  shows "(\<exists>made. seen_create r1 = Some (CreateCluster201 made) \<and> create_ok cfg now iid body (view s) made (view s1))
    \<and> (\<exists>got. seen_get r2 = Some (GetCluster200 got) \<and> cl_Id got = Some iid
         \<and> cm_Name (cs_Metadata (cl_Spec got)) = cm_Name (cs_Metadata (cl_Spec body))
         \<and> (version_readable cfg body \<longrightarrow> cs_Version (cl_Spec got) = cs_Version (cl_Spec body)))
    \<and> view s2 = view t1 \<and> seen_delete r3 = Some DeleteCluster204
    \<and> deleted_from cfg iid (view t2) (view s3) \<and> view s4 = view t3
    \<and> ((\<exists>err. seen_get r4 = Some (GetCluster404 err))
       \<or> (\<exists>cl. seen_get r4 = Some (GetCluster200 cl) \<and> cl_Id cl = Some iid \<and> cl_Status cl = Some ''DELETING''))"
proof -
  have "clean_create (float_text lib) a \<Longrightarrow> handler_CreateCluster svc uuid (Some iid) body s = (a, t) \<Longrightarrow>
      t = s1 \<and> seen_create r1 = Some a \<and> fst (create_status a) = 201" for a t
    using client_create_run[OF assms(1-3,5,6,8,12), of s a t] assms(21,22) by (auto simp: assms(7))
  then obtain a where a: "handler_CreateCluster svc uuid (Some iid) body s = (a, s1)" "seen_create r1 = Some a"
      "fst (create_status a) = 201"
    using assms(17) by (metis prod.collapse)
  have iid: "clientIDRe iid" using created_by_service[OF a(1,3) assms(15)] by blast
  note get = client_get_run[OF assms(1,2,4) iid assms(16,9,12)]
  have "handler_GetCluster svc iid t1 = (b, t) \<Longrightarrow> t = s2 \<and> seen_get r2 = Some b \<and> fst (get_status b) \<noteq> 500" for b t
    using get[of t1 b t] assms(18,24,25) by auto
  then obtain b where b: "handler_GetCluster svc iid t1 = (b, s2)" "seen_get r2 = Some b" "fst (get_status b) \<noteq> 500"
    by (metis prod.collapse)
  have "handler_DeleteCluster svc iid t2 = (d, t) \<Longrightarrow> t = s3 \<and> seen_delete r3 = Some d \<and> fst (delete_status d) = 204" for d t
    using client_delete_run[OF assms(1,2,4) iid assms(10,12), of t2 d t] assms(19,27,28) by auto
  then obtain d where d: "handler_DeleteCluster svc iid t2 = (d, s3)" "seen_delete r3 = Some d" "fst (delete_status d) = 204"
    by (metis prod.collapse)
  have "handler_GetCluster svc iid t3 = (e, t) \<Longrightarrow> t = s4 \<and> seen_get r4 = Some e \<and> fst (get_status e) \<noteq> 500" for e t
    using get[of t3 e t] assms(20,30,31) by auto
  then obtain e where e: "handler_GetCluster svc iid t3 = (e, s4)" "seen_get r4 = Some e" "fst (get_status e) \<noteq> 500"
    by (metis prod.collapse)
  show ?thesis
    unfolding a(2) b(2) d(2) e(2) option.inject
    by (rule handler_lifecycle[OF assms(13,14,11,15) a(1,3) assms(23) b(1,3) assms(26) d(1,3) assms(29) e(1,3)])
qed

subsection \<open>A life on the sample hub\<close>

lemma digit_seven: "digit_char 7 = CHR ''7''" by code_simp

lemma sample_times:
  "format_time 1 = Some ''0001-01-01T00:00:00.000000001Z''" "format_time 7 = Some ''0001-01-01T00:00:00.000000007Z''"
  by (simp_all add: format_time_def year_day_def month_lengths_def is_leap_def day_ns_def second_ns_def two_digits_def
      four_digits_def fraction_def nine_digits_def trim_zeros_def digit_seven digit_chars digit_chars[unfolded One_nat_def] upt_rec Let_def)

lemma built_fields: "hc_Name built_hc = ''demo''" "hc_Namespace built_hc = ''clusters''" "hc_Labels built_hc = DCMLabels ''id-9''"
  "hc_ReleaseImage built_hc = ''quay.io/ocp-release:4.17.3-multi''" "hc_Conditions built_hc = []"
  by (simp_all add: built_hc_def applyControlPlaneResourceOverrides_def kubevirt_BuildHostedCluster_def sized_req_def Let_def)

definition read_cluster_9 :: Cluster where
  "read_cluster_9 = zero_Cluster\<lparr>cl_CreateTime := Some 7, cl_UpdateTime := Some 7, cl_Id := Some ''id-9'',
     cl_Path := Some ''clusters/id-9'', cl_Status := Some ''PENDING'',
     cl_Spec := zero_ClusterSpec\<lparr>cs_Metadata := \<lparr>cm_Labels = None, cm_Name = ''demo''\<rparr>, cs_ServiceType := ''cluster'', cs_Version := ''1.30''\<rparr>\<rparr>"

lemma built_instance: "has_instance ''clusters'' ''id-9'' (mem_hc built_hc)"
  by (simp add: has_instance_def mem_hc_def built_fields)

lemma built_find: "findByInstanceID mem_client ''clusters'' ''id-9'' hub_created = (Inr (mem_hc built_hc), hub_created)"
  using built_instance by (simp add: findByInstanceID_def mem_client_def hub_created_def matches_instance)

lemma built_read: "GetCluster mem_client sample_cfg ''id-9'' hub_created = (Inr read_cluster_9, hub_created)"
proof -
  have "ReleaseImageToK8sVersion ''quay.io/ocp-release:4.17.3-multi'' (cc_VersionMatrix sample_cfg) = ''1.30''"
    by (simp add: ReleaseImageToK8sVersion_def sample_extract sample_settings) (simp add: DefaultCompatibilityMatrix_def)
  moreover have "map_get (DCMLabels ''id-9'') LabelInstanceID = ''id-9''" by (simp add: map_get_def)
  ultimately show ?thesis
    using built_find
    by (simp add: GetCluster_def HostedClusterToCluster_def Let_def mem_hc_def built_fields MapConditionsToStatus_def
      read_cluster_9_def zero_Cluster_def zero_ClusterSpec_def ClusterSpecServiceTypeCluster_def)
qed

lemma built_delete: "DeleteCluster mem_client sample_cfg ''id-9'' hub_created = (None, sample_hub)"
proof -
  have "np_matches ''clusters'' [(LabelInstanceID, ''id-9'')] (mem_np built_np)"
    by (simp add: np_matches_def selects_def mem_np_def built_np_def kubevirt_np_fields) (simp add: kubevirt_BuildNodePool_def Let_def split: option.split)
  then show ?thesis
    using built_find by (simp add: DeleteCluster_def deleteNodePools_def mem_client_def hub_created_def mem_hc_def built_fields sample_hub_def)
qed

abbreviation sample_params :: CreateClusterParams where
  "sample_params \<equiv> \<lparr>crp_Id = Some ''id-9''\<rparr>"

lemma sized_json: "\<exists>j. enc_Cluster sized_req = Some j"
  by (simp add: enc_Cluster_def sized_req_def time_entry_def)

lemma int_text: "FormatInt 2 = ''2''" "FormatInt 3 = ''3''" "FormatInt 4 = ''4''" "FormatInt 8 = ''8''"
  by code_simp+

lemma sample_clean:
  "clean_cluster fnum sized_req" "clean_cluster fnum made_cluster" "clean_cluster fnum read_cluster_9"
proof -
  note wf = wf_Cluster_def wf_ClusterSpec_def wf_ClusterMetadata_def wf_ClusterNodes_def wf_WorkerSpec_def
    wf_ControlPlaneSpec_def in_int64_def
  note enc = printable_def enc_Cluster_def time_entry_def sample_times enc_ClusterSpec_def ptr_entry_def
    enc_ClusterMetadata_def enc_ClusterNodes_def enc_WorkerSpec_def enc_ControlPlaneSpec_def enc_int_def
    maxNestingDepth_def valid_ascii byte_val_def
  show "clean_cluster fnum sized_req" by (simp add: clean_cluster_def sized_req_def wf enc)
  show "clean_cluster fnum made_cluster" by (simp add: clean_cluster_def made_cluster_def sized_req_def wf enc)
  show "clean_cluster fnum read_cluster_9"
    by (simp add: clean_cluster_def read_cluster_9_def zero_Cluster_def zero_ClusterSpec_def wf enc)
qed

definition missing_9 :: Error where
  "missing_9 = missing\<lparr>er_Detail := Some ''cluster id-9 not found''\<rparr>"

lemma clean_missing_9: "clean_error missing_9"
  by (rule clean_errorI) (simp_all add: missing_9_def missing_def known_types_def valid_ascii byte_val_def to_int32_def)

lemma sample_handlers:
  "handler_CreateCluster sample_service ''u-1'' (Some ''id-9'') sized_req sample_hub = (CreateCluster201 made_cluster, hub_created)"
  "handler_GetCluster sample_service ''id-9'' hub_created = (GetCluster200 read_cluster_9, hub_created)"
  "handler_DeleteCluster sample_service ''id-9'' hub_created = (DeleteCluster204, sample_hub)"
  "handler_GetCluster sample_service ''id-9'' sample_hub = (GetCluster404 missing_9, sample_hub)"
proof -
  have ok: "marshalable sized_req" "marshalable made_cluster" "marshalable read_cluster_9"
    by (simp_all add: marshalable_def json_time_def made_cluster_def read_cluster_9_def sized_req_def zero_Cluster_def)
  show "handler_CreateCluster sample_service ''u-1'' (Some ''id-9'') sized_req sample_hub = (CreateCluster201 made_cluster, hub_created)"
    using sized_valid built_run ok
    by (simp add: handler_CreateCluster_def validateClientID_def clientIDRe_def is_lower_def is_digit_def digit_val_def
        toServiceCluster_def toAPICluster_def dispatcher_methods)
  show "handler_GetCluster sample_service ''id-9'' hub_created = (GetCluster200 read_cluster_9, hub_created)"
    by (simp add: handler_GetCluster_def dispatcher_methods built_read toAPICluster_def ok)
  show "handler_DeleteCluster sample_service ''id-9'' hub_created = (DeleteCluster204, sample_hub)"
    by (simp add: handler_DeleteCluster_def dispatcher_methods built_delete)
  have "domainErrorObject (NewNotFoundError ''cluster id-9 not found'') = (missing_9, 404)"
    by (simp add: domainErrorObject_def MapDomainError_def NewNotFoundError_def missing_9_def missing_def buildErrorResponse_def
        to_int32_def Let_def)
  then show "handler_GetCluster sample_service ''id-9'' sample_hub = (GetCluster404 missing_9, sample_hub)"
    by (simp add: handler_GetCluster_def dispatcher_methods GetCluster_def sample_find mapGetError_def)
qed

theorem lifecycle_over_http_witness:
  "\<exists>r1 r2 r3 r4 s1 s2 s3 s4.
     CreateClusterWithResponse simple_lib sample_client (Some sample_params) sized_req [] sample_hub = (Returns (Inr r1), s1)
     \<and> GetClusterWithResponse simple_lib sample_client ''id-9'' [] s1 = (Returns (Inr r2), s2)
     \<and> DeleteClusterWithResponse simple_lib sample_client ''id-9'' [] s2 = (Returns (Inr r3), s3)
     \<and> GetClusterWithResponse simple_lib sample_client ''id-9'' [] s3 = (Returns (Inr r4), s4)
     \<and> deleted_from sample_cfg ''id-9'' s2 s3 \<and> seen_delete r3 = Some DeleteCluster204"
proof -
  obtain j where j: "enc_Cluster sized_req = Some j" using sized_json by blast
  have iid: "clientIDRe ''id-9''" by (simp add: clientIDRe_def is_lower_def is_digit_def digit_val_def)
  have c1: "clean_create (float_text simple_lib) (fst (handler_CreateCluster sample_service ''u-1'' (Some ''id-9'') sized_req sample_hub))"
    and c2: "clean_get (float_text simple_lib) (fst (handler_GetCluster sample_service ''id-9'' hub_created))"
    and c3: "clean_delete (fst (handler_DeleteCluster sample_service ''id-9'' hub_created))"
    and c4: "clean_get (float_text simple_lib) (fst (handler_GetCluster sample_service ''id-9'' sample_hub))"
    by (simp_all add: sample_handlers sample_clean clean_missing_9)
  obtain r1 where r1: "CreateClusterWithResponse simple_lib sample_client (Some sample_params) sized_req [] sample_hub =
      (Returns (Inr r1), hub_created)" "CreateClusterResponse_StatusCode r1 = 201"
    using client_create_run[OF simple_lib_laws query_env_laws(1,2) sample_clean(1) j open_passes sample_client_def, of sample_params
        sample_hub, unfolded CreateClusterParams.select_convs, OF sample_handlers(1)] c1 sample_handlers(1) by auto
  note get = client_get_run[OF simple_lib_laws query_env_laws(1,3) iid _ open_passes sample_client_def]
  obtain r2 where r2: "GetClusterWithResponse simple_lib sample_client ''id-9'' [] hub_created = (Returns (Inr r2), hub_created)"
      "GetClusterResponse_StatusCode r2 = 200"
    using get[OF _ sample_handlers(2)] c2 sample_handlers(2) by auto
  obtain r3 where r3: "DeleteClusterWithResponse simple_lib sample_client ''id-9'' [] hub_created = (Returns (Inr r3), sample_hub)"
      "DeleteClusterResponse_StatusCode r3 = 204"
    using client_delete_run[OF simple_lib_laws query_env_laws(1,3) iid open_passes sample_client_def sample_handlers(3)] by auto
  obtain r4 where r4: "GetClusterWithResponse simple_lib sample_client ''id-9'' [] sample_hub = (Returns (Inr r4), sample_hub)"
      "GetClusterResponse_StatusCode r4 = 404"
    using get[OF _ sample_handlers(4)] c4 sample_handlers(4) by auto
  have "consistent sample_cfg (id sample_hub)" by (simp add: consistent_def sample_hub_def)
  note life = lifecycle_over_http[OF simple_lib_laws query_env_laws sample_clean(1) j refl open_passes open_passes open_passes
      refl sample_client_def mem_hub_api this _ _ c1 c2 c3 c4 r1 rtranclp.rtrancl_refl r2(1) _
      rtranclp.rtrancl_refl r3 rtranclp.rtrancl_refl r4(1)]
  have "deleted_from sample_cfg ''id-9'' hub_created sample_hub" "seen_delete r3 = Some DeleteCluster204"
    using life r2(2) r4(2) by simp_all
  then show ?thesis using r1(1) r2(1) r3(1) r4(1) by (intro exI conjI)
qed
end
