(* ===== verification/PullSecret.thy ===== *)
theory PullSecret
  imports Hub MemHub Base64
begin

text \<open>
  \<open>EnsurePullSecret\<close> of \<open>internal/cluster/pullsecret.go\<close>.  Parsing the decoded text as JSON, and the
  position an invalid base64 text is reported at, are parameters; the parser gives the entries of
  \<open>auths\<close>, none when the key is missing.  The promises of the API about secrets are stated here, as
  nothing else in the development writes any.
\<close>

definition se_key :: "Secret \<Rightarrow> string \<times> string" where
  "se_key x = (se_Namespace x, se_Name x)"

definition SecretTypeDockerConfigJson :: string where
  "SecretTypeDockerConfigJson = ''kubernetes.io/dockerconfigjson''"

definition pull_labels :: str_map where
  "pull_labels = [LabelManagedBy \<mapsto> ValueManagedBy, LabelServiceType \<mapsto> ValueServiceType]"

definition pull_secret :: "ClusterConfig \<Rightarrow> string \<Rightarrow> Secret" where
  "pull_secret cfg decoded =
     \<lparr>se_Name = cc_PullSecretName cfg, se_Namespace = cc_ClusterNamespace cfg, se_Labels = pull_labels,
      se_Data = [''.dockerconfigjson'' \<mapsto> decoded], se_Type = SecretTypeDockerConfigJson\<rparr>"

text \<open>The data are replaced, the labels are set one by one; the type is only looked at for a log line.\<close>

definition refreshed :: "Secret \<Rightarrow> Secret \<Rightarrow> Secret" where
  "refreshed secret existing =
     existing\<lparr>se_Data := se_Data secret, se_Labels := se_Labels existing ++ pull_labels\<rparr>"

definition EnsurePullSecret ::
  "('s, 'q) k8s_client \<Rightarrow> (string \<Rightarrow> go_error) \<Rightarrow> (string \<Rightarrow> go_error + (string \<times> json) list) \<Rightarrow>
   ClusterConfig \<Rightarrow> 's \<Rightarrow> go_error option \<times> 's" where
  "EnsurePullSecret c CorruptInput Unmarshal cfg s =
     (case DecodeString (cc_PullSecret cfg) of
        None \<Rightarrow>
          let err = CorruptInput (cc_PullSecret cfg)
          in (Some (Wrapped (''decoding SP_PULL_SECRET: '' @ error_text err) err), s)
      | Some decoded \<Rightarrow>
      (case Unmarshal decoded of
        Inl err \<Rightarrow>
          (Some (Wrapped (''parsing SP_PULL_SECRET as .dockerconfigjson: '' @ error_text err) err), s)
      | Inr auths \<Rightarrow>
          if length auths = 0
          then (Some (PlainError ''SP_PULL_SECRET .dockerconfigjson is missing required 'auths' entries''), s)
          else let secret = pull_secret cfg decoded in
          (case CreateSecret c secret s of
             (None, s1) \<Rightarrow> (None, s1)
           | (Some err, s1) \<Rightarrow>
               if \<not> IsAlreadyExists err
               then (Some (Wrapped (''creating pull secret: '' @ k8s_error_text err) (K8sError err)), s1)
               else (case GetSecret c (se_Namespace secret) (se_Name secret) s1 of
                 (Inl err, s2) \<Rightarrow>
                   (Some (Wrapped (''getting existing pull secret: '' @ k8s_error_text err) (K8sError err)), s2)
               | (Inr existing, s2) \<Rightarrow>
                   (case UpdateSecret c (refreshed secret existing) s2 of
                      (Some err, s3) \<Rightarrow>
                        (Some (Wrapped (''updating pull secret: '' @ k8s_error_text err) (K8sError err)), s3)
                    | (None, s3) \<Rightarrow> (None, s3))))))"

subsection \<open>What the API promises about secrets\<close>

definition api_secrets :: "('s, 'q) k8s_client \<Rightarrow> ('s \<Rightarrow> 'q hub) \<Rightarrow> bool" where
  "api_secrets c view \<longleftrightarrow>
     (\<forall>x s s'. CreateSecret c x s = (None, s') \<longrightarrow>
        se_key x \<notin> se_key ` set (hub_secrets (view s))
        \<and> view s' = (view s)\<lparr>hub_secrets := x # hub_secrets (view s)\<rparr>)
     \<and> (\<forall>x s e s'. CreateSecret c x s = (Some e, s') \<longrightarrow> view s' = view s)
     \<and> (\<forall>ns n s x s'. GetSecret c ns n s = (Inr x, s') \<longrightarrow>
        x \<in> set (hub_secrets (view s)) \<and> se_key x = (ns, n))
     \<and> (\<forall>x s s'. UpdateSecret c x s = (None, s') \<longrightarrow>
        view s' = (view s)\<lparr>hub_secrets := map (\<lambda>y. if se_key y = se_key x then x else y) (hub_secrets (view s))\<rparr>)
     \<and> (\<forall>x s e s'. UpdateSecret c x s = (Some e, s') \<longrightarrow> view s' = view s)"

lemma api_secretsD:
  assumes "api_secrets c view"
  shows "CreateSecret c x s = (None, s') \<Longrightarrow> se_key x \<notin> se_key ` set (hub_secrets (view s))"
    "CreateSecret c x s = (None, s') \<Longrightarrow> view s' = (view s)\<lparr>hub_secrets := x # hub_secrets (view s)\<rparr>"
    "CreateSecret c x s = (Some e, s') \<Longrightarrow> view s' = view s"
    "GetSecret c ns n s = (Inr y, s') \<Longrightarrow> y \<in> set (hub_secrets (view s)) \<and> se_key y = (ns, n)"
    "UpdateSecret c x s = (None, s') \<Longrightarrow>
       view s' = (view s)\<lparr>hub_secrets := map (\<lambda>y. if se_key y = se_key x then x else y) (hub_secrets (view s))\<rparr>"
    "UpdateSecret c x s = (Some e, s') \<Longrightarrow> view s' = view s"
  using assms unfolding api_secrets_def by blast+

subsection \<open>The effect\<close>

text \<open>The secrets of the hub afterwards.\<close>

definition ensured :: "ClusterConfig \<Rightarrow> string \<Rightarrow> Secret list \<Rightarrow> Secret list" where
  "ensured cfg decoded xs =
     (let secret = pull_secret cfg decoded in
      if list_ex (\<lambda>x. se_key x = se_key secret) xs
      then map (\<lambda>x. if se_key x = se_key secret then refreshed secret x else x) xs
      else secret # xs)"

lemma refreshed_key [simp]: "se_key (refreshed x y) = se_key y"
  by (simp add: refreshed_def se_key_def)

lemma same_key_same:
  "distinct (map f xs) \<Longrightarrow> x \<in> set xs \<Longrightarrow> y \<in> set xs \<Longrightarrow> f x = f y \<Longrightarrow> x = y"
  by (auto simp: distinct_map inj_on_def)

lemma ensured_present:
  assumes "distinct (map se_key xs)" "y \<in> set xs" "se_key y = se_key (pull_secret cfg d)"
  shows "ensured cfg d xs =
    map (\<lambda>x. if se_key x = se_key (refreshed (pull_secret cfg d) y) then refreshed (pull_secret cfg d) y else x) xs"
proof -
  have "list_ex (\<lambda>x. se_key x = se_key (pull_secret cfg d)) xs" using assms(2,3) by (auto simp: list_ex_iff)
  moreover have "x = y" if "x \<in> set xs" "se_key x = se_key (pull_secret cfg d)" for x
    using that assms by (auto intro: same_key_same[of se_key xs])
  ultimately show ?thesis using assms(3) by (auto simp: ensured_def Let_def)
qed

lemma ensured_absent: "se_key (pull_secret cfg d) \<notin> se_key ` set xs \<Longrightarrow> ensured cfg d xs = pull_secret cfg d # xs"
  by (simp add: ensured_def Let_def list_ex_iff) (metis image_eqI)

lemma ensure_effect:
  assumes "hub_api c view" "api_secrets c view" "distinct (map se_key (hub_secrets (view s)))"
    and input: "DecodeString (cc_PullSecret cfg) = Some decoded" "Unmarshal decoded = Inr auths" "auths \<noteq> []"
    and run: "EnsurePullSecret c CorruptInput Unmarshal cfg s = (None, s')"
  shows "view s' = (view s)\<lparr>hub_secrets := ensured cfg decoded (hub_secrets (view s))\<rparr>"
proof -
  let ?x = "pull_secret cfg decoded"
  note secretD = api_secretsD[OF assms(2)]
  obtain e s1 where create: "CreateSecret c ?x s = (e, s1)" by (cases "CreateSecret c ?x s")
  show ?thesis
  proof (cases e)
    case None
    have "s' = s1" using run input create None by (simp add: EnsurePullSecret_def Let_def)
    with create None show ?thesis
      using secretD(1,2)[of ?x s s1] by (simp add: ensured_absent)
  next
    case (Some err)
    from run input create Some obtain y s2 where
      get: "GetSecret c (se_Namespace ?x) (se_Name ?x) s1 = (Inr y, s2)"
      and update: "UpdateSecret c (refreshed ?x y) s2 = (None, s')"
      by (auto simp: EnsurePullSecret_def Let_def split: if_splits sum.splits prod.splits option.splits)
    have same: "view s1 = view s" "view s2 = view s1"
      using create Some secretD(3) read_view(4)[OF assms(1) get] by auto
    have y: "y \<in> set (hub_secrets (view s))" "se_key y = se_key ?x"
      using secretD(4)[OF get] same by (auto simp: se_key_def)
    show ?thesis
      using secretD(5)[OF update] same ensured_present[OF assms(3) y] by simp
  qed
qed

text \<open>
  C31: when the provider's pull secret is set up at start, the hub has the decoded credentials under
  the configured name, with the two DCM labels: a new secret, or the existing one with its data
  replaced and its other labels and its type kept; no other object changes.  It needs valid base64
  holding JSON with at least one registry, otherwise the hub is not even called; and after any
  error the hub is as it was.
\<close>

theorem ensure_pull_secret:
  assumes "hub_api c view" "api_secrets c view" "distinct (map se_key (hub_secrets (view s)))"
  shows "(case EnsurePullSecret c CorruptInput Unmarshal cfg s of
      (Some err, s') \<Rightarrow> view s' = view s
    | (None, s') \<Rightarrow> \<exists>decoded auths.
        DecodeString (cc_PullSecret cfg) = Some decoded \<and> Unmarshal decoded = Inr auths \<and> auths \<noteq> []
        \<and> view s' = (view s)\<lparr>hub_secrets := ensured cfg decoded (hub_secrets (view s))\<rparr>)
    \<and> ((case DecodeString (cc_PullSecret cfg) of None \<Rightarrow> True
         | Some decoded \<Rightarrow> (case Unmarshal decoded of Inl err \<Rightarrow> True | Inr auths \<Rightarrow> auths = []))
        \<longrightarrow> (\<exists>err. EnsurePullSecret c CorruptInput Unmarshal cfg s = (Some err, s)))"
    (is "?effect \<and> ?refused")
proof
  show ?refused
    by (auto simp: EnsurePullSecret_def Let_def split: option.splits sum.splits)
  show ?effect
  proof (cases "EnsurePullSecret c CorruptInput Unmarshal cfg s")
    case (Pair result s')
    note secretD = api_secretsD[OF assms(2)] and getD = read_view(4)[OF assms(1)]
    show ?thesis
    proof (cases result)
      case (Some err)
      then show ?thesis
        using Pair secretD(3,6) getD
        by (auto simp: EnsurePullSecret_def Let_def split: option.splits sum.splits prod.splits if_splits)
    next
      case None
      with Pair obtain decoded auths where input: "DecodeString (cc_PullSecret cfg) = Some decoded"
        "Unmarshal decoded = Inr auths" "auths \<noteq> []"
        by (auto simp: EnsurePullSecret_def Let_def split: option.splits sum.splits if_splits)
      let ?x = "pull_secret cfg decoded"
      have "view s' = (view s)\<lparr>hub_secrets := ensured cfg decoded (hub_secrets (view s))\<rparr>"
        by (rule ensure_effect[of c view s cfg decoded Unmarshal auths CorruptInput])
          (use assms input Pair None in simp_all)
      then show ?thesis using Pair None input by auto
    qed
  qed
qed


lemma mem_api_secrets: "api_secrets mem_client id"
  by (auto simp: api_secrets_def mem_client_def se_key_def list_ex_iff find_None_iff
      split: option.splits if_splits dest!: find_map_Some)

definition pull_config :: ClusterConfig where
  "pull_config = \<lparr>cc_ClusterNamespace = ''clusters'', cc_BaseDomain = [], cc_PullSecret = EncodeToString ''{auths}'',
     cc_PullSecretName = ''acm-pull-secret'', cc_ConsoleURIPattern = [], cc_VersionMatrixPath = [],
     cc_DefaultInfraEnv = [], cc_AgentNamespace = [], cc_InfraEnvLabelKey = [], cc_VersionMatrix = []\<rparr>"

lemma pull_config_decoded: "DecodeString (cc_PullSecret pull_config) = Some ''{auths}''"
  by (simp add: pull_config_def Decode_Encode del: EncodeToString.simps)

definition old_secret :: Secret where
  "old_secret = \<lparr>se_Name = ''acm-pull-secret'', se_Namespace = ''clusters'', se_Labels = [''team'' \<mapsto> ''a''],
     se_Data = [''.dockerconfigjson'' \<mapsto> ''old''], se_Type = ''Opaque''\<rparr>"

definition hub_with_secret :: "nat hub" where
  "hub_with_secret = \<lparr>hub_hcs = [], hub_nps = [], hub_images = [], hub_secrets = [old_secret]\<rparr>"

theorem ensure_pull_secret_witness:
  "\<exists>x s'. EnsurePullSecret mem_client PlainError (\<lambda>_. Inr [(''quay.io'', JNull)]) pull_config hub_with_secret = (None, s')
     \<and> hub_secrets s' = [x] \<and> se_Data x = [''.dockerconfigjson'' \<mapsto> ''{auths}''] \<and> se_Type x = ''Opaque''
     \<and> se_Labels x ''team'' = Some ''a'' \<and> se_Labels x LabelManagedBy = Some ValueManagedBy"
proof -
  let ?run = "EnsurePullSecret mem_client PlainError (\<lambda>_. Inr [(''quay.io'', JNull)]) pull_config hub_with_secret"
  have "\<exists>s'. ?run = (None, s')"
    by (simp add: EnsurePullSecret_def Let_def pull_config_decoded)
      (simp add: mem_client_def hub_with_secret_def pull_secret_def pull_config_def old_secret_def
        del: EncodeToString.simps)
  then obtain s' where run: "?run = (None, s')" by blast
  have "distinct (map se_key (hub_secrets (id hub_with_secret)))" by (simp add: hub_with_secret_def)
  from ensure_pull_secret[OF mem_hub_api mem_api_secrets this, where CorruptInput = PlainError
      and Unmarshal = "\<lambda>_. Inr [(''quay.io'', JNull)]" and cfg = pull_config]
  have "hub_secrets s' = [refreshed (pull_secret pull_config ''{auths}'') old_secret]"
    unfolding run pull_config_decoded
    by (simp add: ensured_def Let_def hub_with_secret_def se_key_def pull_secret_def old_secret_def
        pull_config_def del: EncodeToString.simps)
  then show ?thesis
    using run by (auto simp: refreshed_def old_secret_def pull_secret_def pull_labels_def map_add_def
        LabelManagedBy_def LabelServiceType_def)
qed

end
