(* ===== verification/Startup.thy ===== *)
theory Startup
  imports Registration PullSecret ApiServer Health Monitor
begin

text \<open>
  The start of the process: \<open>run\<close> of \<open>cmd/acm-cluster-service-provider/main.go\<close>, with \<open>config.Load\<close>,
  \<open>util.BuildScheme\<close>, \<open>NewNATSPublisher\<close>, \<open>Registrar.Start\<close> and the service it builds.  What the process does to
  its surroundings besides the hub is a trace of events; deferred calls run at the return, the last
  one first.  The environment, the network, the Kubernetes clients and NATS are parameters.
\<close>

subsection \<open>Settings\<close>

record Config =
  co_Server :: ServerConfig
  co_Registration :: RegistrationConfig
  co_Health :: HealthConfig
  co_Cluster :: ClusterConfig
  co_Monitoring :: MonitoringConfig

record MonitorConfig =
  mc_Namespace :: string
  mc_ProviderName :: string
  mc_DebounceInterval :: duration
  mc_ResyncInterval :: duration
  mc_PublishRetryMax :: int
  mc_PublishRetryInterval :: duration

definition config_Load :: "go_error + Config \<Rightarrow> go_error + Config" where
  "config_Load env_Parse =
     (case env_Parse of
        Inl err \<Rightarrow> Inl (Wrapped (''loading configuration: '' @ error_text err) err)
      | Inr cfg \<Rightarrow> Inr cfg)"

definition KubevirtVMIGVK :: GVK where
  "KubevirtVMIGVK = \<lparr>gvk_Group = ''kubevirt.io'', gvk_Version = ''v1'', gvk_Kind = ''VirtualMachineInstance''\<rparr>"

definition AgentGVK :: GVK where
  "AgentGVK = \<lparr>gvk_Group = ''agent-install.openshift.io'', gvk_Version = ''v1beta1'', gvk_Kind = ''Agent''\<rparr>"

text \<open>The kinds of a scheme: those of the two registered groups, given as lists or an error, and four more.\<close>

definition BuildScheme :: "go_error + GVK list \<Rightarrow> go_error + GVK list \<Rightarrow> go_error + GVK list" where
  "BuildScheme core hyper =
     (case core of
        Inl err \<Rightarrow> Inl (Wrapped (''registering core/v1 types: '' @ error_text err) err)
      | Inr core_kinds \<Rightarrow>
      (case hyper of
        Inl err \<Rightarrow> Inl (Wrapped (''registering HyperShift types: '' @ error_text err) err)
      | Inr hyper_kinds \<Rightarrow>
          Inr (core_kinds @ hyper_kinds @ [KubevirtVMIGVK, KubevirtVMIListGVK, AgentGVK, AgentListGVK])))"

text \<open>The publisher is the name of the provider and the subject, with its connection.\<close>

record NATSPublisher =
  pb_conn :: string
  pb_providerName :: string
  pb_subject :: string

definition NewNATSPublisher :: "(string \<Rightarrow> go_error option) \<Rightarrow> string \<Rightarrow> string \<Rightarrow> go_error + NATSPublisher" where
  "NewNATSPublisher nats_Connect natsURL providerName =
     (case nats_Connect natsURL of
        Some err \<Rightarrow> Inl (Wrapped (''connecting to NATS at '' @ natsURL @ '': '' @ error_text err) err)
      | None \<Rightarrow> Inr \<lparr>pb_conn = natsURL, pb_providerName = providerName, pb_subject = ''dcm.cluster''\<rparr>)"

subsection \<open>The run\<close>

text \<open>What is outside the process; a client of the registry is its call to create a provider.\<close>

record ('s, 'q) surroundings =
  su_EnvParse :: "go_error + Config"
  su_Listen :: "string \<Rightarrow> go_error + string" \<comment> \<open>the address listened on\<close>
  su_NewDCMClient :: "string \<Rightarrow> go_error + (Provider \<Rightarrow> 's \<Rightarrow> (go_error + dcm_response) \<times> 's)"
  su_GetKubeConfig :: "go_error + string"
  su_CoreKinds :: "go_error + GVK list"
  su_HyperKinds :: "go_error + GVK list"
  su_NewK8sClient :: "string \<Rightarrow> GVK list \<Rightarrow> go_error + ('s, 'q) k8s_client"
  su_NewDynamic :: "string \<Rightarrow> go_error option"
  su_ReadFile :: "string \<Rightarrow> go_error + string"
  su_UnmarshalMatrix :: "string \<Rightarrow> go_error + CompatibilityMatrix"
  su_CorruptInput :: "string \<Rightarrow> go_error"
  su_ParseAuths :: "string \<Rightarrow> go_error + (string \<times> json) list"
  su_NATSConnect :: "string \<Rightarrow> go_error option"
  su_JoinPath :: "string \<Rightarrow> string \<Rightarrow> go_error + string"
  su_endpointSuffix :: string
  su_Ready :: "go_error option" \<comment> \<open>the readiness probe\<close>
  su_Wake :: server_wake
  su_Shutdown :: "go_error option"

datatype boot_event =
    Listening string
  | ListenerClosed
  | SignalsCaught
  | SignalsReleased
  | SecretEnsured string
  | PublisherOpened string
  | PublisherClosed
  | Serving ServerConfig ClusterConfig "string list"
  | RegistrarStarted CompatibilityMatrix
  | MonitorStarted MonitorConfig

text \<open>\<open>Registrar.Start\<close>: the flag of the \<open>sync.Once\<close>, and the trace.\<close>

definition registrar_Start :: "('s, 'q) Registrar \<Rightarrow> bool \<times> boot_event list \<Rightarrow> bool \<times> boot_event list" where
  "registrar_Start r st =
     (case st of (started, trace) \<Rightarrow>
        if started then (started, trace) else (True, trace @ [RegistrarStarted (rg_matrix r)]))"

definition new_Registrar ::
  "('s, 'q) surroundings \<Rightarrow> RegistrationConfig \<Rightarrow> (Provider \<Rightarrow> 's \<Rightarrow> (go_error + dcm_response) \<times> 's) \<Rightarrow>
   ('s, 'q) k8s_client \<Rightarrow> CompatibilityMatrix \<Rightarrow> ('s, 'q) Registrar" where
  "new_Registrar su cfg dcmClient k8sClient matrix =
     \<lparr>rg_cfg = cfg, rg_CreateProvider = dcmClient, rg_k8sClient = k8sClient, rg_matrix = matrix,
      rg_JoinPath = su_JoinPath su, rg_endpointSuffix = su_endpointSuffix su\<rparr>"

definition monitor_config :: "Config \<Rightarrow> MonitorConfig" where
  "monitor_config cfg =
     \<lparr>mc_Namespace = cc_ClusterNamespace (co_Cluster cfg),
      mc_ProviderName = rc_ProviderName (co_Registration cfg),
      mc_DebounceInterval = mo_DebounceInterval (co_Monitoring cfg),
      mc_ResyncInterval = mo_ResyncInterval (co_Monitoring cfg),
      mc_PublishRetryMax = mo_PublishRetryMax (co_Monitoring cfg),
      mc_PublishRetryInterval = mo_PublishRetryInterval (co_Monitoring cfg)\<rparr>"

text \<open>The callback of the ready server starts the registrar and, in a goroutine, the monitor.\<close>

definition on_ready ::
  "('s, 'q) Registrar \<Rightarrow> Config \<Rightarrow> bool \<times> boot_event list \<Rightarrow> unit outcome \<times> bool \<times> boot_event list" where
  "on_ready r cfg st =
     (case registrar_Start r st of (started, trace) \<Rightarrow>
        (Returns (), started, trace @ [MonitorStarted (monitor_config cfg)]))"

definition serve_phase ::
  "('s, 'q) surroundings \<Rightarrow> Config \<Rightarrow> string \<Rightarrow> ('s, 'q) Registrar \<Rightarrow> go_error option \<times> boot_event list" where
  "serve_phase su cfg addr r =
     (case Run addr (Some (on_ready r cfg)) (su_Ready su) (su_Wake su) (su_Shutdown su)
         (False, [Serving (co_Server cfg) (co_Cluster cfg) (hf_EnabledPlatforms (co_Health cfg))]) of
        (err, started, trace) \<Rightarrow> (err, trace))"

definition wrapped :: "string \<Rightarrow> go_error \<Rightarrow> go_error option" where
  "wrapped what err = Some (Wrapped (what @ '': '' @ error_text err) err)"

text \<open>From the clients on, with the listener open; the result, the hub and the trace of this part.\<close>

definition run_clients ::
  "('s, 'q) surroundings \<Rightarrow> Config \<Rightarrow> string \<Rightarrow> (Provider \<Rightarrow> 's \<Rightarrow> (go_error + dcm_response) \<times> 's) \<Rightarrow>
   ('s, 'q) k8s_client \<Rightarrow> string \<Rightarrow> 's \<Rightarrow> go_error option \<times> 's \<times> boot_event list" where
  "run_clients su cfg addr dcmClient k8sClient restCfg s =
     (case su_NewDynamic su restCfg of
        Some err \<Rightarrow> (wrapped ''creating dynamic kubernetes client'' err, s, [])
      | None \<Rightarrow>
      (case LoadCompatibilityMatrix (su_ReadFile su) (su_UnmarshalMatrix su) (cc_VersionMatrixPath (co_Cluster cfg)) of
        Inl err \<Rightarrow> (wrapped ''loading compatibility matrix'' err, s, [])
      | Inr matrix \<Rightarrow>
          let cluster = (co_Cluster cfg)\<lparr>cc_VersionMatrix := matrix,
                cc_PullSecretName := rc_ProviderName (co_Registration cfg) @ ''-pull-secret''\<rparr>;
              cfg = cfg\<lparr>co_Cluster := cluster\<rparr>
          in case EnsurePullSecret k8sClient (su_CorruptInput su) (su_ParseAuths su) cluster s of
            (Some err, s1) \<Rightarrow> (wrapped ''ensuring pull secret'' err, s1, [])
          | (None, s1) \<Rightarrow>
              let r = new_Registrar su (co_Registration cfg) dcmClient k8sClient matrix;
                  ensured_secret = SecretEnsured (cc_PullSecretName cluster)
              in case NewNATSPublisher (su_NATSConnect su) (mo_NATSUrl (co_Monitoring cfg))
                   (rc_ProviderName (co_Registration cfg)) of
                Inl err \<Rightarrow> (wrapped ''creating NATS publisher'' err, s1, [ensured_secret])
              | Inr publisher \<Rightarrow>
                  (case serve_phase su cfg addr r of (err, trace) \<Rightarrow>
                     (err, s1, ensured_secret # PublisherOpened (pb_conn publisher) # trace @ [PublisherClosed]))))"

text \<open>With the listener open.\<close>

definition run_listening ::
  "('s, 'q) surroundings \<Rightarrow> Config \<Rightarrow> string \<Rightarrow> 's \<Rightarrow> go_error option \<times> 's \<times> boot_event list" where
  "run_listening su cfg addr s =
     (case su_NewDCMClient su (rc_DCMRegistrationURL (co_Registration cfg)) of
        Inl err \<Rightarrow> (wrapped ''creating DCM client'' err, s, [])
      | Inr dcmClient \<Rightarrow>
      (case su_GetKubeConfig su of
        Inl err \<Rightarrow> (wrapped ''loading kubeconfig'' err, s, [])
      | Inr restCfg \<Rightarrow>
      (case BuildScheme (su_CoreKinds su) (su_HyperKinds su) of
        Inl err \<Rightarrow> (wrapped ''building scheme'' err, s, [])
      | Inr scheme \<Rightarrow>
      (case su_NewK8sClient su restCfg scheme of
        Inl err \<Rightarrow> (wrapped ''creating kubernetes client'' err, s, [])
      | Inr k8sClient \<Rightarrow> run_clients su cfg addr dcmClient k8sClient restCfg s))))"

definition run_process :: "('s, 'q) surroundings \<Rightarrow> 's \<Rightarrow> go_error option \<times> 's \<times> boot_event list" where
  "run_process su s =
     (case config_Load (su_EnvParse su) of
        Inl err \<Rightarrow> (wrapped ''loading configuration'' err, s, [])
      | Inr cfg \<Rightarrow>
      (case su_Listen su (sv_BindAddress (co_Server cfg)) of
        Inl err \<Rightarrow> (wrapped (''listening on '' @ sv_BindAddress (co_Server cfg)) err, s, [])
      | Inr addr \<Rightarrow>
          (case run_listening su cfg addr s of
             (result, s1, trace) \<Rightarrow>
               (result, s1, [Listening addr, SignalsCaught] @ trace @ [SignalsReleased, ListenerClosed]))))"

text \<open>The exit code of \<open>main\<close>.\<close>

definition exit_code :: "go_error option \<Rightarrow> int" where
  "exit_code result = (case result of None \<Rightarrow> 0 | Some err \<Rightarrow> 1)"

subsection \<open>The start of the monitor\<close>

text \<open>
  \<open>StatusMonitor.Start\<close> around the handlers of the monitor: the informer factory answers each
  registration, and says after its start which caches were synchronised, in some order; \<open>ctx_ended\<close>
  is whether the context had ended by then.  The end of the context is what the call waits for.
\<close>

record GVR =
  gvr_Group :: string
  gvr_Version :: string
  gvr_Resource :: string

definition HostedClusterGVR :: GVR where
  "HostedClusterGVR = \<lparr>gvr_Group = ''hypershift.openshift.io'', gvr_Version = ''v1beta1'',
     gvr_Resource = ''hostedclusters''\<rparr>"

definition NodePoolGVR :: GVR where
  "NodePoolGVR = \<lparr>gvr_Group = ''hypershift.openshift.io'', gvr_Version = ''v1beta1'',
     gvr_Resource = ''nodepools''\<rparr>"

record informer_factory =
  if_AddIndexers :: "GVR \<Rightarrow> go_error option"
  if_AddEventHandler :: "GVR \<Rightarrow> go_error option"
  if_Synced :: "(GVR \<times> bool) list"
  if_GVRString :: "GVR \<Rightarrow> string" \<comment> \<open>how \<open>%v\<close> prints a resource\<close>

datatype monitor_event =
    FactoryCreated string duration string
  | FactoryStarted
  | DebouncerStopped
  | FactoryShutdown

definition managed_label_selector :: string where
  "managed_label_selector = LabelManagedBy @ ''='' @ ValueManagedBy @ '','' @ LabelServiceType @ ''='' @ ValueServiceType"

definition monitor_Start ::
  "informer_factory \<Rightarrow> bool \<Rightarrow> MonitorConfig \<Rightarrow> go_error option \<times> monitor_event list" where
  "monitor_Start f ctx_ended cfg =
     (let created = FactoryCreated (mc_Namespace cfg) (mc_ResyncInterval cfg) managed_label_selector;
          fail = (\<lambda>what err. (Some (Wrapped (what @ '': '' @ error_text err) err), [created]))
      in case if_AddIndexers f HostedClusterGVR of
        Some err \<Rightarrow> fail ''adding HC indexers'' err
      | None \<Rightarrow>
      (case if_AddIndexers f NodePoolGVR of
        Some err \<Rightarrow> fail ''adding NP indexers'' err
      | None \<Rightarrow>
      (case if_AddEventHandler f HostedClusterGVR of
        Some err \<Rightarrow> fail ''adding HC event handler'' err
      | None \<Rightarrow>
      (case if_AddEventHandler f NodePoolGVR of
        Some err \<Rightarrow> fail ''adding NP event handler'' err
      | None \<Rightarrow>
          (case (if ctx_ended then None else find (\<lambda>(gvr, ok). \<not> ok) (if_Synced f)) of
             Some (gvr, ok) \<Rightarrow> Some (PlainError (''cache sync failed for '' @ if_GVRString f gvr))
           | None \<Rightarrow> None,
           [created, FactoryStarted, DebouncerStopped, FactoryShutdown])))))"

text \<open>Every start of the factory is followed by the end of the debouncer and of the factory, in this order.\<close>

lemma monitor_Start_cleanup:
  "monitor_Start f ctx_ended cfg = (result, events) \<Longrightarrow>
     (\<exists>ns resync. events = [FactoryCreated ns resync managed_label_selector] \<and> result \<noteq> None
      \<or> events = [FactoryCreated ns resync managed_label_selector, FactoryStarted, DebouncerStopped, FactoryShutdown])"
  by (auto simp: monitor_Start_def Let_def split: option.splits)

subsection \<open>Order and cleanup\<close>

text \<open>What happens between the two ends of a run: nothing, the secret, or the secret and a served phase.\<close>

inductive boot_middle :: "go_error option \<Rightarrow> Config \<Rightarrow> boot_event list \<Rightarrow> bool" for ready where
  boot_nothing: "boot_middle ready cfg []"
| boot_secret: "boot_middle ready cfg [SecretEnsured (cc_PullSecretName (co_Cluster cfg))]"
| boot_served: "boot_middle ready cfg
    ([SecretEnsured (cc_PullSecretName (co_Cluster cfg)), PublisherOpened (mo_NATSUrl (co_Monitoring cfg)),
      Serving (co_Server cfg) (co_Cluster cfg) (hf_EnabledPlatforms (co_Health cfg))]
     @ (if ready = None
        then [RegistrarStarted (cc_VersionMatrix (co_Cluster cfg)), MonitorStarted (monitor_config cfg)] else [])
     @ [PublisherClosed])"

text \<open>The settings of the process are those loaded, but for the two fields of the cluster it fills in.\<close>

definition same_settings :: "Config \<Rightarrow> Config \<Rightarrow> bool" where
  "same_settings cfg cfg' \<longleftrightarrow>
     cfg' = cfg\<lparr>co_Cluster := (co_Cluster cfg)\<lparr>cc_VersionMatrix := cc_VersionMatrix (co_Cluster cfg'),
       cc_PullSecretName := rc_ProviderName (co_Registration cfg) @ ''-pull-secret''\<rparr>\<rparr>"

definition served :: "boot_event list \<Rightarrow> bool" where
  "served trace \<longleftrightarrow> list_ex (\<lambda>e. case e of Serving sv cl ps \<Rightarrow> True | _ \<Rightarrow> False) trace"

lemma run_ready:
  "serve_phase su cfg addr r =
     (fst (Run addr (None :: (nat \<Rightarrow> unit outcome \<times> nat) option) None (su_Wake su) (su_Shutdown su) 0),
      [Serving (co_Server cfg) (co_Cluster cfg) (hf_EnabledPlatforms (co_Health cfg))]
      @ (if su_Ready su = None then [RegistrarStarted (rg_matrix r), MonitorStarted (monitor_config cfg)] else []))"
  by (auto simp: serve_phase_def Run_def Let_def on_ready_def registrar_Start_def
      split: option.split server_wake.split)

definition clients_result ::
  "('s, 'q) surroundings \<Rightarrow> Config \<Rightarrow> ('s, 'q) k8s_client \<Rightarrow> 's \<Rightarrow> go_error option \<times> 's \<times> boot_event list \<Rightarrow> bool" where
  "clients_result su cfg k8s s out \<longleftrightarrow>
     (case out of (result, s', mid) \<Rightarrow>
        \<exists>cfg'. same_settings cfg cfg' \<and> boot_middle (su_Ready su) cfg' mid
          \<and> (mid \<noteq> [] \<longrightarrow> EnsurePullSecret k8s (su_CorruptInput su) (su_ParseAuths su) (co_Cluster cfg') s = (None, s'))
          \<and> (mid \<noteq> [] \<longrightarrow> LoadCompatibilityMatrix (su_ReadFile su) (su_UnmarshalMatrix su)
               (cc_VersionMatrixPath (co_Cluster cfg)) = Inr (cc_VersionMatrix (co_Cluster cfg'))))"

lemma failed_clients: "clients_result su cfg k8s s (result, s', [])"
  unfolding clients_result_def
  by (auto simp: same_settings_def intro!: exI[of _ "cfg\<lparr>co_Cluster := (co_Cluster cfg)
      \<lparr>cc_PullSecretName := rc_ProviderName (co_Registration cfg) @ ''-pull-secret''\<rparr>\<rparr>"] boot_nothing)

text \<open>The settings with the two fields filled in.\<close>

definition filled_in :: "Config \<Rightarrow> CompatibilityMatrix \<Rightarrow> Config" where
  "filled_in cfg matrix =
     cfg\<lparr>co_Cluster := (co_Cluster cfg)\<lparr>cc_VersionMatrix := matrix,
       cc_PullSecretName := rc_ProviderName (co_Registration cfg) @ ''-pull-secret''\<rparr>\<rparr>"

lemma filled_in_same [simp]:
  "same_settings cfg (filled_in cfg matrix)" "cc_VersionMatrix (co_Cluster (filled_in cfg matrix)) = matrix"
  by (simp_all add: same_settings_def filled_in_def)

lemma run_clients_ensured:
  assumes "su_NewDynamic su rest = None"
    and "LoadCompatibilityMatrix (su_ReadFile su) (su_UnmarshalMatrix su) (cc_VersionMatrixPath (co_Cluster cfg)) = Inr matrix"
    and "EnsurePullSecret k8s (su_CorruptInput su) (su_ParseAuths su) (co_Cluster (filled_in cfg matrix)) s = (None, s1)"
  shows "\<exists>result mid. run_clients su cfg addr dcm k8s rest s = (result, s1, mid)
    \<and> boot_middle (su_Ready su) (filled_in cfg matrix) mid"
proof (cases "su_NATSConnect su (mo_NATSUrl (co_Monitoring cfg))")
  case (Some err)
  then show ?thesis
    using boot_secret[of "su_Ready su" "filled_in cfg matrix"] assms
    by (auto simp: run_clients_def Let_def NewNATSPublisher_def filled_in_def)
next
  case None
  then show ?thesis
    using boot_served[of "su_Ready su" "filled_in cfg matrix"] assms
    by (auto simp: run_clients_def Let_def NewNATSPublisher_def filled_in_def run_ready new_Registrar_def served_def)
qed

lemma run_clients_result: "clients_result su cfg k8s s (run_clients su cfg addr dcm k8s rest s)"
proof -
  consider (dynamic) err where "su_NewDynamic su rest = Some err"
    | (matrix) err where "su_NewDynamic su rest = None"
        "LoadCompatibilityMatrix (su_ReadFile su) (su_UnmarshalMatrix su) (cc_VersionMatrixPath (co_Cluster cfg)) = Inl err"
    | (go) matrix where "su_NewDynamic su rest = None"
        "LoadCompatibilityMatrix (su_ReadFile su) (su_UnmarshalMatrix su) (cc_VersionMatrixPath (co_Cluster cfg)) = Inr matrix"
    by (metis option.exhaust sum.exhaust)
  then show ?thesis
  proof cases
    case go
    obtain e s1 where secret:
      "EnsurePullSecret k8s (su_CorruptInput su) (su_ParseAuths su) (co_Cluster (filled_in cfg matrix)) s = (e, s1)" by fastforce
    show ?thesis
    proof (cases e)
      case (Some err)
      then show ?thesis
        using secret by (simp add: run_clients_def go Let_def filled_in_def failed_clients)
    next
      case None
      obtain result mid where out: "run_clients su cfg addr dcm k8s rest s = (result, s1, mid)"
          "boot_middle (su_Ready su) (filled_in cfg matrix) mid"
        using run_clients_ensured[OF go secret[unfolded None]] by blast
      then show ?thesis
        using secret None go(2) unfolding clients_result_def
        by (auto intro!: exI[of _ "filled_in cfg matrix"])
    qed
  qed (simp_all add: run_clients_def failed_clients)
qed

text \<open>What the part between listening and the deferred calls comes to.\<close>

definition started_ok ::
  "('s, 'q) surroundings \<Rightarrow> Config \<Rightarrow> 's \<Rightarrow> go_error option \<times> 's \<times> boot_event list \<Rightarrow> bool" where
  "started_ok su cfg s out \<longleftrightarrow>
     (\<exists>kinds rest k8s. clients_result su cfg k8s s out
        \<and> (snd (snd out) \<noteq> [] \<longrightarrow> BuildScheme (su_CoreKinds su) (su_HyperKinds su) = Inr kinds
             \<and> su_NewK8sClient su rest kinds = Inr k8s))"

lemma started_failed: "started_ok su cfg s (result, s', [])"
  unfolding started_ok_def using failed_clients by (metis snd_conv)

lemma started_clients:
  "BuildScheme (su_CoreKinds su) (su_HyperKinds su) = Inr kinds \<Longrightarrow> su_NewK8sClient su rest kinds = Inr k8s \<Longrightarrow>
   started_ok su cfg s (run_clients su cfg addr dcm k8s rest s)"
  unfolding started_ok_def using run_clients_result by metis

lemma listening_ok: "started_ok su cfg s (run_listening su cfg addr s)"
  unfolding run_listening_def by (auto simp: started_failed started_clients split: sum.split)

lemma process_result:
  assumes "run_process su s = (result, s', trace)"
  shows "(trace = [] \<and> s' = s \<and> result \<noteq> None)
    \<or> (\<exists>cfg addr mid. su_EnvParse su = Inr cfg \<and> started_ok su cfg s (result, s', mid)
        \<and> trace = [Listening addr, SignalsCaught] @ mid @ [SignalsReleased, ListenerClosed])"
proof -
  have ok: "run_listening su cfg addr s = (result, s', mid) \<Longrightarrow> started_ok su cfg s (result, s', mid)" for cfg addr mid
    by (metis listening_ok)
  show ?thesis
    using assms by (auto simp: run_process_def config_Load_def wrapped_def split: sum.splits prod.splits dest: ok)
qed

subsection \<open>Errors\<close>

text \<open>Which step can fail with which cause, step by step in the words of the error.\<close>

inductive step_failed :: "('s, 'q) surroundings \<Rightarrow> 's \<Rightarrow> string \<Rightarrow> go_error \<Rightarrow> bool" for su s where
  fail_config: "config_Load (su_EnvParse su) = Inl err \<Longrightarrow> step_failed su s ''loading configuration'' err"
| fail_listen: "su_EnvParse su = Inr cfg \<Longrightarrow> su_Listen su (sv_BindAddress (co_Server cfg)) = Inl err \<Longrightarrow>
    step_failed su s (''listening on '' @ sv_BindAddress (co_Server cfg)) err"
| fail_dcm: "su_EnvParse su = Inr cfg \<Longrightarrow> su_NewDCMClient su (rc_DCMRegistrationURL (co_Registration cfg)) = Inl err \<Longrightarrow>
    step_failed su s ''creating DCM client'' err"
| fail_kubeconfig: "su_GetKubeConfig su = Inl err \<Longrightarrow> step_failed su s ''loading kubeconfig'' err"
| fail_scheme: "BuildScheme (su_CoreKinds su) (su_HyperKinds su) = Inl err \<Longrightarrow> step_failed su s ''building scheme'' err"
| fail_client: "su_GetKubeConfig su = Inr rest \<Longrightarrow> BuildScheme (su_CoreKinds su) (su_HyperKinds su) = Inr kinds \<Longrightarrow>
    su_NewK8sClient su rest kinds = Inl err \<Longrightarrow> step_failed su s ''creating kubernetes client'' err"
| fail_dynamic: "su_GetKubeConfig su = Inr rest \<Longrightarrow> su_NewDynamic su rest = Some err \<Longrightarrow>
    step_failed su s ''creating dynamic kubernetes client'' err"
| fail_matrix: "su_EnvParse su = Inr cfg \<Longrightarrow>
    LoadCompatibilityMatrix (su_ReadFile su) (su_UnmarshalMatrix su) (cc_VersionMatrixPath (co_Cluster cfg)) = Inl err \<Longrightarrow>
    step_failed su s ''loading compatibility matrix'' err"
| fail_secret: "su_EnvParse su = Inr cfg \<Longrightarrow> su_GetKubeConfig su = Inr rest \<Longrightarrow>
    BuildScheme (su_CoreKinds su) (su_HyperKinds su) = Inr kinds \<Longrightarrow> su_NewK8sClient su rest kinds = Inr k8s \<Longrightarrow>
    LoadCompatibilityMatrix (su_ReadFile su) (su_UnmarshalMatrix su) (cc_VersionMatrixPath (co_Cluster cfg)) = Inr matrix \<Longrightarrow>
    EnsurePullSecret k8s (su_CorruptInput su) (su_ParseAuths su) (co_Cluster (filled_in cfg matrix)) s = (Some err, s1) \<Longrightarrow>
    step_failed su s ''ensuring pull secret'' err"
| fail_nats: "su_EnvParse su = Inr cfg \<Longrightarrow>
    NewNATSPublisher (su_NATSConnect su) (mo_NATSUrl (co_Monitoring cfg)) (rc_ProviderName (co_Registration cfg)) = Inl err \<Longrightarrow>
    step_failed su s ''creating NATS publisher'' err"

lemma clients_error:
  assumes "run_clients su cfg addr dcm k8s rest s = (result, s', mid)" "\<not> served mid"
    and "su_EnvParse su = Inr cfg" "su_GetKubeConfig su = Inr rest"
    and "BuildScheme (su_CoreKinds su) (su_HyperKinds su) = Inr kinds" "su_NewK8sClient su rest kinds = Inr k8s"
  shows "\<exists>what err. step_failed su s what err \<and> result = wrapped what err"
proof (cases "su_NewDynamic su rest")
  case (Some err)
  then show ?thesis using assms(1) fail_dynamic[OF assms(4) Some] by (auto simp: run_clients_def)
next
  case no_dynamic: None
  show ?thesis
  proof (cases "LoadCompatibilityMatrix (su_ReadFile su) (su_UnmarshalMatrix su) (cc_VersionMatrixPath (co_Cluster cfg))")
    case (Inl err)
    then show ?thesis using assms(1) no_dynamic fail_matrix[OF assms(3) Inl] by (auto simp: run_clients_def)
  next
    case (Inr matrix)
    obtain e s1 where secret:
      "EnsurePullSecret k8s (su_CorruptInput su) (su_ParseAuths su) (co_Cluster (filled_in cfg matrix)) s = (e, s1)" by fastforce
    show ?thesis
    proof (cases e)
      case (Some err)
      have "result = wrapped ''ensuring pull secret'' err"
        using assms(1) no_dynamic Inr secret Some by (simp add: run_clients_def Let_def filled_in_def)
      then show ?thesis using fail_secret[OF assms(3-6) Inr] secret Some by blast
    next
      case None
      show ?thesis
      proof (cases "NewNATSPublisher (su_NATSConnect su) (mo_NATSUrl (co_Monitoring cfg)) (rc_ProviderName (co_Registration cfg))")
        case (Inl err)
        have "result = wrapped ''creating NATS publisher'' err"
          using assms(1) no_dynamic \<open>LoadCompatibilityMatrix _ _ _ = _\<close> secret None Inl
          by (simp add: run_clients_def Let_def filled_in_def)
        then show ?thesis using fail_nats[OF assms(3) Inl] by blast
      next
        case (Inr publisher)
        then have "served mid"
          using assms(1) no_dynamic \<open>LoadCompatibilityMatrix _ _ _ = _\<close> secret None
          by (auto simp: run_clients_def Let_def filled_in_def run_ready served_def)
        then show ?thesis using assms(2) by simp
      qed
    qed
  qed
qed

lemma listening_error:
  assumes "run_listening su cfg addr s = (result, s', mid)" "\<not> served mid" "su_EnvParse su = Inr cfg"
  shows "\<exists>what err. step_failed su s what err \<and> result = wrapped what err"
proof (cases "su_NewDCMClient su (rc_DCMRegistrationURL (co_Registration cfg))")
  case (Inl err)
  then show ?thesis using assms(1) fail_dcm[OF assms(3) Inl] by (auto simp: run_listening_def)
next
  case dcm: (Inr dcm)
  show ?thesis
  proof (cases "su_GetKubeConfig su")
    case (Inl err)
    then show ?thesis using assms(1) dcm fail_kubeconfig[OF Inl] by (auto simp: run_listening_def)
  next
    case rest: (Inr rest)
    show ?thesis
    proof (cases "BuildScheme (su_CoreKinds su) (su_HyperKinds su)")
      case (Inl err)
      then show ?thesis using assms(1) dcm rest fail_scheme[OF Inl] by (auto simp: run_listening_def)
    next
      case kinds: (Inr kinds)
      show ?thesis
      proof (cases "su_NewK8sClient su rest kinds")
        case (Inl err)
        then show ?thesis using assms(1) dcm rest kinds fail_client[OF rest kinds Inl] by (auto simp: run_listening_def)
      next
        case (Inr k8s)
        then have "run_clients su cfg addr dcm k8s rest s = (result, s', mid)"
          using assms(1) dcm rest kinds by (simp add: run_listening_def)
        from clients_error[OF this assms(2,3) rest kinds Inr] show ?thesis .
      qed
    qed
  qed
qed

lemma process_error:
  assumes "run_process su s = (result, s', trace)" "\<not> served trace"
  shows "\<exists>what err. step_failed su s what err \<and> result = wrapped what err"
proof (cases "config_Load (su_EnvParse su)")
  case (Inl err)
  then show ?thesis using assms(1) fail_config[OF Inl] by (auto simp: run_process_def)
next
  case (Inr cfg)
  then have env: "su_EnvParse su = Inr cfg" by (simp add: config_Load_def split: sum.splits)
  show ?thesis
  proof (cases "su_Listen su (sv_BindAddress (co_Server cfg))")
    case (Inl err)
    then show ?thesis using assms(1) Inr fail_listen[OF env Inl] by (auto simp: run_process_def)
  next
    case addr: (Inr addr)
    obtain mid where "run_listening su cfg addr s = (result, s', mid)" "\<not> served mid"
      using assms Inr addr by (auto simp: run_process_def served_def split: prod.splits)
    from listening_error[OF this env] show ?thesis .
  qed
qed

text \<open>
  C18: a run of the process, whatever fails.  A run that got past its listener closes it, as the last
  thing it does, and a publisher once opened is closed before.  Requests are served only after the pull
  secret of the served settings was ensured, with the settings loaded and the matrix of the file; the
  registrar and the monitor are started only when the server answered its readiness probe, each once,
  with the matrix and the names of the served settings.  A run that does not get to serve ends with
  the error of a step that failed: \<open>step_failed\<close> lists the ten steps with the words of their errors,
  and the cause that is wrapped is the one that step came back with.
\<close>

theorem startup_order:
  assumes "run_process su s = (result, s', trace)"
  shows "((trace = [] \<and> s' = s \<and> result \<noteq> None)
      \<or> (\<exists>cfg cfg' addr mid kinds rest k8s. su_EnvParse su = Inr cfg \<and> same_settings cfg cfg'
          \<and> trace = [Listening addr, SignalsCaught] @ mid @ [SignalsReleased, ListenerClosed]
          \<and> boot_middle (su_Ready su) cfg' mid
          \<and> (mid \<noteq> [] \<longrightarrow>
               BuildScheme (su_CoreKinds su) (su_HyperKinds su) = Inr kinds \<and> su_NewK8sClient su rest kinds = Inr k8s
               \<and> EnsurePullSecret k8s (su_CorruptInput su) (su_ParseAuths su) (co_Cluster cfg') s = (None, s')
               \<and> LoadCompatibilityMatrix (su_ReadFile su) (su_UnmarshalMatrix su) (cc_VersionMatrixPath (co_Cluster cfg))
                   = Inr (cc_VersionMatrix (co_Cluster cfg')))))
    \<and> (\<not> served trace \<longrightarrow> (\<exists>what err. step_failed su s what err \<and> result = wrapped what err))"
proof (intro conjI)
  show "\<not> served trace \<longrightarrow> (\<exists>what err. step_failed su s what err \<and> result = wrapped what err)"
    using process_error[OF assms] by blast
next
  show "(trace = [] \<and> s' = s \<and> result \<noteq> None)
      \<or> (\<exists>cfg cfg' addr mid kinds rest k8s. su_EnvParse su = Inr cfg \<and> same_settings cfg cfg'
          \<and> trace = [Listening addr, SignalsCaught] @ mid @ [SignalsReleased, ListenerClosed]
          \<and> boot_middle (su_Ready su) cfg' mid
          \<and> (mid \<noteq> [] \<longrightarrow>
               BuildScheme (su_CoreKinds su) (su_HyperKinds su) = Inr kinds \<and> su_NewK8sClient su rest kinds = Inr k8s
               \<and> EnsurePullSecret k8s (su_CorruptInput su) (su_ParseAuths su) (co_Cluster cfg') s = (None, s')
               \<and> LoadCompatibilityMatrix (su_ReadFile su) (su_UnmarshalMatrix su) (cc_VersionMatrixPath (co_Cluster cfg))
                   = Inr (cc_VersionMatrix (co_Cluster cfg'))))"
    using process_result[OF assms]
  proof (elim disjE exE conjE)
    fix cfg addr mid
    assume cfg: "su_EnvParse su = Inr cfg" "started_ok su cfg s (result, s', mid)"
      and trace: "trace = [Listening addr, SignalsCaught] @ mid @ [SignalsReleased, ListenerClosed]"
    then show ?thesis unfolding started_ok_def clients_result_def by auto
  qed simp
qed

text \<open>
  The scheme of the process recognizes every kind the health check asks for.  With the HostedCluster
  list among the HyperShift types, a client that recognizes the kinds of its scheme never fails a
  check for an unknown kind, so that healthy means just that each required list call works.
\<close>

theorem scheme_covers_health:
  assumes "BuildScheme core hyper = Inr kinds" "hyper = Inr hyper_kinds" "HostedClusterListGVK \<in> set hyper_kinds"
    and "\<And>g. Recognizes c g \<longleftrightarrow> g \<in> set kinds" "stable_probes c"
    and "Check c str cfg version elapsed s = (h, s')"
  shows "set (required_kinds cfg) \<subseteq> set kinds
    \<and> (he_Status h = Some ''healthy'' \<longleftrightarrow> (\<forall>g \<in> set (required_kinds cfg). fst (ListKind c g s) = None))"
proof -
  have kinds: "set kinds \<supseteq> set hyper_kinds \<union> {KubevirtVMIListGVK, AgentListGVK}"
    using assms(1,2) by (auto simp: BuildScheme_def split: sum.splits)
  have "platform_gvk p = Some g \<Longrightarrow> g = KubevirtVMIListGVK \<or> g = AgentListGVK" for p g
    by (auto simp: platform_gvk_def split: if_splits)
  then have "platform_gvk p = Some g \<Longrightarrow> g \<in> set kinds" for p g using kinds by blast
  then have sub: "set (required_kinds cfg) \<subseteq> set kinds"
    using kinds assms(3) by (auto simp: required_kinds_def map_filter_def)
  have "he_Status h = Some ''healthy'' \<longleftrightarrow> (\<forall>g \<in> set (required_kinds cfg). available c s g)"
    using healthy_iff[OF assms(5,6)] .
  then show ?thesis using sub assms(4) by (auto simp: available_def)
qed

subsection \<open>A run\<close>

definition sample_config :: Config where
  "sample_config =
     \<lparr>co_Server = \<lparr>sv_BindAddress = '':8080'', sv_ShutdownTimeout = 15, sv_RequestTimeout = 30, sv_ReadTimeout = 15,
        sv_WriteTimeout = 15, sv_IdleTimeout = 60\<rparr>,
      co_Registration = \<lparr>rc_DCMRegistrationURL = ''http://dcm'', rc_ProviderName = ''acm-cluster-sp'',
        rc_ProviderEndpoint = ''http://sp'', rc_RegistrationInitialBackoff = 1, rc_RegistrationMaxBackoff = 300,
        rc_VersionCheckInterval = 300, rc_ProviderDisplayName = [], rc_ProviderRegion = [], rc_ProviderZone = []\<rparr>,
      co_Health = sample_health, co_Cluster = pull_config,
      co_Monitoring = \<lparr>mo_NATSUrl = ''nats://nats'', mo_DebounceInterval = 1, mo_ResyncInterval = 600,
        mo_PublishRetryMax = 3, mo_PublishRetryInterval = 2\<rparr>\<rparr>"

definition sample_surroundings :: "(nat hub, nat) surroundings" where
  "sample_surroundings =
     \<lparr>su_EnvParse = Inr sample_config, su_Listen = \<lambda>a. Inr ''[::]:8080'',
      su_NewDCMClient = \<lambda>u. Inr (\<lambda>p s. (Inr \<lparr>dr_StatusCode = 201, dr_Body = []\<rparr>, s)),
      su_GetKubeConfig = Inr ''config'', su_CoreKinds = Inr [], su_HyperKinds = Inr [HostedClusterListGVK],
      su_NewK8sClient = \<lambda>rest kinds. Inr (mem_client\<lparr>Recognizes := \<lambda>g. g \<in> set kinds\<rparr>), su_NewDynamic = \<lambda>rest. None,
      su_ReadFile = \<lambda>p. Inl (PlainError ''no file''), su_UnmarshalMatrix = \<lambda>t. Inr [],
      su_CorruptInput = \<lambda>t. PlainError ''illegal base64 data'', su_ParseAuths = \<lambda>t. Inr [(''quay.io'', JNull)],
      su_NATSConnect = \<lambda>u. None, su_JoinPath = \<lambda>a b. Inr (a @ b),
      su_endpointSuffix = ''/api/v1alpha1/clusters'', su_Ready = None, su_Wake = ContextDone, su_Shutdown = None\<rparr>"

lemma sample_secret:
  "\<exists>s'. EnsurePullSecret (mem_client\<lparr>Recognizes := known\<rparr>) f (\<lambda>t. Inr [(''quay.io'', JNull)])
     (pull_config\<lparr>cc_VersionMatrix := m, cc_PullSecretName := n\<rparr>) empty_hub = (None, s')"
  by (simp add: EnsurePullSecret_def Let_def pull_config_decoded)
    (simp add: mem_client_def empty_hub_def pull_secret_def pull_config_def del: EncodeToString.simps)

lemma sample_run_succeeds: "fst (run_process sample_surroundings empty_hub) = None"
proof -
  have path: "cc_VersionMatrixPath pull_config = []" by (simp add: pull_config_def)
  obtain s' where "EnsurePullSecret
      (mem_client\<lparr>Recognizes := \<lambda>g. g \<in> set [HostedClusterListGVK, KubevirtVMIGVK, KubevirtVMIListGVK, AgentGVK, AgentListGVK]\<rparr>)
      (\<lambda>t. PlainError ''illegal base64 data'') (\<lambda>t. Inr [(''quay.io'', JNull)])
      (pull_config\<lparr>cc_VersionMatrix := DefaultCompatibilityMatrix, cc_PullSecretName := ''acm-cluster-sp-pull-secret''\<rparr>) empty_hub
      = (None, s')" using sample_secret by blast
  then show ?thesis
    by (simp add: run_process_def config_Load_def run_listening_def run_clients_def BuildScheme_def Let_def path
        LoadCompatibilityMatrix_def NewNATSPublisher_def run_ready Run_def sample_surroundings_def sample_config_def)
qed

theorem startup_order_witness:
  "\<exists>s' trace matrix. run_process sample_surroundings empty_hub = (None, s', trace)
     \<and> RegistrarStarted matrix \<in> set trace \<and> PublisherClosed \<in> set trace \<and> last trace = ListenerClosed"
proof -
  obtain s' trace where run: "run_process sample_surroundings empty_hub = (None, s', trace)"
    using sample_run_succeeds by (metis prod_cases3 fst_conv)
  note order = startup_order[OF run]
  from conjunct1[OF order] obtain addr mid cfg' where
    mid: "trace = [Listening addr, SignalsCaught] @ mid @ [SignalsReleased, ListenerClosed]"
      "boot_middle (su_Ready sample_surroundings) cfg' mid" by blast
  have "served trace" using conjunct2[OF order] by (auto simp: wrapped_def)
  then have "served mid" by (simp add: mid(1) served_def)
  have "su_Ready sample_surroundings = None" by (simp add: sample_surroundings_def)
  with mid(2) \<open>served mid\<close> have "RegistrarStarted (cc_VersionMatrix (co_Cluster cfg')) \<in> set mid \<and> PublisherClosed \<in> set mid"
    by (auto simp: served_def elim!: boot_middle.cases)
  then show ?thesis using run mid(1) by auto
qed

theorem scheme_covers_health_witness:
  "he_Status (fst (Check (mem_client\<lparr>Recognizes := \<lambda>g. g \<in> set [HostedClusterListGVK, KubevirtVMIGVK, KubevirtVMIListGVK,
      AgentGVK, AgentListGVK]\<rparr>) gvk_Kind sample_health ''1.0'' 3 empty_hub)) = Some ''healthy''"
proof -
  let ?c = "mem_client\<lparr>Recognizes := \<lambda>g. g \<in> set [HostedClusterListGVK, KubevirtVMIGVK, KubevirtVMIListGVK, AgentGVK, AgentListGVK]\<rparr>"
  have "BuildScheme (Inr []) (Inr [HostedClusterListGVK]) =
      Inr [HostedClusterListGVK, KubevirtVMIGVK, KubevirtVMIListGVK, AgentGVK, AgentListGVK]"
    by (simp add: BuildScheme_def)
  moreover have "stable_probes ?c" "\<forall>g. fst (ListKind ?c g empty_hub) = None"
    by (simp_all add: stable_probes_def mem_client_def)
  ultimately show ?thesis
    using scheme_covers_health[of "Inr []" "Inr [HostedClusterListGVK]" _ "[HostedClusterListGVK]" ?c gvk_Kind sample_health
        "''1.0''" 3 empty_hub, OF _ refl _ _ _ surjective_pairing]
    by auto
qed

end
