(* ===== verification/Concurrent.thy ===== *)
theory Concurrent
  imports Dispatcher
begin

text \<open>
  Requests served at the same time.  \<open>net/http\<close> serves every request on a goroutine of its own, the
  handlers share nothing but the API server of the hub, and each client call is atomic there.  So the
  runs of the program are the interleavings of its client calls.  The operations are not written a
  second time for this: they run against a client that replays the answers received so far and stops
  at the next call, which is the state of a goroutine between two calls.
\<close>

subsection \<open>Calls and answers\<close>

datatype 'q api_call =
    CallListHostedClusters string selector
  | CallListNodePools string selector
  | CallListClusterImageSets
  | CallGetSecret string string
  | CallCreateHostedCluster HostedCluster
  | CallCreateNodePool "'q NodePool"
  | CallCreateSecret Secret
  | CallUpdateSecret Secret
  | CallDeleteHostedCluster HostedCluster
  | CallDeleteNodePool "'q NodePool"
  | CallListKind GVK

datatype 'q api_answer =
    HostedClusters "k8s_error + HostedCluster list"
  | NodePools "k8s_error + 'q NodePool list"
  | ImageSets "k8s_error + string list"
  | ASecret "k8s_error + Secret"
  | Acted "k8s_error option"

text \<open>One call on the API server.\<close>

fun issue :: "('s, 'q) k8s_client \<Rightarrow> 'q api_call \<Rightarrow> 's \<Rightarrow> 'q api_answer \<times> 's" where
  "issue c (CallListHostedClusters ns sel) s = apfst HostedClusters (ListHostedClusters c ns sel s)"
| "issue c (CallListNodePools ns sel) s = apfst NodePools (ListNodePools c ns sel s)"
| "issue c CallListClusterImageSets s = apfst ImageSets (ListClusterImageSets c s)"
| "issue c (CallGetSecret ns n) s = apfst ASecret (GetSecret c ns n s)"
| "issue c (CallCreateHostedCluster hc) s = apfst Acted (CreateHostedCluster c hc s)"
| "issue c (CallCreateNodePool np) s = apfst Acted (CreateNodePool c np s)"
| "issue c (CallCreateSecret x) s = apfst Acted (CreateSecret c x s)"
| "issue c (CallUpdateSecret x) s = apfst Acted (UpdateSecret c x s)"
| "issue c (CallDeleteHostedCluster hc) s = apfst Acted (DeleteHostedCluster c hc s)"
| "issue c (CallDeleteNodePool np) s = apfst Acted (DeleteNodePool c np s)"
| "issue c (CallListKind g) s = apfst Acted (ListKind c g s)"

subsection \<open>The state of a goroutine\<close>

text \<open>The answers still to be replayed, and the call the goroutine stopped at.\<close>

record 'q replay =
  rp_given :: "'q api_answer list"
  rp_asks :: "'q api_call option"

definition ask :: "'q api_call \<Rightarrow> 'q replay \<Rightarrow> 'q api_answer option \<times> 'q replay" where
  "ask call r =
     (if rp_asks r \<noteq> None then (None, r)
      else case rp_given r of
        [] \<Rightarrow> (None, r\<lparr>rp_asks := Some call\<rparr>)
      | a # as \<Rightarrow> (Some a, r\<lparr>rp_given := as\<rparr>))"

text \<open>After the stop nothing that is computed is used, so any value will do.\<close>

definition stopped :: k8s_error where "stopped = K8sOther ''stopped''"

definition replay_client :: "('q replay, 'q) k8s_client" where
  "replay_client = \<lparr>
     ListHostedClusters = (\<lambda>ns sel r. apfst (\<lambda>a. case a of Some (HostedClusters x) \<Rightarrow> x | _ \<Rightarrow> Inl stopped)
                                         (ask (CallListHostedClusters ns sel) r)),
     ListNodePools = (\<lambda>ns sel r. apfst (\<lambda>a. case a of Some (NodePools x) \<Rightarrow> x | _ \<Rightarrow> Inl stopped)
                                    (ask (CallListNodePools ns sel) r)),
     ListClusterImageSets = (\<lambda>r. apfst (\<lambda>a. case a of Some (ImageSets x) \<Rightarrow> x | _ \<Rightarrow> Inl stopped)
                                    (ask CallListClusterImageSets r)),
     GetSecret = (\<lambda>ns n r. apfst (\<lambda>a. case a of Some (ASecret x) \<Rightarrow> x | _ \<Rightarrow> Inl stopped)
                              (ask (CallGetSecret ns n) r)),
     CreateHostedCluster = (\<lambda>hc r. apfst (\<lambda>a. case a of Some (Acted x) \<Rightarrow> x | _ \<Rightarrow> Some stopped)
                              (ask (CallCreateHostedCluster hc) r)),
     CreateNodePool = (\<lambda>np r. apfst (\<lambda>a. case a of Some (Acted x) \<Rightarrow> x | _ \<Rightarrow> Some stopped)
                         (ask (CallCreateNodePool np) r)),
     CreateSecret = (\<lambda>x r. apfst (\<lambda>a. case a of Some (Acted x) \<Rightarrow> x | _ \<Rightarrow> Some stopped)
                       (ask (CallCreateSecret x) r)),
     UpdateSecret = (\<lambda>x r. apfst (\<lambda>a. case a of Some (Acted x) \<Rightarrow> x | _ \<Rightarrow> Some stopped)
                       (ask (CallUpdateSecret x) r)),
     DeleteHostedCluster = (\<lambda>hc r. apfst (\<lambda>a. case a of Some (Acted x) \<Rightarrow> x | _ \<Rightarrow> Some stopped)
                              (ask (CallDeleteHostedCluster hc) r)),
     DeleteNodePool = (\<lambda>np r. apfst (\<lambda>a. case a of Some (Acted x) \<Rightarrow> x | _ \<Rightarrow> Some stopped)
                         (ask (CallDeleteNodePool np) r)),
     Recognizes = (\<lambda>g. True),
     ListKind = (\<lambda>g r. apfst (\<lambda>a. case a of Some (Acted x) \<Rightarrow> x | _ \<Rightarrow> Some stopped)
                   (ask (CallListKind g) r))\<rparr>"

text \<open>Where a goroutine is after the answers \<open>as\<close>: at its next call, or done with a result.\<close>

definition upcoming :: "('q replay \<Rightarrow> 'r \<times> 'q replay) \<Rightarrow> 'q api_answer list \<Rightarrow> 'q api_call + 'r" where
  "upcoming prog as =
     (case prog \<lparr>rp_given = as, rp_asks = None\<rparr> of
        (x, r) \<Rightarrow> (case rp_asks r of Some call \<Rightarrow> Inl call | None \<Rightarrow> Inr x))"

subsection \<open>Requests in flight\<close>

datatype request =
    ReqCreate string Cluster time
  | ReqGet string
  | ReqList int string
  | ReqDelete string

datatype reply =
    Created "go_error + Cluster"
  | Got "go_error + Cluster"
  | Listed "(go_error + ClusterList) outcome"
  | Deleted "go_error option"

fun serve_request :: "('s, 'q) k8s_client \<Rightarrow> ClusterConfig \<Rightarrow> 'q quantity_api \<Rightarrow> string list \<Rightarrow> request \<Rightarrow> 's \<Rightarrow> reply \<times> 's" where
  "serve_request c cfg qa enabled (ReqCreate iid req now) s =
     apfst Created (svc_Create (dispatcher_service c cfg qa enabled now) iid req s)"
| "serve_request c cfg qa enabled (ReqGet iid) s =
     apfst Got (svc_Get (dispatcher_service c cfg qa enabled 0) iid s)"
| "serve_request c cfg qa enabled (ReqList n tok) s =
     apfst Listed (svc_List (dispatcher_service c cfg qa enabled 0) n tok s)"
| "serve_request c cfg qa enabled (ReqDelete iid) s =
     apfst Deleted (svc_Delete (dispatcher_service c cfg qa enabled 0) iid s)"

definition position :: "ClusterConfig \<Rightarrow> 'q quantity_api \<Rightarrow> string list \<Rightarrow> request \<times> 'q api_answer list \<Rightarrow> 'q api_call + reply" where
  "position cfg qa enabled g = upcoming (serve_request replay_client cfg qa enabled (fst g)) (snd g)"

text \<open>
  A step of the running service: one goroutine makes its next call and gets the answer, or the
  controllers of the hub do something.
\<close>

type_synonym ('s, 'q) flight = "'s \<times> (request \<times> 'q api_answer list) list"

inductive flight_step ::
  "('s, 'q) k8s_client \<Rightarrow> ('s \<Rightarrow> 'q hub) \<Rightarrow> ClusterConfig \<Rightarrow> 'q quantity_api \<Rightarrow> string list \<Rightarrow>
   ('s, 'q) flight \<Rightarrow> ('s, 'q) flight \<Rightarrow> bool"
  for c view cfg qa enabled where
  step_call: "n < length gs \<Longrightarrow> gs ! n = (req, as) \<Longrightarrow> position cfg qa enabled (req, as) = Inl call \<Longrightarrow>
    issue c call s = (a, s') \<Longrightarrow>
    flight_step c view cfg qa enabled (s, gs) (s', gs[n := (req, as @ [a])])"
| step_hub: "hub_evolves (view s) (view s') \<Longrightarrow> flight_step c view cfg qa enabled (s, gs) (s', gs)"

inductive_cases flight_stepE: "flight_step c view cfg qa enabled (s, gs) fl"

definition arrive :: "request list \<Rightarrow> (request \<times> 'q api_answer list) list" where
  "arrive reqs = map (\<lambda>req. (req, [])) reqs"

subsection \<open>A request on its own\<close>

text \<open>
  \<open>plays\<close>: from the answers \<open>pre\<close> on, the calls the goroutine makes get the answers \<open>as\<close>.
  \<open>matches\<close>: the replayed program makes the calls of the direct one and ends with its result; it
  makes no call once it has stopped.
\<close>

fun plays ::
  "('s, 'q) k8s_client \<Rightarrow> ('q replay \<Rightarrow> 'r \<times> 'q replay) \<Rightarrow> 'q api_answer list \<Rightarrow> 'q api_answer list \<Rightarrow> 's \<Rightarrow> 's \<Rightarrow> bool" where
  "plays c prog pre [] s s' \<longleftrightarrow> s' = s"
| "plays c prog pre (a # as) s s' \<longleftrightarrow>
     (\<exists>call s1. rp_asks (snd (prog \<lparr>rp_given = pre, rp_asks = None\<rparr>)) = Some call
        \<and> issue c call s = (a, s1) \<and> plays c prog (pre @ [a]) as s1 s')"

definition matches ::
  "('s, 'q) k8s_client \<Rightarrow> ('q replay \<Rightarrow> 'r \<times> 'q replay) \<Rightarrow> ('s \<Rightarrow> 'r \<times> 's) \<Rightarrow> bool" where
  "matches c prog direct \<longleftrightarrow>
     (\<forall>r. rp_asks r \<noteq> None \<longrightarrow> snd (prog r) = r)
     \<and> (\<forall>s x s'. direct s = (x, s') \<longrightarrow>
          (\<exists>as. plays c prog [] as s s'
            \<and> (\<forall>rest. prog \<lparr>rp_given = as @ rest, rp_asks = None\<rparr> = (x, \<lparr>rp_given = rest, rp_asks = None\<rparr>))))"

lemma plays_append:
  "plays c prog pre as s s1 \<Longrightarrow> plays c prog (pre @ as) bs s1 s2 \<Longrightarrow> plays c prog pre (as @ bs) s s2"
  by (induction as arbitrary: pre s) auto

lemma plays_mono:
  assumes "\<And>pre call. rp_asks (snd (p \<lparr>rp_given = pre, rp_asks = None\<rparr>)) = Some call \<Longrightarrow>
    rp_asks (snd (q \<lparr>rp_given = pre, rp_asks = None\<rparr>)) = Some call"
  shows "plays c p pre as s s' \<Longrightarrow> plays c q pre as s s'"
  using assms by (induction as arbitrary: pre s) auto

lemma plays_shift:
  assumes "\<And>rest. p \<lparr>rp_given = as @ rest, rp_asks = None\<rparr> = q \<lparr>rp_given = rest, rp_asks = None\<rparr>"
  shows "plays c q pre bs s s' \<Longrightarrow> plays c p (as @ pre) bs s s'"
  using assms by (induction bs arbitrary: pre s) auto

lemma matches_return: "matches c (\<lambda>r. (x, r)) (\<lambda>s. (x, s))"
  by (auto simp: matches_def intro: exI[of _ "[]"])

lemma matches_bind:
  assumes "matches c p d" "\<And>y. matches c (k y) (e y)"
  shows "matches c (\<lambda>r. case_prod k (p r)) (\<lambda>s. case_prod e (d s))"
  unfolding matches_def
proof (intro conjI allI impI)
  have stop: "rp_asks r \<noteq> None \<Longrightarrow> snd (k y r) = r" for y r using assms(2) unfolding matches_def by blast
  have stop1: "rp_asks r \<noteq> None \<Longrightarrow> snd (p r) = r" for r using assms(1) unfolding matches_def by blast
  show "snd (case_prod k (p r)) = r" if "rp_asks r \<noteq> None" for r
    using stop[OF that] stop1[OF that] by (cases "p r") auto
  fix s x s' assume run: "case_prod e (d s) = (x, s')"
  obtain y s1 where d: "d s = (y, s1)" by fastforce
  obtain as where as: "plays c p [] as s s1"
    "\<And>rest. p \<lparr>rp_given = as @ rest, rp_asks = None\<rparr> = (y, \<lparr>rp_given = rest, rp_asks = None\<rparr>)"
    using assms(1) d unfolding matches_def by blast
  have "e y s1 = (x, s')" using run d by simp
  then obtain bs where bs: "plays c (k y) [] bs s1 s'"
    "\<And>rest. k y \<lparr>rp_given = bs @ rest, rp_asks = None\<rparr> = (x, \<lparr>rp_given = rest, rp_asks = None\<rparr>)"
    using assms(2) unfolding matches_def by blast
  have "plays c (\<lambda>r. case_prod k (p r)) [] as s s1"
    by (rule plays_mono[OF _ as(1)]) (auto simp: stop split: prod.split)
  moreover have "plays c (\<lambda>r. case_prod k (p r)) (as @ []) bs s1 s'"
    by (rule plays_shift[OF _ bs(1)]) (simp add: as(2))
  ultimately show "\<exists>as. plays c (\<lambda>r. case_prod k (p r)) [] as s s'
      \<and> (\<forall>rest. case_prod k (p \<lparr>rp_given = as @ rest, rp_asks = None\<rparr>) = (x, \<lparr>rp_given = rest, rp_asks = None\<rparr>))"
    using as(2) bs(2) by (intro exI[of _ "as @ bs"]) (auto intro: plays_append)
qed

lemma matches_apfst: "matches c p d \<Longrightarrow> matches c (\<lambda>r. apfst f (p r)) (\<lambda>s. apfst f (d s))"
  using matches_bind[of c p d "\<lambda>x r. (f x, r)" "\<lambda>x s. (f x, s)", OF _ matches_return]
  by (simp add: apfst_def map_prod_def)

lemma matches_ask:
  assumes "\<And>s. issue c call s = apfst A (d s)" "\<And>x. f (Some (A x)) = x"
  shows "matches c (\<lambda>r. apfst f (ask call r)) d"
proof -
  have "\<exists>as. plays c (\<lambda>r. apfst f (ask call r)) [] as s s'
      \<and> (\<forall>rest. apfst f (ask call \<lparr>rp_given = as @ rest, rp_asks = None\<rparr>) = (x, \<lparr>rp_given = rest, rp_asks = None\<rparr>))"
    if "d s = (x, s')" for s x s'
    using assms that by (intro exI[of _ "[A x]"]) (simp add: ask_def)
  then show ?thesis by (auto simp: matches_def ask_def)
qed

lemma matches_client:
  "matches c (ListHostedClusters replay_client ns sel) (ListHostedClusters c ns sel)"
  "matches c (ListNodePools replay_client ns sel) (ListNodePools c ns sel)"
  "matches c (ListClusterImageSets replay_client) (ListClusterImageSets c)"
  "matches c (GetSecret replay_client ns n) (GetSecret c ns n)"
  "matches c (CreateHostedCluster replay_client hc) (CreateHostedCluster c hc)"
  "matches c (CreateNodePool replay_client np) (CreateNodePool c np)"
  "matches c (DeleteHostedCluster replay_client hc) (DeleteHostedCluster c hc)"
  "matches c (DeleteNodePool replay_client np) (DeleteNodePool c np)"
  unfolding replay_client_def k8s_client.select_convs by (rule matches_ask, simp, simp)+

lemma matches_cases:
  "(\<And>a. y = Inl a \<Longrightarrow> matches c (\<lambda>r. p1 a r) (\<lambda>s. d1 a s)) \<Longrightarrow>
   (\<And>b. y = Inr b \<Longrightarrow> matches c (\<lambda>r. p2 b r) (\<lambda>s. d2 b s)) \<Longrightarrow>
   matches c (\<lambda>r. case y of Inl a \<Rightarrow> p1 a r | Inr b \<Rightarrow> p2 b r) (\<lambda>s. case y of Inl a \<Rightarrow> d1 a s | Inr b \<Rightarrow> d2 b s)"
  "(z = None \<Longrightarrow> matches c p3 d3) \<Longrightarrow> (\<And>a. z = Some a \<Longrightarrow> matches c (\<lambda>r. p4 a r) (\<lambda>s. d4 a s)) \<Longrightarrow>
   matches c (\<lambda>r. case z of None \<Rightarrow> p3 r | Some a \<Rightarrow> p4 a r) (\<lambda>s. case z of None \<Rightarrow> d3 s | Some a \<Rightarrow> d4 a s)"
  "(b \<Longrightarrow> matches c p5 d5) \<Longrightarrow> (\<not> b \<Longrightarrow> matches c p6 d6) \<Longrightarrow>
   matches c (\<lambda>r. if b then p5 r else p6 r) (\<lambda>s. if b then d5 s else d6 s)"
  "(l = [] \<Longrightarrow> matches c p7 d7) \<Longrightarrow> (\<And>x xs. l = x # xs \<Longrightarrow> matches c (\<lambda>r. p8 x xs r) (\<lambda>s. d8 x xs s)) \<Longrightarrow>
   matches c (\<lambda>r. case l of [] \<Rightarrow> p7 r | x # xs \<Rightarrow> p8 x xs r) (\<lambda>s. case l of [] \<Rightarrow> d7 s | x # xs \<Rightarrow> d8 x xs s)"
  "(\<And>x x'. q = (x, x') \<Longrightarrow> matches c (\<lambda>r. p9 x x' r) (\<lambda>s. d9 x x' s)) \<Longrightarrow>
   matches c (\<lambda>r. case q of (x, x') \<Rightarrow> p9 x x' r) (\<lambda>s. case q of (x, x') \<Rightarrow> d9 x x' s)"
  subgoal by (cases y) simp_all
  subgoal by (cases z) simp_all
  subgoal by (cases b) simp_all
  subgoal by (cases l) simp_all
  subgoal by (cases q) simp_all
  done

lemmas matches_rules = matches_return matches_cases matches_bind matches_client matches_apfst

lemma matches_find: "matches c (findByInstanceID replay_client ns iid) (findByInstanceID c ns iid)"
  unfolding findByInstanceID_def[abs_def] by (intro matches_rules)

lemma matches_convert: "matches c (HostedClusterToCluster replay_client cfg hc) (HostedClusterToCluster c cfg hc)"
proof -
  have kube: "matches c (ExtractKubeconfig replay_client hc) (ExtractKubeconfig c hc)"
    unfolding ExtractKubeconfig_def[abs_def] by (intro matches_rules)
  show ?thesis
    unfolding HostedClusterToCluster_def[abs_def] Let_def by (intro matches_rules kube)
qed

lemma matches_resolve: "matches c (ResolveReleaseImage replay_client cfg req) (ResolveReleaseImage c cfg req)"
  unfolding ResolveReleaseImage_def[abs_def] Resolve_def[abs_def] Let_def by (intro matches_rules)

lemma matches_create_resources:
  "matches c (create_resources replay_client now iid req hc np) (create_resources c now iid req hc np)"
  unfolding create_resources_def[abs_def] by (intro matches_rules)

lemma matches_create_cluster:
  "matches c (CreateCluster replay_client cfg now iid req pb) (CreateCluster c cfg now iid req pb)"
  unfolding CreateCluster_def[abs_def] Let_def
  by (intro matches_rules matches_resolve matches_find matches_create_resources)

lemma matches_create:
  "matches c (dispatcher_Create replay_client cfg qa services now iid req) (dispatcher_Create c cfg qa services now iid req)"
proof -
  have "matches c (\<lambda>r. case k of KubevirtService \<Rightarrow> kubevirt_Create replay_client cfg qa now iid req r
        | BaremetalService \<Rightarrow> baremetal_Create replay_client cfg now iid req r)
      (\<lambda>s. case k of KubevirtService \<Rightarrow> kubevirt_Create c cfg qa now iid req s
        | BaremetalService \<Rightarrow> baremetal_Create c cfg now iid req s)" for k
    by (cases k) (simp_all add: kubevirt_Create_def[abs_def] baremetal_Create_def[abs_def]
        matches_create_cluster matches_cases(1) matches_return)
  then show ?thesis unfolding dispatcher_Create_def[abs_def] by (intro matches_rules)
qed

lemma matches_get: "matches c (GetCluster replay_client cfg iid) (GetCluster c cfg iid)"
  unfolding GetCluster_def[abs_def] Let_def by (intro matches_rules matches_find matches_convert)

lemma matches_list: "matches c (ListClusters replay_client cfg n tok) (ListClusters c cfg n tok)"
proof -
  have each: "matches c (convert_each replay_client cfg hcs) (convert_each c cfg hcs)" for hcs
  proof (induction hcs)
    case (Cons hc hcs)
    show ?case unfolding convert_each.simps[abs_def] Let_def by (intro matches_rules matches_convert Cons)
  qed (simp add: matches_return)
  show ?thesis unfolding ListClusters_def[abs_def] Let_def by (intro matches_rules each)
qed

lemma matches_delete: "matches c (DeleteCluster replay_client cfg iid) (DeleteCluster c cfg iid)"
proof -
  have each: "matches c (delete_each replay_client nps) (delete_each c nps)" for nps
  proof (induction nps)
    case (Cons np nps)
    show ?case unfolding delete_each.simps[abs_def] by (intro matches_rules Cons)
  qed (simp add: matches_return)
  have "matches c (deleteNodePools replay_client ns i) (deleteNodePools c ns i)" for ns i
    unfolding deleteNodePools_def[abs_def] by (intro matches_rules each)
  then show ?thesis unfolding DeleteCluster_def[abs_def] by (intro matches_rules matches_find)
qed

lemma matches_request: "matches c (serve_request replay_client cfg qa enabled req) (serve_request c cfg qa enabled req)"
  by (cases req) (simp_all add: serve_request.simps[abs_def] dispatcher_methods matches_apfst
      matches_create matches_get matches_list matches_delete)

lemma plays_flight:
  assumes "plays c (serve_request replay_client cfg qa enabled req) pre as s s'"
  shows "rtranclp (flight_step c view cfg qa enabled) (s, [(req, pre)]) (s', [(req, pre @ as)])"
  using assms
proof (induction as arbitrary: pre s)
  case (Cons a as)
  let ?p = "serve_request replay_client cfg qa enabled req"
  from Cons.prems obtain call s1 where call: "rp_asks (snd (?p \<lparr>rp_given = pre, rp_asks = None\<rparr>)) = Some call"
    and iss: "issue c call s = (a, s1)" and rest: "plays c ?p (pre @ [a]) as s1 s'" by auto
  have "position cfg qa enabled (req, pre) = Inl call"
    using call by (simp add: position_def upcoming_def case_prod_beta')
  then have "flight_step c view cfg qa enabled (s, [(req, pre)]) (s1, [(req, pre @ [a])])"
    using step_call[of 0 "[(req, pre)]" req pre cfg qa enabled call c s a s1 view] iss by simp
  then show ?case using Cons.IH[OF rest] by simp
qed simp

text \<open>
  A request that is alone does what its operation does.  Its goroutine makes finitely many calls,
  ends, and leaves the hub and the reply of the operation run in one piece; so the interleavings
  below are interleavings of the very operations the other properties are about.
\<close>

theorem alone_is_direct:
  assumes "serve_request c cfg qa enabled req s = (result, s')"
  shows "\<exists>as. rtranclp (flight_step c view cfg qa enabled) (s, arrive [req]) (s', [(req, as)])
    \<and> position cfg qa enabled (req, as) = Inr result"
proof -
  obtain as where as: "plays c (serve_request replay_client cfg qa enabled req) [] as s s'"
    "\<And>rest. serve_request replay_client cfg qa enabled req \<lparr>rp_given = as @ rest, rp_asks = None\<rparr>
       = (result, \<lparr>rp_given = rest, rp_asks = None\<rparr>)"
    using matches_request assms unfolding matches_def by metis
  then show ?thesis
    using plays_flight[OF as(1)] as(2)[of "[]"]
    by (intro exI[of _ as]) (simp add: arrive_def position_def upcoming_def)
qed

theorem alone_is_direct_witness:
  "\<exists>as s' cl. rtranclp (flight_step mem_client id sample_cfg nat_quantities [''kubevirt''])
       (sample_hub, arrive [ReqCreate ''id-9'' sized_req 1]) (s', [(ReqCreate ''id-9'' sized_req 1, as)])
     \<and> position sample_cfg nat_quantities [''kubevirt''] (ReqCreate ''id-9'' sized_req 1, as) = Inr (Created (Inr cl))"
proof -
  obtain cl s' where "serve_request mem_client sample_cfg nat_quantities [''kubevirt''] (ReqCreate ''id-9'' sized_req 1)
      sample_hub = (Created (Inr cl), s')"
    using sample_create by (auto simp: dispatcher_methods)
  from alone_is_direct[OF this, of id] show ?thesis by blast
qed

subsection \<open>The calls a request makes\<close>

definition asks_only :: "('q api_call \<Rightarrow> bool) \<Rightarrow> ('q replay \<Rightarrow> 'r \<times> 'q replay) \<Rightarrow> bool" where
  "asks_only P prog \<longleftrightarrow> (\<forall>r call. rp_asks (snd (prog r)) = Some call \<longrightarrow> rp_asks r = Some call \<or> P call)"

lemma asks_return: "asks_only P (\<lambda>r. (x, r))"
  by (simp add: asks_only_def)

lemma asks_bind: "asks_only P p \<Longrightarrow> (\<And>y. asks_only P (k y)) \<Longrightarrow> asks_only P (\<lambda>r. case_prod k (p r))"
  by (force simp: asks_only_def split: prod.splits)

lemma asks_apfst: "asks_only P p \<Longrightarrow> asks_only P (\<lambda>r. apfst f (p r))"
  by (simp add: asks_only_def)

lemma asks_cases:
  "(\<And>a. y = Inl a \<Longrightarrow> asks_only P (\<lambda>r. p1 a r)) \<Longrightarrow> (\<And>b. y = Inr b \<Longrightarrow> asks_only P (\<lambda>r. p2 b r)) \<Longrightarrow>
   asks_only P (\<lambda>r. case y of Inl a \<Rightarrow> p1 a r | Inr b \<Rightarrow> p2 b r)"
  "(z = None \<Longrightarrow> asks_only P p3) \<Longrightarrow> (\<And>a. z = Some a \<Longrightarrow> asks_only P (\<lambda>r. p4 a r)) \<Longrightarrow>
   asks_only P (\<lambda>r. case z of None \<Rightarrow> p3 r | Some a \<Rightarrow> p4 a r)"
  "(b \<Longrightarrow> asks_only P p5) \<Longrightarrow> (\<not> b \<Longrightarrow> asks_only P p6) \<Longrightarrow> asks_only P (\<lambda>r. if b then p5 r else p6 r)"
  "(l = [] \<Longrightarrow> asks_only P p7) \<Longrightarrow> (\<And>x xs. l = x # xs \<Longrightarrow> asks_only P (\<lambda>r. p8 x xs r)) \<Longrightarrow>
   asks_only P (\<lambda>r. case l of [] \<Rightarrow> p7 r | x # xs \<Rightarrow> p8 x xs r)"
  "(\<And>x x'. q = (x, x') \<Longrightarrow> asks_only P (\<lambda>r. p9 x x' r)) \<Longrightarrow> asks_only P (\<lambda>r. case q of (x, x') \<Rightarrow> p9 x x' r)"
  subgoal by (cases y) simp_all
  subgoal by (cases z) simp_all
  subgoal by (cases b) simp_all
  subgoal by (cases l) simp_all
  subgoal by (cases q) simp_all
  done

text \<open>The kinds of call the service makes; \<open>Q\<close> is what is known of the HostedClusters it creates.\<close>

fun service_call :: "(HostedCluster \<Rightarrow> bool) \<Rightarrow> 'q api_call \<Rightarrow> bool" where
  "service_call Q (CallCreateHostedCluster hc) \<longleftrightarrow> Q hc"
| "service_call Q (CallCreateSecret x) \<longleftrightarrow> False"
| "service_call Q (CallUpdateSecret x) \<longleftrightarrow> False"
| "service_call Q (CallListKind g) \<longleftrightarrow> False"
| "service_call Q call \<longleftrightarrow> True"

lemma asks_client:
  "asks_only (service_call Q) (ListHostedClusters replay_client ns sel)"
  "asks_only (service_call Q) (ListNodePools replay_client ns sel)"
  "asks_only (service_call Q) (ListClusterImageSets replay_client)"
  "asks_only (service_call Q) (GetSecret replay_client ns n)"
  "Q hc \<Longrightarrow> asks_only (service_call Q) (CreateHostedCluster replay_client hc)"
  "asks_only (service_call Q) (CreateNodePool replay_client np)"
  "asks_only (service_call Q) (DeleteHostedCluster replay_client hc)"
  "asks_only (service_call Q) (DeleteNodePool replay_client np)"
  by (auto simp: asks_only_def replay_client_def ask_def split: list.splits)

lemmas asks_rules = asks_return asks_cases asks_bind asks_client asks_apfst

lemma asks_find: "asks_only (service_call Q) (findByInstanceID replay_client ns iid)"
  unfolding findByInstanceID_def[abs_def] by (intro asks_rules)

lemma asks_convert: "asks_only (service_call Q) (HostedClusterToCluster replay_client cfg hc)"
  unfolding HostedClusterToCluster_def[abs_def] ExtractKubeconfig_def[abs_def] Let_def by (intro asks_rules)

lemma asks_get: "asks_only (service_call Q) (GetCluster replay_client cfg iid)"
  unfolding GetCluster_def[abs_def] Let_def by (intro asks_rules asks_find asks_convert)

lemma asks_list: "asks_only (service_call Q) (ListClusters replay_client cfg n tok)"
proof -
  have "asks_only (service_call Q) (convert_each replay_client cfg hcs)" for hcs
  proof (induction hcs)
    case (Cons hc hcs)
    show ?case unfolding convert_each.simps[abs_def] Let_def by (intro asks_rules asks_convert Cons)
  qed (simp add: asks_return)
  then show ?thesis unfolding ListClusters_def[abs_def] Let_def by (intro asks_rules)
qed

lemma asks_delete: "asks_only (service_call Q) (DeleteCluster replay_client cfg iid)"
proof -
  have each: "asks_only (service_call Q) (delete_each replay_client nps)" for nps
  proof (induction nps)
    case (Cons np nps)
    show ?case unfolding delete_each.simps[abs_def] by (intro asks_rules Cons)
  qed (simp add: asks_return)
  have "asks_only (service_call Q) (deleteNodePools replay_client ns i)" for ns i
    unfolding deleteNodePools_def[abs_def] by (intro asks_rules each)
  then show ?thesis unfolding DeleteCluster_def[abs_def] by (intro asks_rules asks_find)
qed

lemma asks_resolve: "asks_only (service_call Q) (ResolveReleaseImage replay_client cfg req)"
  unfolding ResolveReleaseImage_def[abs_def] Resolve_def[abs_def] Let_def by (intro asks_rules)

lemma asks_create_resources:
  "Q hc \<Longrightarrow> asks_only (service_call Q) (create_resources replay_client now iid req hc np)"
  unfolding create_resources_def[abs_def] by (intro asks_rules) assumption

context platform_builder begin

lemma asks_create_cluster:
  assumes "namespace = cc_ClusterNamespace cfg"
  shows "asks_only (service_call (\<lambda>hc. \<exists>i. created_hc cfg iid req i hc)) (CreateCluster replay_client cfg now iid req pb)"
  unfolding CreateCluster_def[abs_def] Let_def sent_hc_def[symmetric]
  by (intro asks_rules asks_resolve asks_find asks_create_resources exI) (rule sent_hc_created[OF assms])

end

lemma asks_create:
  "asks_only (service_call (\<lambda>hc. \<exists>i. created_hc cfg iid req i hc))
     (dispatcher_Create replay_client cfg qa services now iid req)"
proof -
  have "asks_only (service_call (\<lambda>hc. \<exists>i. created_hc cfg iid req i hc))
      (\<lambda>r. case k of KubevirtService \<Rightarrow> kubevirt_Create replay_client cfg qa now iid req r
        | BaremetalService \<Rightarrow> baremetal_Create replay_client cfg now iid req r)" for k
    by (cases k) (simp_all add: kubevirt_Create_def[abs_def] baremetal_Create_def[abs_def]
        kubevirt.asks_create_cluster baremetal.asks_create_cluster asks_cases(1) asks_return)
  then show ?thesis unfolding dispatcher_Create_def[abs_def] by (intro asks_rules)
qed

text \<open>
  Every call of a request in flight is one the service makes, and only a creation creates a
  HostedCluster, with the id of the request.
\<close>

definition creates_as :: "ClusterConfig \<Rightarrow> request \<Rightarrow> HostedCluster \<Rightarrow> bool" where
  "creates_as cfg rq hc \<longleftrightarrow>
     (case rq of ReqCreate iid req now \<Rightarrow> \<exists>i. created_hc cfg iid req i hc | _ \<Rightarrow> False)"

lemma position_calls:
  assumes "position cfg qa enabled (rq, as) = Inl call"
  shows "service_call (creates_as cfg rq) call"
proof -
  have "asks_only (service_call (creates_as cfg rq)) (serve_request replay_client cfg qa enabled rq)"
    by (cases rq) (simp_all add: serve_request.simps[abs_def] dispatcher_methods creates_as_def[abs_def]
        asks_apfst asks_create asks_get asks_list asks_delete)
  then show ?thesis
    using assms by (auto simp: asks_only_def position_def upcoming_def split: prod.splits option.splits)
      (metis option.distinct(1) replay.select_convs(2) snd_conv)
qed

subsection \<open>What a call does to the hub\<close>

lemma no_instance_evolves:
  assumes "no_instance cfg iid h" "hub_evolves h h'"
  shows "no_instance cfg iid h'"
proof -
  obtain P f where hcs: "hub_hcs h' = map f (filter P (hub_hcs h))"
    and f: "\<And>x. hc_key (f x) = hc_key x" "\<And>x. hc_Labels (f x) = hc_Labels x"
    using assms(2) unfolding hub_evolves_def by metis
  then show ?thesis using assms(1) has_instance_key[OF f] by (auto simp: no_instance_def)
qed

lemma apfst_eq: "apfst f p = (a, s') \<longleftrightarrow> (\<exists>x. p = (x, s') \<and> a = f x)"
  by (cases p) auto

lemma delete_evolves:
  assumes "hub_api c view"
  shows "DeleteHostedCluster c hc s = (r, s') \<Longrightarrow> hub_evolves (view s) (view s')"
    "DeleteNodePool c np s = (q, s') \<Longrightarrow> hub_evolves (view s) (view s')"
proof -
  show "hub_evolves (view s) (view s')" if d: "DeleteHostedCluster c hc s = (r, s')"
  proof (cases r)
    case None
    from delete_hc_ok[OF assms d[unfolded None]] hc_gone_evolves show ?thesis by metis
  qed (use delete_hc_error[OF assms] d in auto)
  show "hub_evolves (view s) (view s')" if d: "DeleteNodePool c np s = (q, s')"
  proof (cases q)
    case None
    from delete_np_ok[OF assms d[unfolded None]] np_gone_evolves show ?thesis by metis
  qed (use delete_np_error(1)[OF assms] d in auto)
qed

text \<open>One call of the service changes nothing, evolves the hub, or adds one object under a free name.\<close>

lemma issue_effect:
  assumes "hub_api c view" "issue c call s = (a, s')" "service_call Q call"
  shows "hub_evolves (view s) (view s')
    \<or> (\<exists>hc hc'. call = CallCreateHostedCluster hc \<and> hc_stored hc hc' \<and> hc_key hc \<notin> hc_key ` set (hub_hcs (view s))
         \<and> view s' = (view s)\<lparr>hub_hcs := hc' # hub_hcs (view s)\<rparr>)
    \<or> (\<exists>np. np_key np \<notin> np_key ` set (hub_nps (view s)) \<and> view s' = (view s)\<lparr>hub_nps := np # hub_nps (view s)\<rparr>)"
proof (cases call)
  case (CallCreateHostedCluster hc)
  then obtain r where r: "CreateHostedCluster c hc s = (r, s')" using assms(2) by (auto simp: apfst_eq)
  show ?thesis
  proof (cases r)
    case None
    then show ?thesis using create_hc_ok[OF assms(1) r[unfolded None]] CallCreateHostedCluster by metis
  qed (use create_hc_error(1)[OF assms(1)] r in auto)
next
  case (CallCreateNodePool np)
  then obtain r where r: "CreateNodePool c np s = (r, s')" using assms(2) by (auto simp: apfst_eq)
  show ?thesis
  proof (cases r)
    case None
    then obtain np' where "np_key np \<notin> np_key ` set (hub_nps (view s))" "np_stored np np'"
      "view s' = (view s)\<lparr>hub_nps := np' # hub_nps (view s)\<rparr>" using create_np_ok[OF assms(1)] r by metis
    then show ?thesis by (intro disjI2 exI[of _ np']) (simp add: np_stored_def)
  qed (use create_np_error[OF assms(1)] r in auto)
next
  case (CallDeleteHostedCluster hc)
  then obtain r where r: "DeleteHostedCluster c hc s = (r, s')" using assms(2) by (auto simp: apfst_eq)
  show ?thesis by (rule disjI1, rule delete_evolves(1)[OF assms(1) r])
next
  case (CallDeleteNodePool np)
  then obtain r where r: "DeleteNodePool c np s = (r, s')" using assms(2) by (auto simp: apfst_eq)
  show ?thesis by (rule disjI1, rule delete_evolves(2)[OF assms(1) r])
qed (use assms(2,3) in \<open>auto simp: apfst_eq dest!: read_view[OF assms(1)]\<close>)

lemma fresh_np_consistent:
  "consistent cfg h \<Longrightarrow> np_key np \<notin> np_key ` set (hub_nps h) \<Longrightarrow> consistent cfg (h\<lparr>hub_nps := np # hub_nps h\<rparr>)"
  by (simp add: consistent_def)

lemma call_consistent:
  assumes "hub_api c view" "issue c call s = (a, s')" "consistent cfg (view s)"
    and "service_call (\<lambda>hc. \<exists>i iid req. created_hc cfg iid req i hc \<and> no_instance cfg iid (view s)) call"
  shows "consistent cfg (view s')"
  using issue_effect[OF assms(1,2,4)]
proof (elim disjE exE conjE)
  fix hc hc' assume call: "call = CallCreateHostedCluster hc" and st: "hc_stored hc hc'"
    and k: "hc_key hc \<notin> hc_key ` set (hub_hcs (view s))" and v: "view s' = (view s)\<lparr>hub_hcs := hc' # hub_hcs (view s)\<rparr>"
  from assms(4) call obtain i iid req where c: "created_hc cfg iid req i hc" "no_instance cfg iid (view s)" by auto
  show ?thesis
    unfolding v using add_consistent(1)[OF assms(3) c(2) created_stored[OF st c(1)]] hc_stored_fields(1)[OF st] k by simp
qed (auto simp: consistent_evolves[OF assms(3)] fresh_np_consistent[OF assms(3)])

lemma call_no_instance:
  assumes "hub_api c view" "issue c call s = (a, s')" "no_instance cfg iid (view s)"
    and "service_call (\<lambda>hc. \<not> has_instance (cc_ClusterNamespace cfg) iid hc) call"
  shows "no_instance cfg iid (view s')"
  using issue_effect[OF assms(1,2,4)]
proof (elim disjE exE conjE)
  fix hc hc' assume call: "call = CallCreateHostedCluster hc" and st: "hc_stored hc hc'"
    and v: "view s' = (view s)\<lparr>hub_hcs := hc' # hub_hcs (view s)\<rparr>"
  have "\<not> has_instance (cc_ClusterNamespace cfg) iid hc'"
    using assms(4) call hc_stored_fields[OF st] by (simp add: has_instance_def)
  then show ?thesis using assms(3) by (simp add: v no_instance_def)
qed (use no_instance_evolves[OF assms(3)] assms(3) in \<open>auto simp: no_instance_def\<close>)

subsection \<open>A creation looks for its id right before it creates\<close>

lemma replay_calls:
  assumes "rp_asks r = None"
  shows "ListHostedClusters replay_client ns sel r = (case rp_given r of
       [] \<Rightarrow> (Inl stopped, r\<lparr>rp_asks := Some (CallListHostedClusters ns sel)\<rparr>)
     | a # as \<Rightarrow> (case a of HostedClusters x \<Rightarrow> x | _ \<Rightarrow> Inl stopped, r\<lparr>rp_given := as\<rparr>))"
    "ListClusterImageSets replay_client r = (case rp_given r of
       [] \<Rightarrow> (Inl stopped, r\<lparr>rp_asks := Some CallListClusterImageSets\<rparr>)
     | a # as \<Rightarrow> (case a of ImageSets x \<Rightarrow> x | _ \<Rightarrow> Inl stopped, r\<lparr>rp_given := as\<rparr>))"
  using assms by (simp_all add: replay_client_def ask_def split: list.split)

lemma create_resources_first:
  assumes "rp_asks r = None" "rp_asks (snd (create_resources replay_client now iid req hc np r)) = Some (CallCreateHostedCluster h)"
  shows "rp_given r = []"
  using assms
  by (cases "rp_given r")
    (auto simp: create_resources_def replay_client_def ask_def split: option.splits list.splits if_splits)

lemma find_replay:
  assumes "rp_asks r = None"
  shows "rp_given r = [] \<Longrightarrow> findByInstanceID replay_client ns iid r
      = (Inl (NewInternalError ''failed to list clusters'' (K8sError stopped)),
         r\<lparr>rp_asks := Some (CallListHostedClusters ns [(LabelInstanceID, iid)])\<rparr>)"
    "rp_given r = a # as \<Longrightarrow> snd (findByInstanceID replay_client ns iid r) = r\<lparr>rp_given := as\<rparr>"
    "findByInstanceID replay_client ns iid r = (Inl e, r') \<Longrightarrow> domain_type e = Some ErrorTypeNOTFOUND \<Longrightarrow>
     \<exists>as. rp_given r = HostedClusters (Inr []) # as"
  using assms
  by (auto simp: findByInstanceID_def replay_calls stopped_def split: list.splits sum.splits prod.splits api_answer.splits)

lemma resolve_replay:
  assumes "rp_asks r = None" "ResolveReleaseImage replay_client cfg req r = (x, r')" "rp_asks r' = None"
  shows "r' = r \<and> (\<forall>as. ResolveReleaseImage replay_client cfg req (r\<lparr>rp_given := as\<rparr>) = (x, r\<lparr>rp_given := as\<rparr>))
    \<or> (\<exists>a as. rp_given r = a # as \<and> r' = r\<lparr>rp_given := as\<rparr>
        \<and> (\<forall>bs. ResolveReleaseImage replay_client cfg req (r\<lparr>rp_given := a # bs\<rparr>) = (x, r\<lparr>rp_given := bs\<rparr>)))"
  using assms
  by (auto simp: ResolveReleaseImage_def Resolve_def Let_def replay_calls
      split: option.splits sum.splits list.splits prod.splits if_splits)

text \<open>The answer to the search for the id is the last one before the call that creates.\<close>

lemma create_cluster_first:
  assumes "rp_asks r = None"
    and "rp_asks (snd (CreateCluster replay_client cfg now iid req pb r)) = Some (CallCreateHostedCluster h)"
  shows "\<exists>pre. rp_given r = pre @ [HostedClusters (Inr [])]
    \<and> rp_asks (snd (CreateCluster replay_client cfg now iid req pb (r\<lparr>rp_given := pre\<rparr>)))
        = Some (CallListHostedClusters (cc_ClusterNamespace cfg) [(LabelInstanceID, iid)])"
proof -
  let ?ns = "cc_ClusterNamespace cfg"
  obtain x r1 where res: "ResolveReleaseImage replay_client cfg req r = (x, r1)" by fastforce
  obtain y r2 where find: "findByInstanceID replay_client ?ns iid r1 = (y, r2)" by fastforce
  have quiet1: "rp_asks r1 \<noteq> Some (CallCreateHostedCluster h)"
    using asks_resolve[of "\<lambda>_. False" cfg req] res assms(1) by (auto simp: asks_only_def dest!: spec[of _ r])
  have quiet2: "rp_asks r2 \<noteq> Some (CallCreateHostedCluster h)"
    using asks_find[of "\<lambda>_. False" ?ns iid] find quiet1 by (auto simp: asks_only_def dest!: spec[of _ r1])
  have dom: "ResolveBaseDomain req (cc_BaseDomain cfg) \<noteq> []" using assms by (auto simp: CreateCluster_def)
  obtain img where x: "x = Inr img" using assms(2) dom res quiet1 by (cases x) (auto simp: CreateCluster_def)
  obtain e where y: "y = Inl e" "domain_type e = Some ErrorTypeNOTFOUND"
    using assms(2) dom res x find quiet2 by (auto simp: CreateCluster_def split: sum.splits if_splits)
  obtain hc np where run: "snd (CreateCluster replay_client cfg now iid req pb r)
      = snd (create_resources replay_client now iid req hc np r2)"
    using dom res x find y by (simp add: CreateCluster_def Let_def)
  have running: "rp_asks r2 = None"
    using matches_create_resources assms(2) run quiet2 unfolding matches_def by metis
  then have r1: "rp_asks r1 = None"
    using matches_find find unfolding matches_def by (metis snd_conv)
  obtain bs where bs: "rp_given r1 = HostedClusters (Inr []) # bs" using find_replay(3)[OF r1] find y by blast
  have "rp_given r2 = []" using create_resources_first[OF running] assms(2) run by simp
  then have bs': "rp_given r1 = [HostedClusters (Inr [])]" using find_replay(2)[OF r1 bs, of ?ns iid] find bs by simp
  have end_find: "rp_asks (snd (CreateCluster replay_client cfg now iid req pb q)) = Some (CallListHostedClusters ?ns [(LabelInstanceID, iid)])"
    if "ResolveReleaseImage replay_client cfg req q = (x, q')" "rp_given q' = []" "rp_asks q' = None" for q q'
    using that dom x find_replay(1)[OF that(3,2), of ?ns iid] by (simp add: CreateCluster_def)
  show ?thesis
    using resolve_replay[OF assms(1) res r1] bs' r1
    by (elim disjE exE conjE) (auto intro!: end_find exI[of _ "[]"] exI[of _ "[a]" for a])
qed

lemma position_first:
  assumes "position cfg qa enabled (ReqCreate iid req now, as) = Inl (CallCreateHostedCluster h)"
  shows "\<exists>pre. as = pre @ [HostedClusters (Inr [])] \<and> position cfg qa enabled (ReqCreate iid req now, pre)
    = Inl (CallListHostedClusters (cc_ClusterNamespace cfg) [(LabelInstanceID, iid)])"
proof -
  let ?create = "dispatcher_Create replay_client cfg qa (dispatcher_New enabled) now iid req"
  have pos: "position cfg qa enabled (ReqCreate iid req now, bs) = Inl call \<longleftrightarrow>
      rp_asks (snd (?create \<lparr>rp_given = bs, rp_asks = None\<rparr>)) = Some call" for bs call
    by (auto simp: position_def upcoming_def dispatcher_methods apfst_def map_prod_def
        split: prod.splits option.splits)
  have "\<exists>pre. as = pre @ [HostedClusters (Inr [])] \<and> rp_asks (snd (?create \<lparr>rp_given = pre, rp_asks = None\<rparr>))
      = Some (CallListHostedClusters (cc_ClusterNamespace cfg) [(LabelInstanceID, iid)])"
    using assms create_cluster_first[of "\<lparr>rp_given = as, rp_asks = None\<rparr>" cfg now iid req _ h]
    unfolding pos
    by (auto simp: dispatcher_Create_def kubevirt_Create_def baremetal_Create_def
        split: prod.splits option.splits platform_creator.splits sum.splits)
  then show ?thesis unfolding pos .
qed

fun created_id :: "request \<Rightarrow> string list" where
  "created_id (ReqCreate iid req now) = [iid]"
| "created_id _ = []"

lemma created_ids_differ:
  assumes "distinct (concat (map created_id reqs))" "m < length reqs" "n < length reqs" "m \<noteq> n"
    and "reqs ! m = ReqCreate i ri ti" "reqs ! n = ReqCreate j rj tj"
  shows "i \<noteq> j"
  using assms
proof (induction reqs arbitrary: m n i j ri rj ti tj)
  case (Cons rq reqs)
  have later: "k \<in> set (concat (map created_id reqs))" if "l < length reqs" "reqs ! l = ReqCreate k rk tk" for l k rk tk
    using nth_mem[OF that(1)] that(2) by (auto intro!: bexI[of _ "reqs ! l"])
  show ?case
    using Cons.prems Cons.IH later by (cases m; cases n) (auto, fastforce+)
qed simp

definition flight_ok :: "ClusterConfig \<Rightarrow> 'q quantity_api \<Rightarrow> string list \<Rightarrow> request list \<Rightarrow> ('s \<Rightarrow> 'q hub) \<Rightarrow> ('s, 'q) flight \<Rightarrow> bool" where
  "flight_ok cfg qa enabled reqs view fl \<longleftrightarrow>
     consistent cfg (view (fst fl)) \<and> map fst (snd fl) = reqs
     \<and> (\<forall>n iid req now h. n < length reqs \<and> reqs ! n = ReqCreate iid req now
          \<and> position cfg qa enabled (snd fl ! n) = Inl (CallCreateHostedCluster h) \<longrightarrow> no_instance cfg iid (view (fst fl)))"

lemma flight_step_ok:
  assumes "hub_api c view" "distinct (concat (map created_id reqs))"
    and "flight_step c view cfg qa enabled fl fl'" "flight_ok cfg qa enabled reqs view fl"
  shows "flight_ok cfg qa enabled reqs view fl'"
  using assms(3)
proof cases
  case (step_hub s s' gs)
  then show ?thesis
    using assms(4) consistent_evolves no_instance_evolves unfolding flight_ok_def by (simp, blast)
next
  case (step_call n gs rq as call s a s')
  have ok: "consistent cfg (view s)" "map fst gs = reqs" using assms(4) step_call(1) by (simp_all add: flight_ok_def)
  have about_n: "n < length reqs" "reqs ! n = rq" using ok(2) step_call(3,4) by auto
  have free: "no_instance cfg iid (view s)"
    if "m < length reqs" "reqs ! m = ReqCreate iid req now" "position cfg qa enabled (gs ! m) = Inl (CallCreateHostedCluster h)" for m iid req now h
    using assms(4) that step_call(1) by (auto simp: flight_ok_def)
  have kind: "service_call (creates_as cfg rq) call" by (rule position_calls[OF step_call(5)])
  have mono: "service_call Q call" if "\<And>h. call = CallCreateHostedCluster h \<Longrightarrow> creates_as cfg rq h \<Longrightarrow> Q h" for Q
    using kind that by (cases call) auto
  have "service_call (\<lambda>hc. \<exists>i iid req. created_hc cfg iid req i hc \<and> no_instance cfg iid (view s)) call"
    using free[OF about_n(1)] about_n(2) step_call(4,5)
    by (intro mono) (auto simp: creates_as_def split: request.splits)
  note cons = call_consistent[OF assms(1) step_call(6) ok(1) this]
  have "no_instance cfg iid (view s')"
    if m: "m < length reqs" "reqs ! m = ReqCreate iid req now"
      and pos: "position cfg qa enabled (gs[n := (rq, as @ [a])] ! m) = Inl (CallCreateHostedCluster h)" for m iid req now h
  proof (cases "m = n")
    case True
    then have "position cfg qa enabled (ReqCreate iid req now, as @ [a]) = Inl (CallCreateHostedCluster h)"
      using pos m step_call(3) about_n by simp
    from position_first[OF this] have a: "a = HostedClusters (Inr [])"
      and "position cfg qa enabled (rq, as) = Inl (CallListHostedClusters (cc_ClusterNamespace cfg) [(LabelInstanceID, iid)])"
      using m True about_n by auto
    then have "ListHostedClusters c (cc_ClusterNamespace cfg) [(LabelInstanceID, iid)] s = (Inr [], s')"
      using step_call(5,6) by (auto simp: apfst_eq)
    from list_hcs[OF assms(1) this] read_view(1)[OF assms(1) this] show ?thesis
      by (auto simp: no_instance_def filter_empty_conv matches_instance)
  next
    case False
    have "service_call (\<lambda>hc. \<not> has_instance (cc_ClusterNamespace cfg) iid hc) call"
      using created_ids_differ[OF assms(2) m(1) about_n(1) False m(2)] about_n(2)
      by (intro mono) (auto simp: creates_as_def created_hc_def has_instance_def split: request.splits)
    then show ?thesis using call_no_instance[OF assms(1) step_call(6) free] m pos False by simp
  qed
  then show ?thesis
    using cons ok(2) about_n step_call(2,3) by (auto simp: flight_ok_def map_update list_update_same_conv)
qed

text \<open>
  C4: creations with different ids cannot disturb each other.  However the calls of any number of
  requests interleave, with each other and with the controllers of the hub, no two HostedClusters
  get the same instance id, as long as no two of the creations in flight ask for the same one.
\<close>

theorem distinct_ids_stay_unique:
  assumes "hub_api c view" "consistent cfg (view s)" "distinct (concat (map created_id reqs))"
    and "rtranclp (flight_step c view cfg qa enabled) (s, arrive reqs) (s', gs)"
  shows "consistent cfg (view s')"
proof -
  have "position cfg qa enabled (rq, []) \<noteq> Inl (CallCreateHostedCluster h)" for rq h
    using position_calls[of cfg qa enabled rq "[]" "CallCreateHostedCluster h"] position_first[of cfg qa enabled _ _ _ "[]" h]
    by (auto simp: creates_as_def split: request.splits)
  then have "flight_ok cfg qa enabled reqs view (s, arrive reqs)"
    using assms(2) by (auto simp: flight_ok_def arrive_def comp_def)
  with assms(4) have "flight_ok cfg qa enabled reqs view (s', gs)"
    by (induction rule: rtranclp_induct) (auto intro: flight_step_ok[OF assms(1,3)])
  then show ?thesis by (simp add: flight_ok_def)
qed

subsection \<open>Schedules\<close>

text \<open>A goroutine's turn: its next call, if it has one.\<close>

definition take_turn ::
  "('s, 'q) k8s_client \<Rightarrow> ClusterConfig \<Rightarrow> 'q quantity_api \<Rightarrow> string list \<Rightarrow> nat \<Rightarrow> ('s, 'q) flight \<Rightarrow> ('s, 'q) flight" where
  "take_turn c cfg qa enabled n fl =
     (case fl of (s, gs) \<Rightarrow>
        if n < length gs then
          (case position cfg qa enabled (gs ! n) of
             Inl call \<Rightarrow> (let (a, s') = issue c call s in (s', gs[n := (fst (gs ! n), snd (gs ! n) @ [a])]))
           | Inr _ \<Rightarrow> fl)
        else fl)"

primrec run_schedule ::
  "('s, 'q) k8s_client \<Rightarrow> ClusterConfig \<Rightarrow> 'q quantity_api \<Rightarrow> string list \<Rightarrow> nat list \<Rightarrow> ('s, 'q) flight \<Rightarrow> ('s, 'q) flight" where
  "run_schedule c cfg qa enabled [] fl = fl"
| "run_schedule c cfg qa enabled (n # ns) fl = run_schedule c cfg qa enabled ns (take_turn c cfg qa enabled n fl)"

lemma turn_reachable: "rtranclp (flight_step c view cfg qa enabled) fl (take_turn c cfg qa enabled n fl)"
proof (cases fl)
  case (Pair s gs)
  show ?thesis
  proof (cases "n < length gs")
    case True
    obtain rq as where g: "gs ! n = (rq, as)" by fastforce
    show ?thesis
    proof (cases "position cfg qa enabled (rq, as)")
      case (Inl call)
      obtain a s' where "issue c call s = (a, s')" by fastforce
      with Inl g True Pair show ?thesis
        by (auto simp: take_turn_def intro!: r_into_rtranclp step_call)
    qed (simp add: take_turn_def Pair g)
  qed (simp add: take_turn_def Pair)
qed

lemma schedule_reachable: "rtranclp (flight_step c view cfg qa enabled) fl (run_schedule c cfg qa enabled ns fl)"
proof (induction ns arbitrary: fl)
  case (Cons n ns)
  show ?case using rtranclp_trans[OF turn_reachable Cons] by simp
qed simp

text \<open>Requests with a release image hint, for the executions below.\<close>

definition hinted_req :: "string \<Rightarrow> Cluster" where
  "hinted_req name = sized_req\<lparr>cl_Spec := (cl_Spec sized_req)\<lparr>
     cs_Metadata := \<lparr>cm_Labels = None, cm_Name = name\<rparr>,
     cs_ProviderHints := Some
     \<lparr>ph_Acm = Some \<lparr>ah_AgentLabels = None, ah_BaseDomain = None, ah_InfraEnv = None,
        ah_Platform = None, ah_ReleaseImage = Some ''r:4.17.3''\<rparr>, ph_AdditionalProperties = []\<rparr>\<rparr>\<rparr>"

abbreviation sample_create_req :: "string \<Rightarrow> string \<Rightarrow> request" where
  "sample_create_req iid name \<equiv> ReqCreate iid (hinted_req name) 1"

abbreviation sample_position :: "request \<times> nat api_answer list \<Rightarrow> nat api_call + reply" where
  "sample_position \<equiv> position sample_cfg nat_quantities [''kubevirt'']"

definition sent_np :: "string \<Rightarrow> string \<Rightarrow> nat NodePool" where
  "sent_np iid name = kubevirt_BuildNodePool sample_cfg nat_quantities (hinted_req name) ''r:4.17.3'' (DCMLabels iid)"

definition sent_cluster :: "string \<Rightarrow> string \<Rightarrow> HostedCluster" where
  "sent_cluster iid name =
     (applyControlPlaneResourceOverrides (kubevirt_BuildHostedCluster sample_cfg (hinted_req name) ''example.com''
        ''r:4.17.3'' (DCMLabels iid)) (hinted_req name))\<lparr>hc_PullSecretName := ''ps''\<rparr>"

lemma hinted_hints:
  "acm_hint ah_Platform (hinted_req n) = None" "acm_hint ah_ReleaseImage (hinted_req n) = Some ''r:4.17.3''"
  "acm_hint ah_BaseDomain (hinted_req n) = None" "cm_Name (cs_Metadata (cl_Spec (hinted_req n))) = n"
  by (simp_all add: hinted_req_def acm_hint_def acm_hints_def)

lemma hinted_service:
  "svc_Create (dispatcher_service c sample_cfg nat_quantities [''kubevirt''] 1) iid (hinted_req n) s =
     (case findByInstanceID c ''clusters'' iid s of
         (Inr _, s2) \<Rightarrow> (Inl (NewAlreadyExistsError ''cluster with this ID already exists''), s2)
       | (Inl err, s2) \<Rightarrow>
           if domain_type err \<noteq> Some ErrorTypeNOTFOUND then (Inl err, s2)
           else create_resources c 1 iid (hinted_req n) (sent_cluster iid n) (sent_np iid n) s2)"
proof -
  have "ResolveBaseDomain (hinted_req n) (cc_BaseDomain sample_cfg) = ''example.com''"
    "cc_PullSecretName sample_cfg = ''ps''"
    by (simp_all add: ResolveBaseDomain_def hinted_hints sample_cfg_def)
  then show ?thesis
    by (simp add: dispatcher_methods dispatcher_Create_def serviceForPlatform_def dispatcher_New_def
        hinted_hints kubevirt_Create_def CreateCluster_def ResolveReleaseImage_def Let_def sent_cluster_def
        sent_np_def kubevirt_builder_def cong del: sum.case_cong_weak if_weak_cong)
qed

lemma hinted_create:
  "serve_request c sample_cfg nat_quantities [''kubevirt''] (sample_create_req iid n) =
     (\<lambda>r. apfst Created (case findByInstanceID c ''clusters'' iid r of
         (Inr _, s2) \<Rightarrow> (Inl (NewAlreadyExistsError ''cluster with this ID already exists''), s2)
       | (Inl err, s2) \<Rightarrow>
           if domain_type err \<noteq> Some ErrorTypeNOTFOUND then (Inl err, s2)
           else create_resources c 1 iid (hinted_req n) (sent_cluster iid n) (sent_np iid n) s2))"
  by (simp add: serve_request.simps[abs_def] hinted_service)

lemma hinted_positions:
  "sample_position (sample_create_req iid n, []) = Inl (CallListHostedClusters ''clusters'' [(LabelInstanceID, iid)])"
  "sample_position (sample_create_req iid n, [HostedClusters (Inr [])]) = Inl (CallCreateHostedCluster (sent_cluster iid n))"
  "sample_position (sample_create_req iid n, [HostedClusters (Inr []), Acted None]) = Inl (CallCreateNodePool (sent_np iid n))"
  "\<exists>cl. sample_position (sample_create_req iid n, [HostedClusters (Inr []), Acted None, Acted None]) = Inr (Created (Inr cl))"
  by (simp_all add: position_def hinted_create upcoming_def findByInstanceID_def create_resources_def replay_client_def ask_def)

lemma sent_fields:
  "hc_key (sent_cluster iid n) = (''clusters'', n)" "hc_Labels (sent_cluster iid n) = DCMLabels iid"
  "np_key (sent_np iid n) = (''clusters'', n)"
  by (simp_all add: sent_cluster_def sent_np_def kubevirt_np_fields hc_key_def overrides_only_annotations
      kubevirt_BuildHostedCluster_def hinted_hints)

lemma mem_lists:
  "ListHostedClusters mem_client ns sel s = (Inr (filter (hc_matches ns sel) (hub_hcs s)), s)"
  "ListNodePools mem_client ns sel s = (Inr (filter (np_matches ns sel) (hub_nps s)), s)"
  by (simp_all add: mem_client_def)

lemma mem_deletes:
  "DeleteHostedCluster mem_client hc s = (None, s\<lparr>hub_hcs := filter (\<lambda>h. hc_key h \<noteq> hc_key hc) (hub_hcs s)\<rparr>)"
  by (simp add: mem_client_def)

lemma mem_keeps:
  "hc_key (mem_hc hc) = hc_key hc" "has_instance ns i (mem_hc hc) = has_instance ns i hc"
  "np_key (mem_np np) = np_key np" "hc_Labels (mem_hc hc) = hc_Labels hc"
  by (simp_all add: mem_hc_def mem_np_def hc_key_def np_key_def has_instance_def)

lemma sent_instance: "has_instance ''clusters'' i (sent_cluster iid n) \<longleftrightarrow> i = iid"
  using sent_fields(1)[of iid n] sent_fields(2)[of iid n] by (auto simp: has_instance_def hc_key_def)

lemma two_of_one:
  "x \<in> set (hub_hcs h) \<Longrightarrow> y \<in> set (hub_hcs h) \<Longrightarrow> has_instance (cc_ClusterNamespace cfg) i x \<Longrightarrow>
   has_instance (cc_ClusterNamespace cfg) i y \<Longrightarrow> hc_key x \<noteq> hc_key y \<Longrightarrow> \<not> consistent cfg h"
  by (auto simp: consistent_def)

lemmas run_simps = take_turn_def Let_def hinted_positions mem_creates mem_lists mem_keeps matches_instance
  sent_instance sent_fields arrive_def

text \<open>Two creations that both look for their id before either creates.\<close>

definition both_created :: "string \<Rightarrow> string \<Rightarrow> string \<Rightarrow> string \<Rightarrow> nat hub" where
  "both_created i n j m = sample_hub\<lparr>hub_hcs := [mem_hc (sent_cluster j m), mem_hc (sent_cluster i n)],
     hub_nps := [mem_np (sent_np j m), mem_np (sent_np i n)]\<rparr>"

abbreviation sample_reaches :: "(nat hub, nat) flight \<Rightarrow> (nat hub, nat) flight \<Rightarrow> bool" where
  "sample_reaches \<equiv> rtranclp (flight_step mem_client id sample_cfg nat_quantities [''kubevirt''])"

definition succeeded :: "request \<times> nat api_answer list \<Rightarrow> bool" where
  "succeeded g \<longleftrightarrow> (case sample_position g of
     Inr (Created (Inr cl)) \<Rightarrow> True | Inr (Deleted None) \<Rightarrow> True | _ \<Rightarrow> False)"

lemma sample_hub_empty: "hub_hcs sample_hub = []" "hub_nps sample_hub = []" "consistent sample_cfg sample_hub"
  by (simp_all add: sample_hub_def consistent_def)

lemma both_create:
  assumes "n \<noteq> m"
  shows "\<exists>gs. sample_reaches (sample_hub, arrive [sample_create_req i n, sample_create_req j m]) (both_created i n j m, gs)
    \<and> list_all succeeded gs"
proof -
  let ?done = "[HostedClusters (Inr []), Acted None, Acted None] :: nat api_answer list"
  have run: "run_schedule mem_client sample_cfg nat_quantities [''kubevirt''] [0, 1, 0, 0, 1, 1]
      (sample_hub, arrive [sample_create_req i n, sample_create_req j m]) =
      (both_created i n j m, [(sample_create_req i n, ?done), (sample_create_req j m, ?done)])"
    using assms by (simp add: run_simps sample_hub_empty both_created_def)
  have "succeeded (sample_create_req iid name, ?done)" for iid name
    using hinted_positions(4)[of iid name] by (auto simp: succeeded_def)
  then have "list_all succeeded [(sample_create_req i n, ?done), (sample_create_req j m, ?done)]" by simp
  moreover have "sample_reaches (sample_hub, arrive [sample_create_req i n, sample_create_req j m])
      (both_created i n j m, [(sample_create_req i n, ?done), (sample_create_req j m, ?done)])"
    unfolding run[symmetric] by (rule schedule_reachable)
  ultimately show ?thesis by blast
qed

theorem distinct_ids_stay_unique_witness:
  "\<exists>gs. sample_reaches (sample_hub, arrive [sample_create_req ''id-1'' ''a'', sample_create_req ''id-2'' ''b''])
      (both_created ''id-1'' ''a'' ''id-2'' ''b'', gs)
    \<and> consistent sample_cfg (both_created ''id-1'' ''a'' ''id-2'' ''b'')"
proof -
  have "''a'' \<noteq> ''b''" by simp
  from both_create[OF this] obtain gs where gs:
    "sample_reaches (sample_hub, arrive [sample_create_req ''id-1'' ''a'', sample_create_req ''id-2'' ''b''])
      (both_created ''id-1'' ''a'' ''id-2'' ''b'', gs)" by blast
  show ?thesis
    using distinct_ids_stay_unique[OF mem_hub_api _ _ gs] gs by (auto simp: sample_hub_empty)
qed

text \<open>
  C5: the check for a taken id does not hold between two creations at once.  Two requests with one id
  and different names, each looking for the id before the other has created its cluster, are both
  answered with success, and the hub then has two clusters of that id; one after the other the second
  is refused as already existing.
\<close>

theorem same_id_race:
  "(\<exists>s gs. sample_reaches (sample_hub, arrive [sample_create_req ''id-9'' ''a'', sample_create_req ''id-9'' ''b'']) (s, gs)
     \<and> list_all succeeded gs \<and> consistent sample_cfg sample_hub \<and> \<not> consistent sample_cfg s)
   \<and> (\<exists>e s'. serve_request mem_client sample_cfg nat_quantities [''kubevirt'']
          (sample_create_req ''id-9'' ''b'') (snd (serve_request mem_client sample_cfg nat_quantities [''kubevirt'']
             (sample_create_req ''id-9'' ''a'') sample_hub)) = (Created (Inl e), s')
        \<and> domain_type e = Some ErrorTypeALREADYEXISTS)"
proof
  have "hc_key (mem_hc (sent_cluster ''id-9'' ''b'')) \<noteq> hc_key (mem_hc (sent_cluster ''id-9'' ''a''))"
    by (simp add: mem_keeps sent_fields)
  moreover have "has_instance (cc_ClusterNamespace sample_cfg) ''id-9'' (mem_hc (sent_cluster ''id-9'' n))" for n
    by (simp add: mem_keeps sent_instance)
  ultimately have bad: "\<not> consistent sample_cfg (both_created ''id-9'' ''a'' ''id-9'' ''b'')"
    by (intro two_of_one[of "mem_hc (sent_cluster ''id-9'' ''b'')" _ "mem_hc (sent_cluster ''id-9'' ''a'')"])
      (auto simp: both_created_def)
  have "''a'' \<noteq> ''b''" by simp
  from both_create[OF this, of "''id-9''" "''id-9''"] obtain gs where
    "sample_reaches (sample_hub, arrive [sample_create_req ''id-9'' ''a'', sample_create_req ''id-9'' ''b''])
       (both_created ''id-9'' ''a'' ''id-9'' ''b'', gs)" "list_all succeeded gs" by blast
  then show "\<exists>s gs. sample_reaches (sample_hub, arrive [sample_create_req ''id-9'' ''a'', sample_create_req ''id-9'' ''b'']) (s, gs)
     \<and> list_all succeeded gs \<and> consistent sample_cfg sample_hub \<and> \<not> consistent sample_cfg s"
    using sample_hub_empty(3) bad by (intro exI conjI)
next
  show "\<exists>e s'. serve_request mem_client sample_cfg nat_quantities [''kubevirt'']
          (sample_create_req ''id-9'' ''b'') (snd (serve_request mem_client sample_cfg nat_quantities [''kubevirt'']
             (sample_create_req ''id-9'' ''a'') sample_hub)) = (Created (Inl e), s')
        \<and> domain_type e = Some ErrorTypeALREADYEXISTS"
    by (simp add: hinted_create findByInstanceID_def create_resources_def mem_lists mem_creates mem_keeps
        matches_instance sent_instance sample_hub_def)
qed

text \<open>A deletion, call by call.\<close>

lemma delete_positions:
  assumes "hc_Namespace hc = ''clusters''"
  shows "sample_position (ReqDelete i, []) = Inl (CallListHostedClusters ''clusters'' [(LabelInstanceID, i)])"
    "sample_position (ReqDelete i, [HostedClusters (Inr [hc])]) = Inl (CallListNodePools ''clusters'' [(LabelInstanceID, i)])"
    "sample_position (ReqDelete i, [HostedClusters (Inr [hc]), NodePools (Inr [])]) = Inl (CallDeleteHostedCluster hc)"
    "sample_position (ReqDelete i, [HostedClusters (Inr [hc]), NodePools (Inr []), Acted None]) = Inr (Deleted None)"
  using assms
  by (simp_all add: position_def upcoming_def serve_request.simps[abs_def] dispatcher_methods DeleteCluster_def
      findByInstanceID_def deleteNodePools_def replay_client_def ask_def)

text \<open>
  A deletion goes by the name it has read before.  When the cluster is deleted by another request
  and its name given to a new cluster between the read and the delete call, the new cluster is
  deleted, although nobody asked for that: its creation and both deletions succeed, the hub keeps its
  node pool but not the cluster.
\<close>

theorem late_delete_takes_successor:
  "\<exists>s gs. sample_reaches
       (sample_hub\<lparr>hub_hcs := [mem_hc (sent_cluster ''id-1'' ''a'')]\<rparr>,
        arrive [ReqDelete ''id-1'', ReqDelete ''id-1'', sample_create_req ''id-2'' ''a'']) (s, gs)
     \<and> list_all succeeded gs \<and> no_instance sample_cfg ''id-2'' s
     \<and> map np_Labels (hub_nps s) = [DCMLabels ''id-2'']"
proof -
  let ?old = "mem_hc (sent_cluster ''id-1'' ''a'')"
  let ?h = "sample_hub\<lparr>hub_hcs := [?old]\<rparr>"
  let ?s = "sample_hub\<lparr>hub_hcs := [], hub_nps := [mem_np (sent_np ''id-2'' ''a'')]\<rparr>"
  let ?del = "(ReqDelete ''id-1'', [HostedClusters (Inr [?old]), NodePools (Inr []), Acted None]) :: request \<times> nat api_answer list"
  let ?new = "(sample_create_req ''id-2'' ''a'', [HostedClusters (Inr []), Acted None, Acted None]) :: request \<times> nat api_answer list"
  have ns: "hc_Namespace ?old = ''clusters''"
    using sent_fields(1)[of "''id-1''" "''a''"] by (simp add: mem_hc_def hc_key_def)
  have "run_schedule mem_client sample_cfg nat_quantities [''kubevirt''] [0, 0, 1, 1, 1, 2, 2, 2, 0]
      (?h, arrive [ReqDelete ''id-1'', ReqDelete ''id-1'', sample_create_req ''id-2'' ''a'']) = (?s, [?del, ?del, ?new])"
    by (simp add: run_simps delete_positions[OF ns] sample_hub_empty mem_deletes)
  note run = this
  have "sample_reaches (?h, arrive [ReqDelete ''id-1'', ReqDelete ''id-1'', sample_create_req ''id-2'' ''a'']) (?s, [?del, ?del, ?new])"
    unfolding run[symmetric] by (rule schedule_reachable)
  moreover have "list_all succeeded [?del, ?del, ?new]"
    using hinted_positions(4)[of "''id-2''" "''a''"] delete_positions(4)[OF ns] by (auto simp: succeeded_def)
  moreover have "no_instance sample_cfg ''id-2'' ?s" by (simp add: no_instance_def)
  moreover have "map np_Labels (hub_nps ?s) = [DCMLabels ''id-2'']"
    by (simp add: mem_np_def sent_np_def kubevirt_np_fields)
  ultimately show ?thesis by (intro exI conjI)
qed

end
