(* ===== verification/Deadline.thy ===== *)
theory Deadline
  imports Concurrent ApiServer
begin

text \<open>
  Requests with a deadline.  \<open>Run\<close> of \<open>internal/apiserver/server.go\<close> puts \<open>requestTimeoutMiddleware\<close> in front
  of the chain, the handlers pass their context on to every client call, and a call on a context whose
  deadline has passed fails without reaching the API server (documented behaviour of \<open>client-go\<close>).
  The time is read off the state of the world.
\<close>

subsection \<open>Contexts\<close>

text \<open>\<open>context.WithTimeout\<close>: the earlier of the deadline of the parent and the own one.\<close>

definition ctx_WithTimeout :: "time option \<Rightarrow> time \<Rightarrow> int \<Rightarrow> time option" where
  "ctx_WithTimeout parent now timeout =
     Some (case parent of None \<Rightarrow> now + timeout | Some d \<Rightarrow> min d (now + timeout))"

text \<open>A handler that looks at the deadline of its context; the cancellation at the return is not seen by it.\<close>

type_synonym ('s, 'a) ctx_handler = "time option \<Rightarrow> 's \<Rightarrow> 'a"

definition requestTimeoutMiddleware :: "('s \<Rightarrow> time) \<Rightarrow> int \<Rightarrow> ('s, 'a) ctx_handler \<Rightarrow> ('s, 'a) ctx_handler" where
  "requestTimeoutMiddleware clock timeout next ctx s = next (ctx_WithTimeout ctx (clock s) timeout) s"

text \<open>The handler \<open>Run\<close> serves.\<close>

definition run_handler :: "('s \<Rightarrow> time) \<Rightarrow> int \<Rightarrow> ('s, 'a) ctx_handler \<Rightarrow> ('s, 'a) ctx_handler" where
  "run_handler clock requestTimeout handler =
     (if requestTimeout > 0 then requestTimeoutMiddleware clock requestTimeout handler else handler)"

subsection \<open>The client under a deadline\<close>

definition ctx_expired :: "('s \<Rightarrow> time) \<Rightarrow> time option \<Rightarrow> 's \<Rightarrow> bool" where
  "ctx_expired clock ctx s \<longleftrightarrow> (case ctx of None \<Rightarrow> False | Some d \<Rightarrow> d \<le> clock s)"

definition deadline_error :: k8s_error where
  "deadline_error = K8sOther ''context deadline exceeded''"

definition guarded_call :: "('s \<Rightarrow> time) \<Rightarrow> time option \<Rightarrow> ('s, 'a) call \<Rightarrow> ('s, 'a) call" where
  "guarded_call clock ctx f s = (if ctx_expired clock ctx s then (Inl deadline_error, s) else f s)"

definition guarded_act :: "('s \<Rightarrow> time) \<Rightarrow> time option \<Rightarrow> 's act \<Rightarrow> 's act" where
  "guarded_act clock ctx f s = (if ctx_expired clock ctx s then (Some deadline_error, s) else f s)"

definition with_ctx :: "('s \<Rightarrow> time) \<Rightarrow> time option \<Rightarrow> ('s, 'q) k8s_client \<Rightarrow> ('s, 'q) k8s_client" where
  "with_ctx clock ctx c = \<lparr>
     ListHostedClusters = (\<lambda>ns sel. guarded_call clock ctx (ListHostedClusters c ns sel)),
     ListNodePools = (\<lambda>ns sel. guarded_call clock ctx (ListNodePools c ns sel)),
     ListClusterImageSets = guarded_call clock ctx (ListClusterImageSets c),
     GetSecret = (\<lambda>ns n. guarded_call clock ctx (GetSecret c ns n)),
     CreateHostedCluster = (\<lambda>hc. guarded_act clock ctx (CreateHostedCluster c hc)),
     CreateNodePool = (\<lambda>np. guarded_act clock ctx (CreateNodePool c np)),
     CreateSecret = (\<lambda>x. guarded_act clock ctx (CreateSecret c x)),
     UpdateSecret = (\<lambda>x. guarded_act clock ctx (UpdateSecret c x)),
     DeleteHostedCluster = (\<lambda>hc. guarded_act clock ctx (DeleteHostedCluster c hc)),
     DeleteNodePool = (\<lambda>np. guarded_act clock ctx (DeleteNodePool c np)),
     Recognizes = Recognizes c,
     ListKind = (\<lambda>g. guarded_act clock ctx (ListKind c g))\<rparr>"

lemmas with_ctx_calls = with_ctx_def k8s_client.select_convs guarded_call_def guarded_act_def

lemma deadline_error_kind [simp]: "\<not> IsAlreadyExists deadline_error" "\<not> IsNotFound deadline_error"
  by (simp_all add: deadline_error_def)

text \<open>A client under a deadline still keeps the promises of the API, so every property of the service covers it.\<close>

lemma with_ctx_hub_api:
  assumes "hub_api c view"
  shows "hub_api (with_ctx clock ctx c) view"
  unfolding hub_api_def
proof (intro conjI)
  note laws = hub_apiD[OF assms]
  show "api_reads (with_ctx clock ctx c) view"
    using laws(1) by (simp add: api_reads_def with_ctx_calls)
  show "api_lists (with_ctx clock ctx c) view"
    using laws(2) unfolding api_lists_def by (auto simp: with_ctx_calls split: if_splits)
  show "api_creates (with_ctx clock ctx c) view"
    using laws(3) unfolding api_creates_def by (auto simp: with_ctx_calls split: if_splits)
  show "api_deletes (with_ctx clock ctx c) view"
    using laws(4) unfolding api_deletes_def by (auto simp: with_ctx_calls split: if_splits)
qed

subsection \<open>A deadline between the two writes\<close>

lemma taken_id_refused:
  assumes "hub_api c view" "\<not> no_instance cfg iid (view s)"
    and "dispatcher_Create c cfg qa services now iid req s = (r, s')"
  shows "\<exists>e. r = Inl e"
  using create_on_hub[OF assms(1,3)] assms(2) by (cases r) (auto simp: create_ok_def)

text \<open>The HostedCluster a platform sends.\<close>

definition sent_hc :: "ClusterConfig \<Rightarrow> string \<Rightarrow> Cluster \<Rightarrow> string \<Rightarrow> 'q platform_builder \<Rightarrow> HostedCluster" where
  "sent_hc cfg iid req img pb =
     (applyControlPlaneResourceOverrides
        (BuildHostedCluster pb req (ResolveBaseDomain req (cc_BaseDomain cfg)) img (DCMLabels iid)) req)
       \<lparr>hc_PullSecretName := cc_PullSecretName cfg\<rparr>"

lemma CreateCluster_writes:
  assumes "ResolveBaseDomain req (cc_BaseDomain cfg) \<noteq> []"
    and "ResolveReleaseImage c cfg req s0 = (Inr img, sa)"
    and "findByInstanceID c (cc_ClusterNamespace cfg) iid sa = (Inl err, s)" "domain_type err = Some ErrorTypeNOTFOUND"
  shows "CreateCluster c cfg now iid req pb s0 =
    create_resources c now iid req (sent_hc cfg iid req img pb) (BuildNodePool pb req img (DCMLabels iid)) s"
  using assms by (simp add: CreateCluster_def sent_hc_def Let_def)

text \<open>
  C6: the rollback of a creation runs under the context of the request, so it fails exactly when it is
  needed because of the deadline.  A creation served by \<open>Run\<close> with a request timeout, whose lookups
  went through and whose deadline passes while the HostedCluster is being created, has the NodePool
  refused and the deletion refused for the same reason: it ends with the error of a failed rollback and
  the hub has gained the HostedCluster, not being deleted, and no NodePool.  Whatever else happens on
  the hub, as long as a HostedCluster with its name and labels is there every new creation under the
  id is refused.
\<close>

theorem expired_rollback:
  assumes "hub_api c view" "0 < requestTimeout" "d = clock s0 + requestTimeout" "c' = with_ctx clock (Some d) c"
    and "ResolveBaseDomain req (cc_BaseDomain cfg) \<noteq> []" "ResolveReleaseImage c' cfg req s0 = (Inr img, sa)"
    and "findByInstanceID c' (cc_ClusterNamespace cfg) iid sa = (Inl err, s)" "domain_type err = Some ErrorTypeNOTFOUND"
    and "created_hc cfg iid req img (sent_hc cfg iid req img pb)"
    and "CreateHostedCluster c (sent_hc cfg iid req img pb) s = (None, s1)" "clock s < d" "d \<le> clock s1"
  shows "\<exists>e hc.
      run_handler clock requestTimeout (\<lambda>ctx. CreateCluster (with_ctx clock ctx c) cfg now iid req pb) None s0 = (Inl e, s1)
      \<and> rollback_failed e \<and> created_hc cfg iid req img hc \<and> hc_DeletionTimestamp hc = None
      \<and> view s1 = (view s0)\<lparr>hub_hcs := hc # hub_hcs (view s0)\<rparr>
      \<and> (\<forall>s2 r s3 req' now' services.
           (\<exists>x \<in> set (hub_hcs (view s2)). hc_key x = hc_key hc \<and> hc_Labels x = hc_Labels hc)
           \<and> dispatcher_Create c cfg qa services now' iid req' s2 = (r, s3) \<longrightarrow> (\<exists>e. r = Inl e))"
proof -
  let ?hc = "sent_hc cfg iid req img pb"
  have api: "hub_api c' view" unfolding assms(4) by (rule with_ctx_hub_api[OF assms(1)])
  have v: "view s = view s0" using resolve_image(1)[OF api assms(6)] find_view[OF api assms(7)] by simp
  obtain hc where st: "hc_stored ?hc hc" and v1: "view s1 = (view s)\<lparr>hub_hcs := hc # hub_hcs (view s)\<rparr>"
    using create_hc_ok[OF assms(1,10)] by blast
  have made: "created_hc cfg iid req img hc" by (rule created_stored[OF st assms(9)])
  have "run_handler clock requestTimeout (\<lambda>ctx. CreateCluster (with_ctx clock ctx c) cfg now iid req pb) None s0 =
      CreateCluster c' cfg now iid req pb s0"
    using assms(2) by (simp add: run_handler_def requestTimeoutMiddleware_def ctx_WithTimeout_def assms(3,4))
  also have "\<dots> = create_resources c' now iid req ?hc (BuildNodePool pb req img (DCMLabels iid)) s"
    by (rule CreateCluster_writes[OF assms(5-8)])
  finally obtain e where run: "run_handler clock requestTimeout
        (\<lambda>ctx. CreateCluster (with_ctx clock ctx c) cfg now iid req pb) None s0 = (Inl e, s1)" "rollback_failed e"
    using assms(10-12) by (auto simp: create_resources_def assms(4) with_ctx_calls ctx_expired_def rollback_failed_def)
  have "\<not> no_instance cfg iid (view s2)"
    if "\<exists>x \<in> set (hub_hcs (view s2)). hc_key x = hc_key hc \<and> hc_Labels x = hc_Labels hc" for s2
    using made that by (auto simp: no_instance_def has_instance_def created_hc_def hc_key_def)
  then have "\<forall>s2 r s3 req' now' services.
      (\<exists>x \<in> set (hub_hcs (view s2)). hc_key x = hc_key hc \<and> hc_Labels x = hc_Labels hc)
      \<and> dispatcher_Create c cfg qa services now' iid req' s2 = (r, s3) \<longrightarrow> (\<exists>e. r = Inl e)"
    using taken_id_refused[OF assms(1)] by blast
  then show ?thesis
    using run made v v1 hc_stored_fields(5)[OF st] by (intro exI[of _ e] exI[of _ hc] conjI) simp_all
qed

text \<open>A client whose calls take one unit of time each.\<close>

definition tick :: "('s \<Rightarrow> 'a \<times> 's) \<Rightarrow> 's \<times> time \<Rightarrow> 'a \<times> 's \<times> time" where
  "tick f w = (case f (fst w) of (x, s') \<Rightarrow> (x, s', snd w + 1))"

definition ticking :: "('s, 'q) k8s_client \<Rightarrow> ('s \<times> time, 'q) k8s_client" where
  "ticking c = \<lparr>
     ListHostedClusters = (\<lambda>ns sel. tick (ListHostedClusters c ns sel)),
     ListNodePools = (\<lambda>ns sel. tick (ListNodePools c ns sel)),
     ListClusterImageSets = tick (ListClusterImageSets c),
     GetSecret = (\<lambda>ns n. tick (GetSecret c ns n)),
     CreateHostedCluster = (\<lambda>hc. tick (CreateHostedCluster c hc)),
     CreateNodePool = (\<lambda>np. tick (CreateNodePool c np)),
     CreateSecret = (\<lambda>x. tick (CreateSecret c x)),
     UpdateSecret = (\<lambda>x. tick (UpdateSecret c x)),
     DeleteHostedCluster = (\<lambda>hc. tick (DeleteHostedCluster c hc)),
     DeleteNodePool = (\<lambda>np. tick (DeleteNodePool c np)),
     Recognizes = Recognizes c,
     ListKind = (\<lambda>g. tick (ListKind c g))\<rparr>"

lemma ticking_hub_api:
  assumes "hub_api c view"
  shows "hub_api (ticking c) (view \<circ> fst)"
  unfolding hub_api_def
proof (intro conjI)
  note laws = hub_apiD[OF assms]
  show "api_reads (ticking c) (view \<circ> fst)"
    using laws(1) by (simp add: api_reads_def ticking_def tick_def case_prod_beta')
  show "api_lists (ticking c) (view \<circ> fst)"
    using laws(2) unfolding api_lists_def by (fastforce simp: ticking_def tick_def split: prod.splits)
  show "api_creates (ticking c) (view \<circ> fst)"
    using laws(3) unfolding api_creates_def by (fastforce simp: ticking_def tick_def split: prod.splits)
  show "api_deletes (ticking c) (view \<circ> fst)"
    using laws(4) unfolding api_deletes_def by (fastforce simp: ticking_def tick_def split: prod.splits)
qed

text \<open>
  The server with a timeout of two such units: the request finds the id free and creates the
  HostedCluster, and is then out of time.
\<close>

definition timed_create :: "string \<Rightarrow> string \<Rightarrow> nat hub \<times> time \<Rightarrow> (go_error + Cluster) \<times> nat hub \<times> time" where
  "timed_create iid name =
     run_handler snd 2 (\<lambda>ctx. CreateCluster (with_ctx snd ctx (ticking mem_client)) sample_cfg 1 iid (hinted_req name)
       (kubevirt_builder sample_cfg nat_quantities)) None"

lemma sent_cluster_created: "created_hc sample_cfg iid (hinted_req n) ''r:4.17.3'' (sent_cluster iid n)"
proof -
  have "ResolveBaseDomain (hinted_req n) (cc_BaseDomain sample_cfg) = ''example.com''" "cc_PullSecretName sample_cfg = ''ps''"
    by (simp_all add: ResolveBaseDomain_def hinted_hints sample_cfg_def)
  then show ?thesis
    using sent_fields(1,2)[of iid n]
    by (simp add: created_hc_def hinted_hints sent_cluster_def overrides_only_annotations kubevirt_BuildHostedCluster_def)
qed

theorem expired_rollback_witness:
  "\<exists>e hc' h. timed_create ''id-9'' ''a'' (sample_hub, 0) = (Inl e, (h, 2)) \<and> rollback_failed e
     \<and> hub_hcs h = [hc'] \<and> hc_DeletionTimestamp hc' = None \<and> hub_nps h = []
     \<and> (\<exists>e'. fst (dispatcher_Create (ticking mem_client) sample_cfg nat_quantities (dispatcher_New [''kubevirt''])
            100 ''id-9'' (hinted_req ''b'') (h, 100)) = Inl e')"
proof -
  let ?c = "ticking mem_client" and ?pb = "kubevirt_builder sample_cfg nat_quantities"
  let ?c' = "with_ctx snd (Some 2) ?c" and ?req = "hinted_req ''a''"
  let ?h = "sample_hub\<lparr>hub_hcs := [mem_hc (sent_cluster ''id-9'' ''a'')]\<rparr>"
  let ?retry = "dispatcher_Create ?c sample_cfg nat_quantities (dispatcher_New [''kubevirt''])
      100 ''id-9'' (hinted_req ''b'') (?h, 100)"
  have base: "ResolveBaseDomain ?req (cc_BaseDomain sample_cfg) = ''example.com''"
    by (simp add: ResolveBaseDomain_def hinted_hints sample_cfg_def)
  have img: "ResolveReleaseImage ?c' sample_cfg ?req (sample_hub, 0) = (Inr ''r:4.17.3'', (sample_hub, 0))"
    by (simp add: ResolveReleaseImage_def hinted_hints)
  have free: "findByInstanceID ?c' (cc_ClusterNamespace sample_cfg) ''id-9'' (sample_hub, 0) =
      (Inl (NewNotFoundError ''cluster id-9 not found''), (sample_hub, 1))"
    by (simp add: findByInstanceID_def with_ctx_calls ticking_def tick_def ctx_expired_def mem_client_def sample_hub_def)
  have sent: "sent_hc sample_cfg ''id-9'' ?req ''r:4.17.3'' ?pb = sent_cluster ''id-9'' ''a''"
    by (simp add: sent_hc_def base sent_cluster_def kubevirt_builder_def) (simp add: sample_cfg_def)
  have first: "CreateHostedCluster ?c (sent_hc sample_cfg ''id-9'' ?req ''r:4.17.3'' ?pb) (sample_hub, 1) = (None, (?h, 2))"
    by (simp add: sent ticking_def tick_def mem_creates sample_hub_empty)
  have made: "created_hc sample_cfg ''id-9'' ?req ''r:4.17.3'' (sent_hc sample_cfg ''id-9'' ?req ''r:4.17.3'' ?pb)"
    unfolding sent by (rule sent_cluster_created)
  have given: "(0::int) < 2" "(2::int) = snd (sample_hub, 0 :: time) + 2" "domain_type (NewNotFoundError ''cluster id-9 not found'') = Some ErrorTypeNOTFOUND"
    "ResolveBaseDomain ?req (cc_BaseDomain sample_cfg) \<noteq> []" "snd (sample_hub, 1 :: time) < 2" "2 \<le> snd (?h, 2 :: time)"
    by (simp_all add: base)
  obtain r s3 where retry: "?retry = (r, s3)" by (meson surj_pair)
  from expired_rollback[where clock = "snd :: nat hub \<times> time \<Rightarrow> time" and now = 1 and qa = nat_quantities,
      OF ticking_hub_api[OF mem_hub_api] given(1,2) refl given(4) img free given(3) made first given(5,6)]
  obtain e hc' where run: "timed_create ''id-9'' ''a'' (sample_hub, 0) = (Inl e, (?h, 2))"
    and e: "rollback_failed e" "hc_DeletionTimestamp hc' = None"
    and left: "(id \<circ> fst) (?h, 2 :: time) = ((id \<circ> fst) (sample_hub, 0 :: time))\<lparr>hub_hcs := hc' # hub_hcs ((id \<circ> fst) (sample_hub, 0 :: time))\<rparr>"
    and refused: "\<And>s2 r s3 req' now' services.
      (\<exists>x \<in> set (hub_hcs ((id \<circ> fst) s2)). hc_key x = hc_key hc' \<and> hc_Labels x = hc_Labels hc')
      \<and> dispatcher_Create ?c sample_cfg nat_quantities services now' ''id-9'' req' s2 = (r, s3) \<Longrightarrow> \<exists>e. r = Inl e"
    unfolding timed_create_def by blast
  have h: "hub_hcs ?h = [hc']" using arg_cong[OF left, of hub_hcs] by (simp add: sample_hub_empty)
  have "\<exists>e'. r = Inl e'"
    by (rule refused[of "(?h, 100)" "dispatcher_New [''kubevirt'']" 100 "hinted_req ''b''" r s3]) (use h retry in auto)
  then show ?thesis
    using run e retry h by (intro exI[of _ e] exI[of _ hc'] exI[of _ ?h]) (auto simp: sample_hub_empty)
qed

end
