(* ===== verification/EmbeddedSpec.thy ===== *)
theory EmbeddedSpec
  imports Registration HttpApi
begin

text \<open>
  The embedded OpenAPI document, \<open>api/v1alpha1/spec.gen.go\<close>: how its text is decoded and loaded, what
  \<open>apiserver.New\<close> makes of it for the validation, and what the registration makes of it for the
  endpoint.  The text of the document, gzip, the loader of kin-openapi and its router are parameters;
  base64, the joins and \<open>path.Clean\<close> are modelled.
\<close>

subsection \<open>Decoding\<close>

record 'z gzip_lib =
  gz_NewReader :: "string \<Rightarrow> go_error + 'z"
  gz_ReadFrom :: "'z \<Rightarrow> go_error + string" \<comment> \<open>the whole stream, by \<open>bytes.Buffer.ReadFrom\<close>\<close>
  gz_corrupt :: "string \<Rightarrow> go_error" \<comment> \<open>the base64 error, which names the bad byte\<close>

definition decodeSpec :: "'z gzip_lib \<Rightarrow> string list \<Rightarrow> go_error + string" where
  "decodeSpec lib swaggerSpec =
     (case DecodeString (Join swaggerSpec []) of
        None \<Rightarrow>
          (let err = gz_corrupt lib (Join swaggerSpec [])
           in Inl (Wrapped (''error base64 decoding spec: '' @ error_text err) err))
      | Some zipped \<Rightarrow>
          (case gz_NewReader lib zipped of
             Inl err \<Rightarrow> Inl (Wrapped (''error decompressing spec: '' @ error_text err) err)
           | Inr zr \<Rightarrow>
               (case gz_ReadFrom lib zr of
                  Inl err \<Rightarrow> Inl (Wrapped (''error decompressing spec: '' @ error_text err) err)
                | Inr buf \<Rightarrow> Inr buf)))"

text \<open>The cache is filled when the package is initialised; every later call returns the same pair.\<close>

definition decodeSpecCached :: "'z gzip_lib \<Rightarrow> string list \<Rightarrow> unit \<Rightarrow> go_error + string" where
  "decodeSpecCached lib swaggerSpec = (let data = decodeSpec lib swaggerSpec in (\<lambda>_. data))"

definition PathToRawSpec :: "(unit \<Rightarrow> go_error + string) \<Rightarrow> string \<Rightarrow> (string \<rightharpoonup> (unit \<Rightarrow> go_error + string))" where
  "PathToRawSpec rawSpec pathToFile =
     (let res = Map.empty in if length pathToFile > 0 then res(pathToFile \<mapsto> rawSpec) else res)"

text \<open>
  \<open>path.Clean\<close>: slashes are merged, \<open>.\<close> elements dropped, \<open>..\<close> elements taken back with the element before
  them; a path that begins with a slash keeps it, and an empty result is \<open>.\<close>.
\<close>

fun split_slash :: "string \<Rightarrow> string list" where
  "split_slash [] = [[]]"
| "split_slash (c # cs) =
     (if c = CHR ''/'' then [] # split_slash cs
      else case split_slash cs of [] \<Rightarrow> [[c]] | seg # segs \<Rightarrow> (c # seg) # segs)"

definition clean_step :: "bool \<Rightarrow> string list \<Rightarrow> string \<Rightarrow> string list" where
  "clean_step rooted stack seg =
     (if seg = [] \<or> seg = ''.'' then stack
      else if seg = ''..'' then
        (case stack of
           [] \<Rightarrow> if rooted then [] else [''..'']
         | prev # rest \<Rightarrow> if prev = ''..'' then ''..'' # stack else rest)
      else seg # stack)"

definition path_Clean :: "string \<Rightarrow> string" where
  "path_Clean p =
     (let rooted = (take 1 p = ''/'');
          out = Join (rev (foldl (clean_step rooted) [] (split_slash p))) ''/''
      in if rooted then ''/'' @ out else if out = [] then ''.'' else out)"

text \<open>The function \<open>GetSwagger\<close> installs for references to other documents.\<close>

definition ReadFromURI :: "(string \<rightharpoonup> (unit \<Rightarrow> go_error + string)) \<Rightarrow> string \<Rightarrow> go_error + string" where
  "ReadFromURI resolvePath url =
     (let pathToFile = path_Clean url in
      case resolvePath pathToFile of
        None \<Rightarrow> Inl (PlainError (''path not found: '' @ pathToFile))
      | Some getSpec \<Rightarrow> getSpec ())"

definition GetSwagger ::
  "((string \<Rightarrow> go_error + string) \<Rightarrow> string \<Rightarrow> go_error + 'spec) \<Rightarrow> (unit \<Rightarrow> go_error + string) \<Rightarrow> go_error + 'spec" where
  "GetSwagger LoadFromData rawSpec =
     (let resolvePath = PathToRawSpec rawSpec [] in
      case rawSpec () of
        Inl err \<Rightarrow> Inl err
      | Inr specData \<Rightarrow>
          (case LoadFromData (ReadFromURI resolvePath) specData of
             Inl err \<Rightarrow> Inl err
           | Inr swagger \<Rightarrow> Inr swagger))"

text \<open>The router \<open>apiserver.New\<close> validates with: none when the document or the router cannot be made.\<close>

definition validation_router ::
  "go_error + 'spec \<Rightarrow> ('spec \<Rightarrow> 'spec) \<Rightarrow> ('spec \<Rightarrow> go_error + 'router) \<Rightarrow> 'router option" where
  "validation_router swagger without_servers NewRouter =
     (case swagger of
        Inl err \<Rightarrow> None
      | Inr spec \<Rightarrow>
          (case NewRouter (without_servers spec) of
             Inl routerErr \<Rightarrow> None
           | Inr specRouter \<Rightarrow> Some specRouter))"

subsection \<open>What is loaded\<close>

lemma Join_empty: "Join xs [] = concat xs"
  by (induction xs "[] :: string" rule: Join.induct) simp_all

text \<open>
  The embedded text gives back the document it was made from.  However the base64 text of the
  compressed document is cut into lines, the loader gets the decompressed document, and every
  reference to another document is refused; when decompression fails the error
  says so and nothing is loaded.
\<close>

theorem embedded_spec_loaded:
  assumes "concat swaggerSpec = EncodeToString zipped"
  shows "GetSwagger load (decodeSpecCached lib swaggerSpec) =
    (case gz_NewReader lib zipped of
       Inl err \<Rightarrow> Inl (Wrapped (''error decompressing spec: '' @ error_text err) err)
     | Inr zr \<Rightarrow>
         (case gz_ReadFrom lib zr of
            Inl err \<Rightarrow> Inl (Wrapped (''error decompressing spec: '' @ error_text err) err)
          | Inr doc \<Rightarrow> load (\<lambda>url. Inl (PlainError (''path not found: '' @ path_Clean url))) doc))"
proof -
  have "ReadFromURI Map.empty = (\<lambda>url. Inl (PlainError (''path not found: '' @ path_Clean url)))"
    by (simp add: fun_eq_iff ReadFromURI_def)
  then show ?thesis
    using Decode_Encode[of zipped] assms
    by (auto simp: GetSwagger_def decodeSpecCached_def decodeSpec_def Join_empty PathToRawSpec_def
        split: sum.split)
qed

text \<open>A library that stores without compressing, behind a one-byte header.\<close>

definition stored_gzip :: "string gzip_lib" where
  "stored_gzip = \<lparr>
     gz_NewReader = (\<lambda>z. case z of [] \<Rightarrow> Inl (PlainError ''EOF'')
        | c # rest \<Rightarrow> if c = CHR ''g'' then Inr rest else Inl (PlainError ''gzip: invalid header'')),
     gz_ReadFrom = Inr, gz_corrupt = (\<lambda>s. PlainError ''illegal base64 data'')\<rparr>"

theorem embedded_spec_loaded_witness:
  "GetSwagger (\<lambda>read doc. case read ''./other.yaml'' of Inl e \<Rightarrow> Inr (doc, e) | Inr d \<Rightarrow> Inl (PlainError d))
     (decodeSpecCached stored_gzip [take 6 (EncodeToString ''gdoc''), drop 6 (EncodeToString ''gdoc'')])
     = Inr (''doc'', PlainError ''path not found: other.yaml'')"
proof -
  have path: "path_Clean ''./other.yaml'' = ''other.yaml''"
    by (simp add: path_Clean_def clean_step_def)
  have "concat [take 6 t, drop 6 t] = t" for t :: string by simp
  note parts = this
  show ?thesis
    by (simp add: embedded_spec_loaded[OF parts] stored_gzip_def path del: EncodeToString.simps)
qed

subsection \<open>What is made of it\<close>

text \<open>
  The document: the operations of \<open>api/v1alpha1/openapi.yaml\<close>, path by path.  The generated routes are
  made from it by the generator, apart from the text that is embedded.
\<close>

definition openapi_operations :: "(string \<times> string list) list" where
  "openapi_operations =
     [(''/api/v1alpha1/clusters'', [''POST'', ''GET'']),
      (''/api/v1alpha1/clusters/{clusterId}'', [''GET'', ''DELETE'']),
      (''/api/v1alpha1/clusters/health'', [''GET''])]"

text \<open>What chi documents of static patterns: a method and path registered once is matched by itself.\<close>

definition static_routes :: "mux \<Rightarrow> bool" where
  "static_routes mux \<longleftrightarrow>
     (\<forall>table i m p. distinct table \<longrightarrow> i < length table \<longrightarrow> table ! i = (m, p) \<longrightarrow> CHR ''{'' \<notin> set p \<longrightarrow>
        mux table m p = Matched i [])"

lemma find_only:
  assumes "distinct xs" "i < length xs"
  shows "find (\<lambda>j. xs ! j = xs ! i) [0..<length xs] = Some i"
  using assms by (auto simp: find_Some_iff nth_eq_iff_index_eq intro!: exI[of _ i])

lemma simple_mux_static: "static_routes simple_mux"
proof -
  have "simple_mux table m p = Matched i []"
    if "distinct table" "i < length table" "table ! i = (m, p)" "CHR ''{'' \<notin> set p" for table i m p
    using find_only[OF that(1,2)] that(3,4) by (simp add: simple_mux_def Let_def)
  then show ?thesis by (simp add: static_routes_def)
qed

lemma routes_distinct: "distinct (route_table [])"
  by (simp add: route_table_def)

text \<open>The operations one by one.\<close>

definition operation_list :: "(string \<times> string) list" where
  "operation_list = concat (map (\<lambda>(p, ms). map (\<lambda>m. (m, p)) ms) openapi_operations)"

lemma operation_list_iff: "(m, p) \<in> set operation_list \<longleftrightarrow> (\<exists>ms. (p, ms) \<in> set openapi_operations \<and> m \<in> set ms)"
  unfolding operation_list_def by auto

lemma routes_are_operations: "set (route_table []) = set operation_list"
proof -
  have ops: "operation_list =
      [(''POST'', ''/api/v1alpha1/clusters''), (''GET'', ''/api/v1alpha1/clusters''),
       (''GET'', ''/api/v1alpha1/clusters/{clusterId}''), (''DELETE'', ''/api/v1alpha1/clusters/{clusterId}''),
       (''GET'', ''/api/v1alpha1/clusters/health'')]"
    by (simp add: operation_list_def openapi_operations_def)
  show ?thesis unfolding ops route_table_def by auto
qed

lemma post_route: "i < length (route_table []) \<Longrightarrow> route_table [] ! i = (''POST'', p) \<Longrightarrow> i = 1"
  by (auto simp: route_table_def less_Suc_eq nth_Cons split: nat.splits)

text \<open>
  C25: the endpoint a provider registers is the route that creates clusters.  The routes of the
  generated server are the operations of the document, no more and no less.  A process that loads
  the document gets through its initialisation in whatever order the paths come, validates requests
  unless the router cannot be made, and has the one path with a POST as the suffix of the endpoint in
  its payload; a POST to that path is served by \<open>CreateCluster\<close> with the id of the query.  Assumed are
  that the text embedded is this document and that the router matches a static pattern by itself.
\<close>

theorem endpoint_reaches_create:
  assumes "swagger = Inr spec" "set (paths spec) = (\<lambda>(p, ms). (p, ''POST'' \<in> set ms)) ` set openapi_operations"
    and "static_routes (ev_mux env)"
  shows "set (route_table []) = {(m, p). \<exists>ms. (p, ms) \<in> set openapi_operations \<and> m \<in> set ms}
    \<and> validation_router swagger clear NewRouter = (case NewRouter (clear spec) of Inl e \<Rightarrow> None | Inr v \<Rightarrow> Some v)
    \<and> (\<exists>sfx. mustPostPath (map_sum id paths swagger) = Returns sfx
        \<and> (rg_endpointSuffix r = sfx \<and> rg_JoinPath r (rc_ProviderEndpoint (rg_cfg r)) sfx = Inr url \<longrightarrow>
            pr_Endpoint (buildPayload r versions) = url)
        \<and> (hq_Method q = ''POST'' \<and> hq_Path q = sfx \<and> BindQueryString (ev_binder env) ''id'' (hq_RawQuery q) = Inr iid \<longrightarrow>
            api_routes env ssi q s = si_CreateCluster (NewStrictHandler (ev_fnum env) (ev_json_err env) ssi [])
              \<lparr>crp_Id = iid\<rparr> q s))"
proof (intro conjI)
  show routes: "set (route_table []) = {(m, p). \<exists>ms. (p, ms) \<in> set openapi_operations \<and> m \<in> set ms}"
    unfolding routes_are_operations using operation_list_iff by auto
  show "validation_router swagger clear NewRouter = (case NewRouter (clear spec) of Inl e \<Rightarrow> None | Inr v \<Rightarrow> Some v)"
    by (simp add: validation_router_def assms(1))
  have "(''/api/v1alpha1/clusters'', True) \<in> set (paths spec)" unfolding assms(2) by (force simp: openapi_operations_def)
  then have "find snd (paths spec) \<noteq> None" by (metis find_None_iff snd_conv)
  then obtain sfx post where found: "find snd (paths spec) = Some (sfx, post)" by (metis not_None_eq surj_pair)
  then have "(sfx, True) \<in> set (paths spec)" using find_map_Some[OF found] by (cases post) simp_all
  then have "\<exists>ms. (sfx, ms) \<in> set openapi_operations \<and> ''POST'' \<in> set ms" unfolding assms(2) by auto
  then have "(''POST'', sfx) \<in> set (route_table [])" and static: "CHR ''{'' \<notin> set sfx"
    unfolding routes by (auto simp: openapi_operations_def)
  then obtain i where i: "i < length (route_table [])" "route_table [] ! i = (''POST'', sfx)" by (metis in_set_conv_nth)
  have "ev_mux env (route_table []) ''POST'' sfx = Matched 1 []"
    using assms(3) routes_distinct i static post_route[OF i] unfolding static_routes_def by blast
  then show "\<exists>sfx. mustPostPath (map_sum id paths swagger) = Returns sfx
        \<and> (rg_endpointSuffix r = sfx \<and> rg_JoinPath r (rc_ProviderEndpoint (rg_cfg r)) sfx = Inr url \<longrightarrow>
            pr_Endpoint (buildPayload r versions) = url)
        \<and> (hq_Method q = ''POST'' \<and> hq_Path q = sfx \<and> BindQueryString (ev_binder env) ''id'' (hq_RawQuery q) = Inr iid \<longrightarrow>
            api_routes env ssi q s = si_CreateCluster (NewStrictHandler (ev_fnum env) (ev_json_err env) ssi [])
              \<lparr>crp_Id = iid\<rparr> q s)"
    using found by (intro exI[of _ sfx])
      (auto simp: mustPostPath_def PostPath_def assms(1) buildPayload_def api_routes_cases Let_def)
qed

theorem endpoint_reaches_create_witness:
  "mustPostPath (map_sum id id (Inr [(''/api/v1alpha1/clusters/health'', False), (clusters_path, True),
       (''/api/v1alpha1/clusters/{clusterId}'', False)])) = Returns clusters_path
   \<and> api_routes simple_env (handler_ssi (dispatcher_service mem_client sample_cfg nat_quantities [''kubevirt''] 1)
        ''u-1'' (Check no_agents gvk_Kind sample_health ''1.0'' 3)) (get_request ''POST'' clusters_path) two_hub
     = (undecodable_ops (ev_json_err simple_env) (get_request ''POST'' clusters_path), Finished, two_hub)"
proof -
  let ?paths = "[(''/api/v1alpha1/clusters/health'', False), (clusters_path, True), (''/api/v1alpha1/clusters/{clusterId}'', False)]"
  let ?sw = "Inr ?paths :: go_error + (string \<times> bool) list"
  let ?q = "get_request ''POST'' clusters_path"
  let ?ssi = "handler_ssi (dispatcher_service mem_client sample_cfg nat_quantities [''kubevirt''] 1)
      ''u-1'' (Check no_agents gvk_Kind sample_health ''1.0'' 3)"
  have post: "mustPostPath (map_sum id id ?sw) = Returns clusters_path"
    by (simp add: mustPostPath_def PostPath_def)
  have doc: "set (id ?paths) = (\<lambda>(p, ms). (p, ''POST'' \<in> set ms)) ` set openapi_operations"
    by (auto simp: openapi_operations_def clusters_path_def)
  have mux: "static_routes (ev_mux simple_env)" by (simp add: simple_env_def simple_mux_static)
  have bound: "BindQueryString (ev_binder simple_env) ''id'' [] = Inr None"
    by (simp add: simple_env_def simple_binder_def)
  obtain sfx where "mustPostPath (map_sum id id ?sw) = Returns sfx"
    and "hq_Method ?q = ''POST'' \<and> hq_Path ?q = sfx \<and> BindQueryString (ev_binder simple_env) ''id'' (hq_RawQuery ?q) = Inr None \<longrightarrow>
      api_routes simple_env ?ssi ?q two_hub =
        si_CreateCluster (NewStrictHandler (ev_fnum simple_env) (ev_json_err simple_env) ?ssi []) \<lparr>crp_Id = None\<rparr> ?q two_hub"
    using endpoint_reaches_create[where swagger = ?sw and paths = id, OF refl doc mux,
        where q = ?q and iid = None and ssi = ?ssi and s = two_hub, THEN conjunct2, THEN conjunct2] by blast
  then have reach: "BindQueryString (ev_binder simple_env) ''id'' [] = Inr None \<longrightarrow>
      api_routes simple_env ?ssi ?q two_hub =
        si_CreateCluster (NewStrictHandler (ev_fnum simple_env) (ev_json_err simple_env) ?ssi []) \<lparr>crp_Id = None\<rparr> ?q two_hub"
    using post by simp
  have "api_routes simple_env ?ssi ?q two_hub
      = si_CreateCluster (strict_api simple_env (dispatcher_service mem_client sample_cfg nat_quantities [''kubevirt''] 1)
          ''u-1'' (Check no_agents gvk_Kind sample_health ''1.0'' 3)) \<lparr>crp_Id = None\<rparr> ?q two_hub"
    using reach bound by simp
  then show ?thesis using post by (simp add: strict_create decode_body_def)
qed

end
