(* ===== verification/ServerTypes.thy ===== *)
theory ServerTypes
  imports ApiJsonLaws HttpServer
begin

text \<open>
  The types of the generated server, \<open>internal/api/server/server.gen.go\<close>, are generated from the same
  document as those of \<open>api/v1alpha1\<close>, as separate Go types with their own methods.  The development has one
  record for both; here are the server's own enumerations and JSON methods, and the theorem that
  they are the ones the records are read and written with.
\<close>

subsection \<open>Enumerations of the server package\<close>

definition server_Platform_Valid :: "string \<Rightarrow> bool" where
  "server_Platform_Valid e =
     (if e = ''baremetal'' then True else if e = ''kubevirt'' then True else False)"

definition server_ClusterStatus_Valid :: "string \<Rightarrow> bool" where
  "server_ClusterStatus_Valid e =
     (if e = ''DELETED'' then True else if e = ''DELETING'' then True else if e = ''FAILED'' then True
      else if e = ''PENDING'' then True else if e = ''PROVISIONING'' then True else if e = ''READY'' then True
      else if e = ''UNAVAILABLE'' then True else False)"

definition server_ServiceType_Valid :: "string \<Rightarrow> bool" where
  "server_ServiceType_Valid e = (if e = ''cluster'' then True else False)"

definition server_ControlPlaneSpecCount_Valid :: "int \<Rightarrow> bool" where
  "server_ControlPlaneSpecCount_Valid e =
     (if e = 1 then True else if e = 3 then True else if e = 5 then True else False)"

definition server_ErrorType_Valid :: "string \<Rightarrow> bool" where
  "server_ErrorType_Valid e =
     (if e = ''https://dcm-project.github.io/problems/already-exists'' then True
      else if e = ''https://dcm-project.github.io/problems/internal'' then True
      else if e = ''https://dcm-project.github.io/problems/invalid-argument'' then True
      else if e = ''https://dcm-project.github.io/problems/not-found'' then True
      else if e = ''https://dcm-project.github.io/problems/permission-denied'' then True
      else if e = ''https://dcm-project.github.io/problems/unauthenticated'' then True
      else if e = ''https://dcm-project.github.io/problems/unavailable'' then True
      else if e = ''https://dcm-project.github.io/problems/unprocessable-entity'' then True
      else False)"

subsection \<open>The JSON methods of the server's ProviderHints\<close>

text \<open>
  Go's maps as association lists without repeated keys; a nil map and an empty one are the empty list, since
  no method of the type tells them apart.
\<close>

definition server_hints_Get :: "ProviderHints \<Rightarrow> string \<Rightarrow> json option \<times> bool" where
  "server_hints_Get a fieldName =
     (case map_of (ph_AdditionalProperties a) fieldName of None \<Rightarrow> (None, False) | Some v \<Rightarrow> (Some v, True))"

definition server_hints_Set :: "string \<Rightarrow> json \<Rightarrow> ProviderHints \<Rightarrow> ProviderHints" where
  "server_hints_Set fieldName v a = a\<lparr>ph_AdditionalProperties := upsert fieldName v (ph_AdditionalProperties a)\<rparr>"

text \<open>The loop of \<open>UnmarshalJSON\<close> over what is left of the object.\<close>

fun server_additional ::
  "(string \<Rightarrow> string option) \<Rightarrow> (string \<times> json) list \<Rightarrow> (string \<times> json) list \<Rightarrow> string + (string \<times> json) list" where
  "server_additional fnum [] props = Inr props"
| "server_additional fnum ((fieldName, fieldBuf) # object) props =
     (case dec_any fnum fieldBuf of
        None \<Rightarrow> Inl (''error unmarshaling field '' @ fieldName)
      | Some fieldVal \<Rightarrow> server_additional fnum object (upsert fieldName fieldVal props))"

text \<open>\<open>object\<close> is the map the text was read into; the error is the prefix the method gives it.\<close>

definition server_UnmarshalJSON ::
  "(string \<Rightarrow> string option) \<Rightarrow> (string \<times> json) list \<Rightarrow> ProviderHints \<Rightarrow> string + ProviderHints" where
  "server_UnmarshalJSON fnum object a =
     (case (case map_of object ''acm'' of
          None \<Rightarrow> Inr (object, a)
        | Some raw \<Rightarrow>
            (case dec_ptr zero_ACMProviderHints dec_ACMProviderHints raw (ph_Acm a) of
               None \<Rightarrow> Inl ''error reading 'acm' ''
             | Some acm \<Rightarrow> Inr (filter (\<lambda>(k, v). k \<noteq> ''acm'') object, a\<lparr>ph_Acm := acm\<rparr>))) of
        Inl err \<Rightarrow> Inl err
      | Inr (object, a) \<Rightarrow>
          if length object \<noteq> 0
          then (case server_additional fnum object [] of
             Inl err \<Rightarrow> Inl err
           | Inr props \<Rightarrow> Inr (a\<lparr>ph_AdditionalProperties := props\<rparr>))
          else Inr a)"

definition server_MarshalJSON :: "ProviderHints \<Rightarrow> json" where
  "server_MarshalJSON a =
     (let object = [];
          object = (case ph_Acm a of None \<Rightarrow> object | Some acm \<Rightarrow> upsert ''acm'' (enc_ACMProviderHints acm) object);
          object = foldl (\<lambda>object (fieldName, field). upsert fieldName field object) object (ph_AdditionalProperties a)
      in JObject object)"

definition HandlerFromMux :: "mux \<Rightarrow> param_binder \<Rightarrow> 's ServerInterface \<Rightarrow> 's script" where
  "HandlerFromMux mux bd si =
     HandlerWithOptions mux bd si \<lparr>so_BaseURL = [], so_Middlewares = [], so_ErrorHandlerFunc = None\<rparr>"

subsection \<open>The two packages agree\<close>

lemma server_enumerations:
  "server_Platform_Valid = ACMProviderHintsPlatform_Valid" "server_ClusterStatus_Valid = ClusterStatus_Valid"
  "server_ServiceType_Valid = ClusterSpecServiceType_Valid"
  "server_ControlPlaneSpecCount_Valid = ControlPlaneSpecCount_Valid" "server_ErrorType_Valid = ErrorType_Valid"
  by (auto simp: fun_eq_iff server_Platform_Valid_def ACMProviderHintsPlatform_Valid_def Baremetal_def Kubevirt_def
      server_ClusterStatus_Valid_def ClusterStatus_Valid_def server_ServiceType_Valid_def
      ClusterSpecServiceType_Valid_def ClusterSpecServiceTypeCluster_def server_ControlPlaneSpecCount_Valid_def
      ControlPlaneSpecCount_Valid_def server_ErrorType_Valid_def ErrorType_Valid_def known_types_def)

lemma server_additional_eq:
  "(case server_additional fnum object props of Inl e \<Rightarrow> None | Inr m \<Rightarrow> Some m) = dec_any_members fnum object props"
  by (induction fnum object props rule: server_additional.induct) (simp_all split: option.split)

lemma server_marshal: "server_MarshalJSON a = enc_ProviderHints a"
  by (simp add: server_MarshalJSON_def enc_ProviderHints_def foldl_conv_fold Let_def case_prod_beta'
      cong: option.case_cong)

lemma server_unmarshal:
  "dec_ProviderHints fnum (JObject kvs) a =
     (case server_UnmarshalJSON fnum (fold (\<lambda>(k, v). upsert k v) kvs []) a of Inl e \<Rightarrow> None | Inr a' \<Rightarrow> Some a')"
proof -
  let ?o = "fold (\<lambda>(k, v). upsert k v) kvs []"
  have none: "filter (\<lambda>(k, v). k \<noteq> ''acm'') ?o = ?o" if "map_of ?o ''acm'' = None"
    using that by (force simp: filter_id_conv map_of_eq_None_iff)
  show ?thesis
    using none server_additional_eq[of fnum _ "[]"]
    by (auto simp: dec_ProviderHints_def server_UnmarshalJSON_def Let_def split: option.split sum.split
        simp flip: server_additional_eq)
qed

text \<open>
  Hints written by either package are read back by the other one: what the handler hands to the service
  is what the client sent, and every status and every named error type on the wire is one the
  enumerations of the server accept.
\<close>

theorem server_types_agree:
  assumes "wf_ProviderHints fnum a"
  shows "server_MarshalJSON a = enc_ProviderHints a
    \<and> (\<exists>kvs. enc_ProviderHints a = JObject kvs
        \<and> server_UnmarshalJSON fnum (fold (\<lambda>(k, v). upsert k v) kvs []) \<lparr>ph_Acm = None, ph_AdditionalProperties = []\<rparr> = Inr a)
    \<and> server_ClusterStatus_Valid (status_string st)
    \<and> (server_ErrorType_Valid (error_type_uri t) \<or> (\<exists>s. t = ErrorTypeOther s))"
proof (intro conjI)
  obtain kvs where kvs: "enc_ProviderHints a = JObject kvs" by (simp add: enc_ProviderHints_def Let_def)
  then show "\<exists>kvs. enc_ProviderHints a = JObject kvs
      \<and> server_UnmarshalJSON fnum (fold (\<lambda>(k, v). upsert k v) kvs []) \<lparr>ph_Acm = None, ph_AdditionalProperties = []\<rparr> = Inr a"
    using ProviderHints_back[OF assms] by (auto simp: server_unmarshal split: sum.splits)
  show "server_ClusterStatus_Valid (status_string st)"
    unfolding server_enumerations ClusterStatus_Valid_def by (cases st) simp_all
  show "server_ErrorType_Valid (error_type_uri t) \<or> (\<exists>s. t = ErrorTypeOther s)"
    unfolding server_enumerations ErrorType_Valid_def known_types_def by (cases t) simp_all
qed (rule server_marshal)

theorem server_types_agree_witness:
  "\<exists>kvs. server_UnmarshalJSON (\<lambda>s. Some s) kvs \<lparr>ph_Acm = None, ph_AdditionalProperties = []\<rparr>
     = Inr \<lparr>ph_Acm = None, ph_AdditionalProperties = [(''site'', JString ''lab'')]\<rparr>"
proof -
  let ?a = "\<lparr>ph_Acm = None, ph_AdditionalProperties = [(''site'', JString ''lab'')]\<rparr>"
  have "wf_ProviderHints (\<lambda>s. Some s) ?a" by (simp add: wf_ProviderHints_def sorted_map_def)
  from server_types_agree[OF this] show ?thesis by blast
qed

end
