(* ===== verification/Fixtures.thy ===== *)
theory Fixtures
  imports Operations
begin

text \<open>
  The fixtures of the test suites, \<open>internal/cluster/clustertest/helpers.go\<close>.  They write the labels of
  the provider as literals; the theorem shows that they are the ones the service looks for, and that
  the image sets and the release of the fixtures are those of the compatibility matrix.  The fake
  client of controller-runtime is a parameter.
\<close>

definition TestNamespace :: string where "TestNamespace = ''test-clusters''"
definition TestBaseDomain :: string where "TestBaseDomain = ''example.com''"

definition DefaultConfig :: ClusterConfig where
  "DefaultConfig = \<lparr>cc_ClusterNamespace = TestNamespace, cc_BaseDomain = TestBaseDomain, cc_PullSecret = [],
     cc_PullSecretName = ''test-sp-pull-secret'',
     cc_ConsoleURIPattern = ''https://console-openshift-console.apps.{name}.{base_domain}'',
     cc_VersionMatrixPath = [], cc_DefaultInfraEnv = [], cc_AgentNamespace = [], cc_InfraEnvLabelKey = [],
     cc_VersionMatrix = DefaultCompatibilityMatrix\<rparr>"

text \<open>An unstructured ClusterImageSet, of which the service reads the release image only.\<close>

datatype 'o test_object = ClusterImageSetObject (cis_name: string) (cis_releaseImage: string) | GivenObject 'o

definition BuildClusterImageSet :: "string \<Rightarrow> string \<Rightarrow> 'o test_object" where
  "BuildClusterImageSet name releaseImage = ClusterImageSetObject name releaseImage"

definition DefaultClusterImageSets :: "'o test_object list" where
  "DefaultClusterImageSets =
     [BuildClusterImageSet ''ocp-4.15.2'' ''quay.io/openshift-release-dev/ocp-release:4.15.2-x86_64'',
      BuildClusterImageSet ''ocp-4.17.0'' ''quay.io/openshift-release-dev/ocp-release:4.17.0-x86_64'']"

definition BuildFakeClient ::
  "('o test_object list \<Rightarrow> 'c) \<Rightarrow> ('f \<Rightarrow> 'c \<Rightarrow> 'c) \<Rightarrow> 'o list \<Rightarrow> 'f option \<Rightarrow> 'c" where
  "BuildFakeClient WithObjects WithInterceptorFuncs objs fns =
     (let allObjs = DefaultClusterImageSets @ map GivenObject objs;
          built = WithObjects allObjs
      in case fns of None \<Rightarrow> built | Some f \<Rightarrow> WithInterceptorFuncs f built)"

definition WithDCMLabels :: "string \<Rightarrow> HostedCluster \<Rightarrow> HostedCluster" where
  "WithDCMLabels instanceID hc = hc\<lparr>hc_Labels := (hc_Labels hc)
     (''dcm.project/managed-by'' \<mapsto> ''dcm'',
      ''dcm.project/dcm-instance-id'' \<mapsto> instanceID,
      ''dcm.project/dcm-service-type'' \<mapsto> ''cluster'')\<rparr>"

definition BuildHostedCluster :: "string \<Rightarrow> string \<Rightarrow> (HostedCluster \<Rightarrow> HostedCluster) list \<Rightarrow> HostedCluster" where
  "BuildHostedCluster name namespace opts = fold (\<lambda>opt hc. opt hc) opts
     \<lparr>hc_Name = name, hc_Namespace = namespace, hc_Labels = Map.empty, hc_Annotations = Map.empty,
      hc_CreationTimestamp = 0, hc_DeletionTimestamp = None, hc_PlatformType = KubevirtPlatform,
      hc_AgentNamespace = None, hc_ReleaseImage = ''quay.io/openshift-release-dev/ocp-release:4.17.0-x86_64'',
      hc_BaseDomain = [], hc_Services = [], hc_Etcd = None, hc_PullSecretName = [], hc_Conditions = [],
      hc_KubeConfigName = None, hc_EndpointHost = [], hc_EndpointPort = 0\<rparr>"

lemma labelled_fixture:
  "hc_Labels (BuildHostedCluster name ns [WithDCMLabels i]) = DCMLabels i"
  "hc_Namespace (BuildHostedCluster name ns [WithDCMLabels i]) = ns"
  "hc_Name (BuildHostedCluster name ns [WithDCMLabels i]) = name"
  "hc_ReleaseImage (BuildHostedCluster name ns [WithDCMLabels i]) =
     ''quay.io/openshift-release-dev/ocp-release:4.17.0-x86_64''"
  "MapConditionsToStatus (hc_Conditions (BuildHostedCluster name ns [WithDCMLabels i]))
     (hc_DeletionTimestamp (BuildHostedCluster name ns [WithDCMLabels i])) = PENDING"
  by (simp_all add: BuildHostedCluster_def WithDCMLabels_def DCMLabels_def LabelManagedBy_def LabelInstanceID_def
      LabelServiceType_def ValueManagedBy_def ValueServiceType_def MapConditionsToStatus_def fun_upd_twist)

lemma fixture_versions:
  "ExtractOCPVersion ''quay.io/openshift-release-dev/ocp-release:4.15.2-x86_64'' = ''4.15''"
  "ExtractOCPVersion ''quay.io/openshift-release-dev/ocp-release:4.17.0-x86_64'' = ''4.17''"
  by code_simp+

text \<open>
  On a hub with the default image sets and one labelled fixture, the service finds the fixture under its
  id, reads its version back as 1.30, reports it pending, and offers exactly the versions 1.28 and 1.30.
\<close>

theorem fixtures_fit_the_service:
  assumes "hub_api c view"
    and "hub_hcs (view s) = [BuildHostedCluster name TestNamespace [WithDCMLabels iid]]"
    and "hub_images (view s) = map cis_releaseImage (DefaultClusterImageSets :: unit test_object list)"
  shows "(GetCluster c DefaultConfig iid s = (r, s1) \<longrightarrow>
      (case r of
         Inl e \<Rightarrow> domain_type e = Some ErrorTypeINTERNAL
       | Inr cl \<Rightarrow> cl_Id cl = Some iid \<and> cm_Name (cs_Metadata (cl_Spec cl)) = name
           \<and> cs_Version (cl_Spec cl) = ''1.30'' \<and> cl_Status cl = Some ''PENDING''))
    \<and> (DiscoverVersions c (cc_VersionMatrix DefaultConfig) s = (Inr vs, s2) \<longrightarrow> set vs = {''1.28'', ''1.30''})"
proof (intro conjI impI)
  let ?hc = "BuildHostedCluster name TestNamespace [WithDCMLabels iid]"
  have mine: "has_instance TestNamespace iid ?hc" by (simp add: has_instance_def labelled_fixture)
  have ns: "cc_ClusterNamespace DefaultConfig = TestNamespace" and m: "cc_VersionMatrix DefaultConfig = DefaultCompatibilityMatrix"
    by (simp_all add: DefaultConfig_def)
  have release: "ReleaseImageToK8sVersion (hc_ReleaseImage ?hc) DefaultCompatibilityMatrix = ''1.30''"
    unfolding labelled_fixture ReleaseImageToK8sVersion_def fixture_versions
    by (simp add: DefaultCompatibilityMatrix_def)
  {
    assume get: "GetCluster c DefaultConfig iid s = (r, s1)"
    show "case r of
         Inl e \<Rightarrow> domain_type e = Some ErrorTypeINTERNAL
       | Inr cl \<Rightarrow> cl_Id cl = Some iid \<and> cm_Name (cs_Metadata (cl_Spec cl)) = name
           \<and> cs_Version (cl_Spec cl) = ''1.30'' \<and> cl_Status cl = Some ''PENDING''"
    proof (cases "findByInstanceID c TestNamespace iid s")
      case (Pair f s')
      show ?thesis
      proof (cases f)
        case (Inl e)
        then show ?thesis
          using get Pair mine assms(2) find_error[OF assms(1) Pair[unfolded Inl]] by (auto simp: GetCluster_def ns)
      next
        case (Inr hc)
        then have "hc = ?hc" using find_ok(1)[OF assms(1) Pair[unfolded Inr]] assms(2) by simp
        moreover have "r = Inr (fst (HostedClusterToCluster c DefaultConfig hc s'))"
          using get Pair Inr by (auto simp: GetCluster_def ns Let_def split: prod.splits)
        ultimately show ?thesis
          using release by (simp add: convert_fields m labelled_fixture map_get_def)
      qed
    qed
  }
  assume "DiscoverVersions c (cc_VersionMatrix DefaultConfig) s = (Inr vs, s2)"
  note advertised_iff(3)[OF assms(1) this]
  moreover have "(\<exists>i \<in> set (hub_images (view s)). i \<noteq> [] \<and> map_of DefaultCompatibilityMatrix (ExtractOCPVersion i) = Some v)
      \<longleftrightarrow> v = ''1.28'' \<or> v = ''1.30''" for v
    by (auto simp: assms(3) DefaultClusterImageSets_def BuildClusterImageSet_def fixture_versions DefaultCompatibilityMatrix_def)
  ultimately show "set vs = {''1.28'', ''1.30''}" by (auto simp: m)
qed

theorem fixtures_fit_the_service_witness:
  "\<exists>cl h h'. GetCluster mem_client DefaultConfig ''id-7'' h = (Inr cl, h')
     \<and> hub_hcs h = [BuildHostedCluster ''demo'' TestNamespace [WithDCMLabels ''id-7'']]
     \<and> cs_Version (cl_Spec cl) = ''1.30''"
proof -
  let ?hc = "BuildHostedCluster ''demo'' TestNamespace [WithDCMLabels ''id-7'']"
  let ?h = "\<lparr>hub_hcs = [?hc], hub_nps = [], hub_images = map cis_releaseImage (DefaultClusterImageSets :: unit test_object list),
      hub_secrets = []\<rparr> :: nat hub"
  have "findByInstanceID mem_client TestNamespace ''id-7'' ?h = (Inr ?hc, ?h)"
    by (simp add: findByInstanceID_def mem_client_def matches_instance has_instance_def labelled_fixture)
  then obtain cl h' where got: "GetCluster mem_client DefaultConfig ''id-7'' ?h = (Inr cl, h')"
    by (simp add: GetCluster_def DefaultConfig_def case_prod_beta' Let_def)
  then have "cs_Version (cl_Spec cl) = ''1.30''"
    using fixtures_fit_the_service[OF mem_hub_api, where s = ?h and name = "''demo''" and iid = "''id-7''"
        and r = "Inr cl" and ?s1.0 = h'] by simp
  with got show ?thesis by (intro exI[of _ cl] exI[of _ ?h] exI[of _ h'] conjI) simp_all
qed

end
