(* ===== verification/StatusViews.thy ===== *)
theory StatusViews
  imports Monitor Dispatcher
begin

text \<open>
  The two ways to learn the status of a cluster: a Get (\<open>Operations\<close>, \<open>Convert\<close>), which reads the typed
  HostedCluster, and the events of the monitor (\<open>Monitor\<close>), which reads the object an informer hands it.
\<close>

text \<open>An object of an informer that shows the stored HostedCluster.\<close>

definition condition_facts :: "condition list \<Rightarrow> (string \<times> string) list" where
  "condition_facts cs = map (\<lambda>c. (co_Type c, co_Status c)) cs"

definition shows_cluster :: "HostedCluster \<Rightarrow> unstructured \<Rightarrow> bool" where
  "shows_cluster hc obj \<longleftrightarrow>
     us_Labels obj = Some (hc_Labels hc) \<and> us_DeletionTimestamp obj = hc_DeletionTimestamp hc
     \<and> condition_facts (extractConditions obj) = condition_facts (hc_Conditions hc)"

text \<open>The JSON form the API server gives it.\<close>

definition condition_json :: "condition \<Rightarrow> json" where
  "condition_json c = JObject [(''type'', JString (co_Type c)), (''status'', JString (co_Status c)),
     (''message'', JString (co_Message c))]"

definition informer_object :: "HostedCluster \<Rightarrow> unstructured" where
  "informer_object hc = \<lparr>us_Name = hc_Name hc, us_Namespace = hc_Namespace hc, us_Labels = Some (hc_Labels hc),
     us_DeletionTimestamp = hc_DeletionTimestamp hc,
     us_Object = [(''status'', JObject [(''conditions'', JArray (map condition_json (hc_Conditions hc)))])]\<rparr>"

lemma informer_object_shows: "shows_cluster hc (informer_object hc)"
proof -
  have "condition_facts (conditions_of (map condition_json cs)) = condition_facts cs" for cs
    by (induction cs) (simp_all add: condition_facts_def condition_json_def string_field_def)
  then show ?thesis by (simp add: shows_cluster_def informer_object_def extractConditions_def)
qed

lemma condition_of_facts:
  "conditionIsTrue cs t \<longleftrightarrow> map_of (condition_facts cs) t = Some ConditionTrue"
  "conditionIsFalse cs t \<longleftrightarrow> map_of (condition_facts cs) t = Some ConditionFalse"
  by (induction cs) (auto simp: condition_facts_def)

lemma shown_status:
  "shows_cluster hc obj \<Longrightarrow>
   MapConditionsToStatus (extractConditions obj) (us_DeletionTimestamp obj)
     = MapConditionsToStatus (hc_Conditions hc) (hc_DeletionTimestamp hc)"
  by (simp add: shows_cluster_def MapConditionsToStatus_def condition_of_facts)

lemma shown_instance:
  "shows_cluster hc obj \<Longrightarrow> hc_Labels hc LabelInstanceID = Some iid \<Longrightarrow> extractInstanceID obj = iid"
  by (simp add: shows_cluster_def extractInstanceID_def map_get_def)

subsection \<open>A created cluster is watched\<close>

text \<open>
  C21: every cluster the provider creates is reported under its id.  After a successful creation the two
  new objects carry the labels the informers select and the list operation asks for, the index of the informers
  files the HostedCluster under the instance id, and the first informer event on it publishes the status a
  Get would read from it, unless the id was being tracked before.
\<close>

theorem created_is_monitored:
  assumes "hub_api c view" "iid \<noteq> []"
    and "dispatcher_Create c cfg qa services now iid req s = (Inr cl, s1)"
  shows "\<exists>hc np. view s1 = (view s)\<lparr>hub_hcs := hc # hub_hcs (view s), hub_nps := np # hub_nps (view s)\<rparr>
    \<and> hc_matches (cc_ClusterNamespace cfg) managed_selector hc
    \<and> np_matches (cc_ClusterNamespace cfg) managed_selector np
    \<and> (\<forall>obj. shows_cluster hc obj \<longrightarrow>
          InstanceIDIndexFunc (Unstructured obj) = Some [iid]
          \<and> (\<forall>st. st iid = None \<longrightarrow>
               (\<exists>msg. fst (handle_event (HCSeen obj) st) =
                  (iid, Some \<lparr>ev_InstanceID = iid, ev_Status = MapConditionsToStatus (hc_Conditions hc) None,
                              ev_Message = msg\<rparr>))))"
proof -
  obtain i hc np where hc: "created_hc cfg iid req i hc" "hc_DeletionTimestamp hc = None"
    and np: "created_np cfg iid req i np"
    and v1: "view s1 = (view s)\<lparr>hub_hcs := hc # hub_hcs (view s), hub_nps := np # hub_nps (view s)\<rparr>"
    using create_on_hub[OF assms(1,3)] by (auto simp: create_ok_def)
  have labels: "hc_matches (cc_ClusterNamespace cfg) managed_selector hc" "np_matches (cc_ClusterNamespace cfg) managed_selector np"
    using hc np by (simp_all add: created_hc_def created_np_def hc_matches_def np_matches_def selects_def
        managed_selector_def hc_key_def np_key_def)
  have mine: "extractInstanceID obj = iid" if "shows_cluster hc obj" for obj
    using shown_instance[OF that] hc(1) by (simp add: created_hc_def)
  have "\<exists>msg. fst (handle_event (HCSeen obj) st) =
      (iid, Some \<lparr>ev_InstanceID = iid, ev_Status = MapConditionsToStatus (hc_Conditions hc) None, ev_Message = msg\<rparr>)"
    if "shows_cluster hc obj" "st iid = None" for obj st
    using shown_status[OF that(1)] hc(2) assms(2) that(2)
    by (simp add: handle_event_def reconcileResource_def reconcile_hc_def mine[OF that(1)] Let_def getOrCreate_def
        publish_composite_cases ComputeCompositeStatus_def)
  then show ?thesis
    using v1 labels mine assms(2) by (intro exI[of _ hc] exI[of _ np]) (auto simp: InstanceIDIndexFunc_def Let_def)
qed

theorem created_is_monitored_witness:
  "\<exists>cl s1 hc. dispatcher_Create mem_client sample_cfg nat_quantities (dispatcher_New [''kubevirt'']) 1
      ''id-9'' sized_req sample_hub = (Inr cl, s1) \<and> hub_hcs s1 = hc # hub_hcs sample_hub
    \<and> InstanceIDIndexFunc (Unstructured (informer_object hc)) = Some [''id-9'']"
proof -
  obtain cl s1 where run: "dispatcher_Create mem_client sample_cfg nat_quantities (dispatcher_New [''kubevirt'']) 1
      ''id-9'' sized_req sample_hub = (Inr cl, s1)" using sample_create by blast
  have "''id-9'' \<noteq> []" by simp
  from created_is_monitored[OF mem_hub_api this run] obtain hc np where
    "id s1 = (id sample_hub)\<lparr>hub_hcs := hc # hub_hcs (id sample_hub), hub_nps := np # hub_nps (id sample_hub)\<rparr>"
    and "\<forall>obj. shows_cluster hc obj \<longrightarrow> InstanceIDIndexFunc (Unstructured obj) = Some [''id-9'']"
    by blast
  then have "hub_hcs s1 = hc # hub_hcs sample_hub"
    and "InstanceIDIndexFunc (Unstructured (informer_object hc)) = Some [''id-9'']"
    by (simp_all add: informer_object_shows)
  with run show ?thesis by blast
qed

subsection \<open>Events and reads agree\<close>

text \<open>
  C10: subscribers and readers are told the same, or something worse about the workers.  When the monitor
  handles the current HostedCluster of an instance, whatever it saw before, the status it has last published is
  the one a Get answers with, or the status of the NodePool, and then only one that is worse; so a
  cluster published as ready is read as ready, and without a NodePool seen the two agree.
\<close>

theorem event_agrees_with_get:
  assumes "hub_api c view" "consistent cfg (view s)" "GetCluster c cfg iid s = (Inr cl, s')" "iid \<noteq> []"
    and "hc \<in> set (hub_hcs (view s))" "has_instance (cc_ClusterNamespace cfg) iid hc" "shows_cluster hc obj"
    and "st = fold (\<lambda>ev st. snd (handle_event ev st)) history Map.empty"
    and "handle_event (HCSeen obj) st = (out, st')"
  shows "\<exists>got published. cl_Status cl = Some (status_string got)
    \<and> is_lastPublished (getOrCreate st' iid) = Some published
    \<and> got \<le> published
    \<and> (published = got \<or> is_npStatus (getOrCreate st' iid) = Some published)
    \<and> (published = READY \<longrightarrow> got = READY)
    \<and> (case snd out of None \<Rightarrow> True | Some e \<Rightarrow> ev_InstanceID e = iid \<and> ev_Status e = published)"
proof -
  let ?g = "MapConditionsToStatus (hc_Conditions hc) (hc_DeletionTimestamp hc)" and ?n = "is_npStatus (getOrCreate st' iid)"
  have id: "event_instance (HCSeen obj) = iid"
    using shown_instance[OF assms(7)] assms(6) by (simp add: event_instance_def has_instance_def Let_def)
  have coh: "coherent st" unfolding assms(8) by (rule coherent_run[OF coherent_initial])
  have "coherent st'" by (rule coherent_step[OF coh assms(9)])
  then have last: "is_lastPublished (getOrCreate st' iid) = public_status (abs_instance st' iid)" by (simp add: coherent_def)
  have base: "is_lastPublished (getOrCreate st iid) = public_status (abs_instance st iid)"
    using coh by (simp add: coherent_def)
  note step = step_refines[OF assms(9) id[symmetric] assms(4) base]
  have "fst (abs_instance st' iid) = Some ?g"
    using step shown_status[OF assms(7)]
    by (simp add: refines_step_def abs_instance_tracked getOrCreate_None tracked_of_def track_def)
  then have pub: "public_status (abs_instance st' iid) = Some (ComputeCompositeStatus ?g ?n)"
    by (simp add: public_status_def abs_instance_def)
  have told: "case snd out of None \<Rightarrow> True | Some e \<Rightarrow> ev_InstanceID e = iid \<and> ev_Status e = ComputeCompositeStatus ?g ?n"
    using step pub unfolding refines_step_def abs_instance_tracked by (auto simp: announces_def split: if_splits)
  obtain h s1 where find: "findByInstanceID c (cc_ClusterNamespace cfg) iid s = (Inr h, s1)"
    and cl: "cl = fst (HostedClusterToCluster c cfg h s1)"
    using assms(3) by (auto simp: GetCluster_def Let_def split: prod.splits sum.splits)
  have "h = hc"
    using find_ok[OF assms(1) find] assms(2,5,6) unfolding consistent_def by blast
  then have "cl_Status cl = Some (status_string ?g)" by (simp add: cl convert_fields)
  moreover have "?g \<le> ComputeCompositeStatus ?g ?n" "ComputeCompositeStatus ?g ?n = ?g \<or> ?n = Some (ComputeCompositeStatus ?g ?n)"
    by (auto simp: composite_max max_def split: option.split)
  moreover have "ComputeCompositeStatus ?g ?n = READY \<longrightarrow> ?g = READY"
    by (cases ?g) (auto simp: ComputeCompositeStatus_def split: option.splits if_splits)
  ultimately show ?thesis
    using last pub told by (intro exI[of _ ?g] exI[of _ "ComputeCompositeStatus ?g ?n"] conjI) simp_all
qed

text \<open>A ready cluster whose NodePool is not: a Get says ready, the event unavailable.\<close>

theorem event_agrees_with_get_witness:
  "\<exists>cl s' out st' got. GetCluster mem_client sample_cfg ''id-1'' ready_hub = (Inr cl, s') \<and> cl_Status cl = Some ''READY''
    \<and> handle_event (HCSeen (informer_object ready_hc))
        (snd (handle_event (NPSeen (seen_object ''id-1'' [(''Ready'', ''False'')])) Map.empty)) = (out, st')
    \<and> cl_Status cl = Some (status_string got) \<and> got \<le> UNAVAILABLE
    \<and> is_lastPublished (getOrCreate st' ''id-1'') = Some UNAVAILABLE"
proof -
  let ?np = "NPSeen (seen_object ''id-1'' [(''Ready'', ''False'')])" and ?obj = "informer_object ready_hc"
  let ?st = "snd (handle_event ?np Map.empty)"
  obtain cl s' where get: "GetCluster mem_client sample_cfg ''id-1'' ready_hub = (Inr cl, s')"
    using ready_find by (simp add: GetCluster_def case_prod_beta' Let_def sample_ns)
  obtain out st' where ev: "handle_event (HCSeen ?obj) ?st = (out, st')" by (meson surj_pair)
  have hub: "consistent sample_cfg (id ready_hub)" "ready_hc \<in> set (hub_hcs (id ready_hub))"
    "has_instance (cc_ClusterNamespace sample_cfg) ''id-1'' ready_hc"
    by (simp_all add: consistent_def ready_hub_def ready_hc_def has_instance_def sample_ns)
  have id: "''id-1'' \<noteq> []" and st: "?st = fold (\<lambda>ev st. snd (handle_event ev st)) [?np] Map.empty" by simp_all
  from event_agrees_with_get[OF mem_hub_api hub(1) get id hub(2,3) informer_object_shows st ev]
  obtain got published where agree: "cl_Status cl = Some (status_string got)" "got \<le> published"
      "is_lastPublished (getOrCreate st' ''id-1'') = Some published"
      "case snd out of None \<Rightarrow> True | Some e \<Rightarrow> ev_InstanceID e = ''id-1'' \<and> ev_Status e = published"
    by blast
  have "\<exists>msg. out = (''id-1'', Some \<lparr>ev_InstanceID = ''id-1'', ev_Status = UNAVAILABLE, ev_Message = msg\<rparr>)"
    using ev shown_status[OF informer_object_shows, of ready_hc] ready_status
      shown_instance[OF informer_object_shows, of ready_hc "''id-1''"] hub(3)
    by (auto simp: handle_event_def reconcileResource_def reconcile_np_def reconcile_hc_def has_instance_def
      seen_object_facts MapNodePoolConditionsToStatus_def getOrCreate_def new_instance_def publish_composite_cases
      ComputeCompositeStatus_def ConditionTrue_def ConditionFalse_def Let_def split: prod.splits)
  then have "published = UNAVAILABLE" using agree(4) by auto
  moreover have "cl_Status cl = Some ''READY''"
    using get ready_find ready_status
    by (auto simp: GetCluster_def sample_ns Let_def convert_fields split: prod.splits dest: fstI[symmetric])
  ultimately show ?thesis using get ev agree(1-3) by (intro exI conjI) auto
qed

end
