(* ===== verification/Spec2Isabelle.thy ===== *)
theory Spec2Isabelle
  imports StatusPipeline Registration EndToEnd Startup Concurrent Deadline EmbeddedSpec ServerTypes Fixtures
    StatusViews
begin

text \<open>
  Verification of the ACM cluster service provider, a Go service that offers OpenShift clusters on an
  ACM hub (HyperShift) through an HTTP API, registers itself with a control plane and reports the
  status of its clusters as events.

  The program and the theories.  A request passes the middleware chain of \<open>internal/apiserver\<close>
  (\<open>ApiServer\<close>) and the generated server of \<open>internal/api/server\<close> (\<open>HttpServer\<close>: routes, parameters,
  decoding of the body, writing of the response; \<open>HttpApi\<close> is the whole of it as \<open>main.go\<close> composes it),
  reaches a handler of \<open>internal/handler\<close> (\<open>Handler\<close>, \<open>Health\<close> for the health
  endpoint), which validates it and calls the cluster service, an interface of \<open>internal/service\<close>
  (\<open>Service\<close>).  The service is the dispatcher of \<open>internal/cluster/dispatcher\<close> (\<open>Dispatcher\<close>): it
  sends a create to the KubeVirt or the BareMetal platform (\<open>Kubevirt\<close>, \<open>BaremetalProvider\<close>), which
  share the creation flow of \<open>internal/cluster/create.go\<close> (\<open>Create\<close>), and get, list and delete to
  \<open>internal/cluster/operations.go\<close> (\<open>Operations\<close>, with the list's paging in \<open>Pagination\<close>).  The
  conversion of a HostedCluster to the API's cluster is \<open>Convert\<close>, its status \<open>Status\<close>, the release
  image and version lookup \<open>Versions\<close>.  \<open>Concurrent\<close> runs many requests at once, each in its own goroutine,
  and \<open>Deadline\<close> runs one under the request timeout of \<open>middleware.go\<close>.  Three things run in the background: the registration with the
  control plane and its version watcher (\<open>Registration\<close>), the status monitor of
  \<open>internal/monitoring\<close> with its tracker (\<open>Monitor\<close>), debouncer (\<open>Debouncer\<close>), their wiring
  (\<open>StatusPipeline\<close>) and delivery (\<open>Publish\<close>), and, once at start, the pull secret (\<open>PullSecret\<close>).
  \<open>Startup\<close> is the process of \<open>cmd/acm-cluster-service-provider/main.go\<close> that builds and starts all of
  them.  The generated client of \<open>pkg/client\<close> is \<open>ApiClient\<close> (with the queries of \<open>net/url\<close> in \<open>UrlQuery\<close>);
  \<open>ClientServer\<close> runs it against the server, and \<open>EndToEnd\<close> follows one cluster through all of them, from its
  creation to its deletion, while other requests and the controllers run.  The JSON form of the API types and the JSON methods of
  \<open>types.gen.go\<close> are \<open>ApiJson\<close>, over the text of JSON (\<open>JsonText\<close>) and of times (\<open>Rfc3339\<close>), with their
  round trips in \<open>ApiJsonLaws\<close>; \<open>ServerTypes\<close> has the methods the generated server repeats for its own types.
  \<open>EmbeddedSpec\<close> is the loader of the OpenAPI document in \<open>spec.gen.go\<close>, \<open>Fixtures\<close> the fixtures of
  \<open>internal/cluster/clustertest\<close>.  \<open>ApiTypes\<close> holds the generated data types, the domain errors and the settings, \<open>GoStrings\<close> and
  \<open>Base64\<close> the part of Go's standard library the code uses, \<open>Prelude\<close> what all theories share.

  State and effects.  The cluster API client, the registry and the NATS connection are not part of
  the repository.  They are records of functions or function arguments: every call takes the state of
  the world and returns the next one, so retries, races with other writers and failures at any call
  are included.  \<open>Hub\<close> states what the code may rely on as the predicate \<open>hub_api\<close> (a list returns
  exactly the matching objects in some order, a create refuses an existing name, a failed call
  changes nothing, a delete removes the object or marks it), a hypothesis of the properties that need
  it; \<open>MemHub\<close> is a concrete client that satisfies it, on which the witnesses run.  Errors are values
  of \<open>go_error\<close> with the chain \<open>errors.As\<close> walks.  Numbers are unbounded with the conversions to 32 and
  64 bits written out (\<open>to_int32\<close>, \<open>to_uint32\<close>, \<open>to_int64\<close>, tied to machine words in \<open>Prelude\<close>).  Pointers
  are options, maps are partial functions, a map whose order of visit matters is a list of entries.
  Quantities, UUIDs and clocks are parameters, and so are the router of chi, the binding and styling of
  parameters, the parsing and resolving of URLs, the OpenAPI validator, the texts of JSON errors, the
  printing of a float, and the JSON of the matrix file and of the pull secret.  What is assumed of them
  is named where it is used: \<open>chi_like\<close>, \<open>plain_paths\<close>, \<open>query_laws\<close>, \<open>library_laws\<close>, \<open>stable_floats\<close>, each with a
  concrete instance.

  Interfaces.  \<open>platform_builder\<close> (in \<open>Create\<close>) is what the creation flow needs of a platform, with the
  two platforms as its interpretations; \<open>cluster_service_contract\<close> (in \<open>Service\<close>) is what the handlers
  need of the service, interpreted by the dispatcher; \<open>health_checker\<close> (in \<open>Health\<close>) is what the health
  endpoint needs of a checker, interpreted by the code's.

  What the groups of lemmas show.
  Clusters: the effect of a create with its rollback and of a delete on the stored objects, the
  uniqueness of instance ids over any sequence of operations and, for requests in flight at the same time,
  over any interleaving of their calls in which no two creations ask for one id (without that condition a
  theorem shows two clusters of one id), a created cluster is read back by id and name (and by version, if
  the version matrix can be inverted and no release image was asked for), paging
  returns every cluster once, which fields a cluster shows in which status, the sizes of the workers.
  Concurrency: an operation is cut into its calls by replaying it on the answers received so far, so the
  interleaved operations are the very definitions of the other theories; a request that is alone ends and does
  what the operation does in one piece.  A deadline that passes between the two writes of a create makes the
  rollback fail, and a later creation under the id is refused whatever else the hub holds by then.
  Versions: the versions registered are the ones that can be ordered.
  HTTP: which requests are refused and how, problem bodies agree with the status line, causes of
  internal errors never show, panics and validation errors end in one problem response.  The composed
  server answers every request a route of the API matches with one honest response, but for a body that
  cannot be decoded, and leaves any other to the router's answer; the generated client sees exactly the
  response of the handler and the handler gets exactly what the client was given, when the validator lets
  the request through and the texts are valid UTF-8, but for the cluster named \<open>health\<close>.
  Through the whole stack a client that creates, reads and deletes a cluster of its own sees what it
  ordered and then its end, whatever is done to other clusters in between.  The routes of the server are the
  operations of \<open>openapi.yaml\<close>, and the endpoint that is registered is the one that creates clusters.
  JSON: what is written is read back, what is read is well-typed, and the conversions of the handler
  between the two packages' types, modelled as the identity or an error, are these round trips.
  Start: the order of the steps, that whatever was opened is closed, that nothing is started before
  the server is ready, and that an error of the process is the error of the step that failed, named after it.
  Monitoring: the tracker refines a specification that knows the last status of each resource, its
  events carry the message of the condition that accounts for them, the debouncer hands every latest event
  to the publisher and none twice.  A publication ends as \<open>publishWithRetry\<close> lets it: delivered, dropped after the retries, or
  given up.  In runs where handlers of one instance do not overtake each other the pipeline ends with
  the right status as the last one it tried to publish for every instance, and as the last one delivered
  if that publication succeeded; without these conditions a theorem gives the runs in which it fails.
  \<open>StatusViews\<close> joins this to the service: every created cluster is selected and indexed by the informers under
  its id, and the status published is the one a Get answers with or a worse one of the NodePool.
  Registration: which failures are retried, the backoff schedule, and that the registry is told of
  exactly the versions on offer after a change.

  Loops.  Loops over lists are structural recursions, the publish loop ends by a measure on the
  attempts left.  The registration loop and the version watcher may run forever, they are partial
  functions; a theorem gives the run of attempts in which they return and the one in which they do
  not.  The JSON parser runs on fuel, twice the length of the text and two, and with the decoder's limit of
  10000 nested values; \<open>parse_fuel_enough\<close> shows that more fuel changes nothing.  The tracker and the debouncer are step relations, their invariants are shown
  by rule induction over all interleavings.

  Not modelled: the text of the embedded OpenAPI document, the work of the informer factory and its caches, log
  lines (the access log excepted), the cancellation of a context other than by its deadline or at the end of
  a loop, and the reuse of a slice's capacity when a JSON object repeats the key of a list.  The structs of
  the generated server are the records of \<open>ApiTypes\<close>.  Times are printed in UTC.
\<close>

end
